theory Spec2Isabelle
  imports Main "HOL-Library.Word"
begin

unbundle bit_operations_syntax

section \<open>Actions and their payloads\<close>

text \<open>
  The action codes are the enumerators that the two source files name.
  \<open>ACTION_NULL\<close> is the "no action" answer of \<^verbatim>\<open>get_action_bind()\<close> in \<^verbatim>\<open>event.c\<close>.
\<close>

datatype action_code =
    ACTION_NULL
  | ACTION_RELOAD_CONFIGURATION
  | ACTION_PARENT_FRAME
  | ACTION_CHILD_FRAME
  | ACTION_ROOT_FRAME
  | ACTION_CLOSE_WINDOW
  | ACTION_MINIMIZE_WINDOW
  | ACTION_NEXT_WINDOW
  | ACTION_PREVIOUS_WINDOW
  | ACTION_REMOVE_FRAME
  | ACTION_TOGGLE_TILING
  | ACTION_TOGGLE_FULLSCREEN
  | ACTION_TOGGLE_FOCUS
  | ACTION_SPLIT_HORIZONTALLY
  | ACTION_SPLIT_VERTICALLY
  | ACTION_FOCUS_UP
  | ACTION_FOCUS_LEFT
  | ACTION_FOCUS_RIGHT
  | ACTION_FOCUS_DOWN
  | ACTION_EXCHANGE_UP
  | ACTION_EXCHANGE_LEFT
  | ACTION_EXCHANGE_RIGHT
  | ACTION_EXCHANGE_DOWN
  | ACTION_RESIZE_BY
  | ACTION_SHOW_WINDOW_LIST
  | ACTION_RUN
  | ACTION_QUIT
  | ACTION_INITIATE_RESIZE
  | ACTION_INITIATE_MOVE

text \<open>
  Text payloads are C strings reached through a pointer. A pointer is either the address
  of a string literal of the program text (immutable, so it is identified with its bytes)
  or the number of a block obtained from the allocator. The allocated blocks are the
  \<open>text_heap\<close>: block \<open>a\<close> holds the bytes \<open>h ! a\<close>.
\<close>

datatype text_ref = Literal string | Allocated nat

type_synonym text_heap = "string list"

text \<open>
  The parameter of an action is a C union. \<open>Zeroed\<close> is the union left at its zero
  initialiser (\<^verbatim>\<open>{ .code = ... }\<close>), \<open>Quad\<close> is the member \<^verbatim>\<open>.quad\<close> and \<open>Text\<close> the
  member \<^verbatim>\<open>.string\<close>.
\<close>

datatype parameter = Zeroed | Quad int int int int | Text text_ref

record action =
  code :: action_code
  parameter :: parameter

datatype data_type = DATA_TYPE_VOID | DATA_TYPE_QUAD | DATA_TYPE_STRING

section \<open>Payload duplication\<close>

text \<open>
  Modelled from the spec: \<^verbatim>\<open>get_action_data_type()\<close>, whose definition is not among the
  source files. The payload's shape is determined solely by the action code;
  \<^verbatim>\<open>default_configuration.c\<close> gives \<open>ACTION_RESIZE_BY\<close> a quad and \<open>ACTION_RUN\<close> a
  string and leaves the parameter of every other action zeroed.
\<close>

fun get_action_data_type :: "action_code \<Rightarrow> data_type" where
  "get_action_data_type ACTION_RESIZE_BY = DATA_TYPE_QUAD"
| "get_action_data_type ACTION_RUN = DATA_TYPE_STRING"
| "get_action_data_type _ = DATA_TYPE_VOID"

text \<open>Reading the bytes behind a text pointer; a block that was never allocated has none.\<close>

fun text_of :: "text_heap \<Rightarrow> text_ref \<Rightarrow> string option" where
  "text_of h (Literal s) = Some s"
| "text_of h (Allocated a) = (if a < length h then Some (h ! a) else None)"

text \<open>
  Modelled from the spec: the string duplication behind the deep copy of a text, here
  \<^verbatim>\<open>xstrdup()\<close>: a fresh block holding a copy of the bytes. Allocation failure is fatal
  and is not a result of the model.
\<close>

definition xstrdup :: "text_heap \<Rightarrow> string \<Rightarrow> text_heap \<times> text_ref" where
  "xstrdup h s = (h @ [s], Allocated (length h))"

text \<open>
  Modelled from the spec: \<^verbatim>\<open>duplicate_data_value()\<close>, whose definition is not among the
  source files: a type-directed deep copy of the payload, done in place on the union. Only text owns storage; a null text pointer (the
  zeroed union) stays null. \<open>None\<close> is the undefined behaviour of copying through a
  pointer to a block that does not exist.
\<close>

fun duplicate_data_value ::
  "data_type \<Rightarrow> text_heap \<Rightarrow> parameter \<Rightarrow> (text_heap \<times> parameter) option" where
  "duplicate_data_value DATA_TYPE_STRING h (Text r) =
     (case text_of h r of
        None \<Rightarrow> None
      | Some s \<Rightarrow> (case xstrdup h s of (h', r') \<Rightarrow> Some (h', Text r')))"
| "duplicate_data_value _ h p = Some (h, p)"

section \<open>The binding tables of the configuration\<close>

text \<open>Modifier masks of the X protocol (\<^verbatim>\<open>xcb/xproto.h\<close>) and key symbols of \<^verbatim>\<open>X11/keysymdef.h\<close>.\<close>

abbreviation XCB_MOD_MASK_SHIFT :: "16 word" where "XCB_MOD_MASK_SHIFT \<equiv> 1"
abbreviation XCB_MOD_MASK_CONTROL :: "16 word" where "XCB_MOD_MASK_CONTROL \<equiv> 4"
abbreviation XCB_MOD_MASK_4 :: "16 word" where "XCB_MOD_MASK_4 \<equiv> 64"

abbreviation XK_space :: "32 word" where "XK_space \<equiv> 0x20"
abbreviation XK_plus :: "32 word" where "XK_plus \<equiv> 0x2b"
abbreviation XK_minus :: "32 word" where "XK_minus \<equiv> 0x2d"
abbreviation XK_equal :: "32 word" where "XK_equal \<equiv> 0x3d"
abbreviation XK_a :: "32 word" where "XK_a \<equiv> 0x61"
abbreviation XK_b :: "32 word" where "XK_b \<equiv> 0x62"
abbreviation XK_e :: "32 word" where "XK_e \<equiv> 0x65"
abbreviation XK_f :: "32 word" where "XK_f \<equiv> 0x66"
abbreviation XK_h :: "32 word" where "XK_h \<equiv> 0x68"
abbreviation XK_j :: "32 word" where "XK_j \<equiv> 0x6a"
abbreviation XK_k :: "32 word" where "XK_k \<equiv> 0x6b"
abbreviation XK_l :: "32 word" where "XK_l \<equiv> 0x6c"
abbreviation XK_n :: "32 word" where "XK_n \<equiv> 0x6e"
abbreviation XK_p :: "32 word" where "XK_p \<equiv> 0x70"
abbreviation XK_q :: "32 word" where "XK_q \<equiv> 0x71"
abbreviation XK_r :: "32 word" where "XK_r \<equiv> 0x72"
abbreviation XK_s :: "32 word" where "XK_s \<equiv> 0x73"
abbreviation XK_v :: "32 word" where "XK_v \<equiv> 0x76"
abbreviation XK_w :: "32 word" where "XK_w \<equiv> 0x77"
abbreviation XK_Return :: "32 word" where "XK_Return \<equiv> 0xff0d"
abbreviation XK_Left :: "32 word" where "XK_Left \<equiv> 0xff51"
abbreviation XK_Up :: "32 word" where "XK_Up \<equiv> 0xff52"
abbreviation XK_Right :: "32 word" where "XK_Right \<equiv> 0xff53"
abbreviation XK_Down :: "32 word" where "XK_Down \<equiv> 0xff54"

text \<open>
  \<^verbatim>\<open>struct configuration_key\<close> and \<^verbatim>\<open>struct configuration_button\<close>, with the fields the
  merge writes. \<open>actions\<close> is the owned array of actions, \<open>number_of_actions\<close> its
  stored length.
\<close>

record configuration_key =
  key_flags :: "16 word"
  key_modifiers :: "16 word"
  key_symbol :: "32 word"
  key_actions :: "action list"
  key_number_of_actions :: "32 word"

record configuration_button =
  button_flags :: "16 word"
  button_modifiers :: "16 word"
  button_index :: "8 word"
  button_actions :: "action list"
  button_number_of_actions :: "32 word"

text \<open>
  The part of \<^verbatim>\<open>struct configuration\<close> that the merge reads and writes: for the mouse and
  for the keyboard the table-wide modifiers, the array of bindings and the stored count.
  The bindings of a table are the first \<open>number_of_...\<close> elements of its array.
\<close>

record configuration =
  mouse_modifiers :: "16 word"
  mouse_buttons :: "configuration_button list"
  mouse_number_of_buttons :: "32 word"
  keyboard_modifiers :: "16 word"
  keyboard_keys :: "configuration_key list"
  keyboard_number_of_keys :: "32 word"

definition key_table :: "configuration \<Rightarrow> configuration_key list" where
  "key_table c = take (unat (keyboard_number_of_keys c)) (keyboard_keys c)"

definition button_table :: "configuration \<Rightarrow> configuration_button list" where
  "button_table c = take (unat (mouse_number_of_buttons c)) (mouse_buttons c)"

text \<open>
  Modelled from the spec: \<^verbatim>\<open>find_configured_key()\<close> and \<^verbatim>\<open>find_configured_button()\<close>,
  whose definitions are not among the source files: the first binding of the table that
  matches exactly on modifiers, symbol or index, and flags; \<open>None\<close> is the null pointer.
\<close>

definition find_configured_key ::
  "configuration \<Rightarrow> 16 word \<Rightarrow> 32 word \<Rightarrow> 16 word \<Rightarrow> configuration_key option" where
  "find_configured_key c modifiers symbol flags =
     find (\<lambda>k. key_modifiers k = modifiers \<and> key_symbol k = symbol \<and> key_flags k = flags)
       (key_table c)"

definition find_configured_button ::
  "configuration \<Rightarrow> 16 word \<Rightarrow> 8 word \<Rightarrow> 16 word \<Rightarrow> configuration_button option" where
  "find_configured_button c modifiers index flags =
     find (\<lambda>b. button_modifiers b = modifiers \<and> button_index b = index \<and> button_flags b = flags)
       (button_table c)"

text \<open>
  Modelled from the spec: the macro \<^verbatim>\<open>RESIZE\<close>, whose definition is not among the source
  files, grows the storage of the array to \<open>n\<close> elements. The elements kept are unchanged; what the new elements hold is
  indeterminate, so their content \<open>junk\<close> is a parameter. Allocation failure is fatal.
\<close>

definition RESIZE :: "'a \<Rightarrow> 'a list \<Rightarrow> nat \<Rightarrow> 'a list" where
  "RESIZE junk xs n = take n xs @ replicate (n - length xs) junk"

section \<open>Notions for stating the merge properties\<close>

text \<open>
  A payload is static when it owns no allocated block: zeroed, a quad, or a pointer to a
  string literal. The templates of the default arrays are static.
\<close>

fun static_payload :: "parameter \<Rightarrow> bool" where
  "static_payload (Text (Allocated a)) = False"
| "static_payload _ = True"

text \<open>
  \<open>payload_copied ty h p h' p'\<close>: \<open>p'\<close> is a deep copy, made between the heaps \<open>h\<close> and
  \<open>h'\<close>, of the payload \<open>p\<close> of type \<open>ty\<close>. A text is copied into a block that did not
  exist in \<open>h\<close> and holds the bytes of the original; other payloads are copied by value.
\<close>

fun payload_copied ::
  "data_type \<Rightarrow> text_heap \<Rightarrow> parameter \<Rightarrow> text_heap \<Rightarrow> parameter \<Rightarrow> bool" where
  "payload_copied DATA_TYPE_STRING h (Text r) h' (Text (Allocated a)) =
     (length h \<le> a \<and> a < length h' \<and> text_of h' r = Some (h' ! a))"
| "payload_copied DATA_TYPE_STRING h (Text r) h' _ = False"
| "payload_copied _ h p h' p' = (p' = p)"

section \<open>Merging the default key bindings\<close>

text \<open>
  The element type of the local array \<^verbatim>\<open>default_bindings\<close> of
  \<^verbatim>\<open>merge_with_default_key_bindings()\<close> and the array itself, in declaration order.
\<close>

type_synonym key_trig = "16 word \<times> 32 word \<times> 16 word"

record default_key_binding =
  default_key_modifiers :: "16 word"
  default_key_flags :: "16 word"
  default_key_symbol :: "32 word"
  default_key_action :: action

definition default_key_bindings :: "default_key_binding list" where
  \<open>default_key_bindings = [
    \<lparr>default_key_modifiers = XCB_MOD_MASK_SHIFT, default_key_flags = 0, default_key_symbol = XK_r,
       default_key_action = \<lparr>code = ACTION_RELOAD_CONFIGURATION, parameter = Zeroed\<rparr>\<rparr>,
    \<lparr>default_key_modifiers = 0, default_key_flags = 0, default_key_symbol = XK_a,
       default_key_action = \<lparr>code = ACTION_PARENT_FRAME, parameter = Zeroed\<rparr>\<rparr>,
    \<lparr>default_key_modifiers = 0, default_key_flags = 0, default_key_symbol = XK_b,
       default_key_action = \<lparr>code = ACTION_CHILD_FRAME, parameter = Zeroed\<rparr>\<rparr>,
    \<lparr>default_key_modifiers = XCB_MOD_MASK_SHIFT, default_key_flags = 0, default_key_symbol = XK_a,
       default_key_action = \<lparr>code = ACTION_ROOT_FRAME, parameter = Zeroed\<rparr>\<rparr>,
    \<lparr>default_key_modifiers = 0, default_key_flags = 0, default_key_symbol = XK_q,
       default_key_action = \<lparr>code = ACTION_CLOSE_WINDOW, parameter = Zeroed\<rparr>\<rparr>,
    \<lparr>default_key_modifiers = 0, default_key_flags = 0, default_key_symbol = XK_minus,
       default_key_action = \<lparr>code = ACTION_MINIMIZE_WINDOW, parameter = Zeroed\<rparr>\<rparr>,
    \<lparr>default_key_modifiers = 0, default_key_flags = 0, default_key_symbol = XK_n,
       default_key_action = \<lparr>code = ACTION_NEXT_WINDOW, parameter = Zeroed\<rparr>\<rparr>,
    \<lparr>default_key_modifiers = 0, default_key_flags = 0, default_key_symbol = XK_p,
       default_key_action = \<lparr>code = ACTION_PREVIOUS_WINDOW, parameter = Zeroed\<rparr>\<rparr>,
    \<lparr>default_key_modifiers = 0, default_key_flags = 0, default_key_symbol = XK_r,
       default_key_action = \<lparr>code = ACTION_REMOVE_FRAME, parameter = Zeroed\<rparr>\<rparr>,
    \<lparr>default_key_modifiers = XCB_MOD_MASK_SHIFT, default_key_flags = 0, default_key_symbol = XK_space,
       default_key_action = \<lparr>code = ACTION_TOGGLE_TILING, parameter = Zeroed\<rparr>\<rparr>,
    \<lparr>default_key_modifiers = 0, default_key_flags = 0, default_key_symbol = XK_f,
       default_key_action = \<lparr>code = ACTION_TOGGLE_FULLSCREEN, parameter = Zeroed\<rparr>\<rparr>,
    \<lparr>default_key_modifiers = 0, default_key_flags = 0, default_key_symbol = XK_space,
       default_key_action = \<lparr>code = ACTION_TOGGLE_FOCUS, parameter = Zeroed\<rparr>\<rparr>,
    \<lparr>default_key_modifiers = 0, default_key_flags = 0, default_key_symbol = XK_v,
       default_key_action = \<lparr>code = ACTION_SPLIT_HORIZONTALLY, parameter = Zeroed\<rparr>\<rparr>,
    \<lparr>default_key_modifiers = 0, default_key_flags = 0, default_key_symbol = XK_s,
       default_key_action = \<lparr>code = ACTION_SPLIT_VERTICALLY, parameter = Zeroed\<rparr>\<rparr>,
    \<lparr>default_key_modifiers = 0, default_key_flags = 0, default_key_symbol = XK_k,
       default_key_action = \<lparr>code = ACTION_FOCUS_UP, parameter = Zeroed\<rparr>\<rparr>,
    \<lparr>default_key_modifiers = 0, default_key_flags = 0, default_key_symbol = XK_h,
       default_key_action = \<lparr>code = ACTION_FOCUS_LEFT, parameter = Zeroed\<rparr>\<rparr>,
    \<lparr>default_key_modifiers = 0, default_key_flags = 0, default_key_symbol = XK_l,
       default_key_action = \<lparr>code = ACTION_FOCUS_RIGHT, parameter = Zeroed\<rparr>\<rparr>,
    \<lparr>default_key_modifiers = 0, default_key_flags = 0, default_key_symbol = XK_j,
       default_key_action = \<lparr>code = ACTION_FOCUS_DOWN, parameter = Zeroed\<rparr>\<rparr>,
    \<lparr>default_key_modifiers = XCB_MOD_MASK_SHIFT, default_key_flags = 0, default_key_symbol = XK_k,
       default_key_action = \<lparr>code = ACTION_EXCHANGE_UP, parameter = Zeroed\<rparr>\<rparr>,
    \<lparr>default_key_modifiers = XCB_MOD_MASK_SHIFT, default_key_flags = 0, default_key_symbol = XK_h,
       default_key_action = \<lparr>code = ACTION_EXCHANGE_LEFT, parameter = Zeroed\<rparr>\<rparr>,
    \<lparr>default_key_modifiers = XCB_MOD_MASK_SHIFT, default_key_flags = 0, default_key_symbol = XK_l,
       default_key_action = \<lparr>code = ACTION_EXCHANGE_RIGHT, parameter = Zeroed\<rparr>\<rparr>,
    \<lparr>default_key_modifiers = XCB_MOD_MASK_SHIFT, default_key_flags = 0, default_key_symbol = XK_j,
       default_key_action = \<lparr>code = ACTION_EXCHANGE_DOWN, parameter = Zeroed\<rparr>\<rparr>,
    \<lparr>default_key_modifiers = XCB_MOD_MASK_CONTROL, default_key_flags = 0, default_key_symbol = XK_Left,
       default_key_action = \<lparr>code = ACTION_RESIZE_BY, parameter = Quad 20 0 0 0\<rparr>\<rparr>,
    \<lparr>default_key_modifiers = XCB_MOD_MASK_CONTROL, default_key_flags = 0, default_key_symbol = XK_Up,
       default_key_action = \<lparr>code = ACTION_RESIZE_BY, parameter = Quad 0 20 0 0\<rparr>\<rparr>,
    \<lparr>default_key_modifiers = XCB_MOD_MASK_CONTROL, default_key_flags = 0, default_key_symbol = XK_Right,
       default_key_action = \<lparr>code = ACTION_RESIZE_BY, parameter = Quad (-20) 0 0 0\<rparr>\<rparr>,
    \<lparr>default_key_modifiers = XCB_MOD_MASK_CONTROL, default_key_flags = 0, default_key_symbol = XK_Down,
       default_key_action = \<lparr>code = ACTION_RESIZE_BY, parameter = Quad 0 (-20) 0 0\<rparr>\<rparr>,
    \<lparr>default_key_modifiers = XCB_MOD_MASK_SHIFT, default_key_flags = 0, default_key_symbol = XK_Left,
       default_key_action = \<lparr>code = ACTION_RESIZE_BY, parameter = Quad 0 0 (-20) 0\<rparr>\<rparr>,
    \<lparr>default_key_modifiers = XCB_MOD_MASK_SHIFT, default_key_flags = 0, default_key_symbol = XK_Up,
       default_key_action = \<lparr>code = ACTION_RESIZE_BY, parameter = Quad 0 0 0 (-20)\<rparr>\<rparr>,
    \<lparr>default_key_modifiers = XCB_MOD_MASK_SHIFT, default_key_flags = 0, default_key_symbol = XK_Right,
       default_key_action = \<lparr>code = ACTION_RESIZE_BY, parameter = Quad 0 0 20 0\<rparr>\<rparr>,
    \<lparr>default_key_modifiers = XCB_MOD_MASK_SHIFT, default_key_flags = 0, default_key_symbol = XK_Down,
       default_key_action = \<lparr>code = ACTION_RESIZE_BY, parameter = Quad 0 0 0 20\<rparr>\<rparr>,
    \<lparr>default_key_modifiers = 0, default_key_flags = 0, default_key_symbol = XK_Left,
       default_key_action = \<lparr>code = ACTION_RESIZE_BY, parameter = Quad 20 0 (-20) 0\<rparr>\<rparr>,
    \<lparr>default_key_modifiers = 0, default_key_flags = 0, default_key_symbol = XK_Up,
       default_key_action = \<lparr>code = ACTION_RESIZE_BY, parameter = Quad 0 20 0 (-20)\<rparr>\<rparr>,
    \<lparr>default_key_modifiers = 0, default_key_flags = 0, default_key_symbol = XK_Right,
       default_key_action = \<lparr>code = ACTION_RESIZE_BY, parameter = Quad (-20) 0 20 0\<rparr>\<rparr>,
    \<lparr>default_key_modifiers = 0, default_key_flags = 0, default_key_symbol = XK_Down,
       default_key_action = \<lparr>code = ACTION_RESIZE_BY, parameter = Quad 0 (-20) 0 20\<rparr>\<rparr>,
    \<lparr>default_key_modifiers = XCB_MOD_MASK_CONTROL, default_key_flags = 0, default_key_symbol = XK_plus,
       default_key_action = \<lparr>code = ACTION_RESIZE_BY, parameter = Quad 10 10 10 10\<rparr>\<rparr>,
    \<lparr>default_key_modifiers = XCB_MOD_MASK_CONTROL, default_key_flags = 0, default_key_symbol = XK_minus,
       default_key_action = \<lparr>code = ACTION_RESIZE_BY, parameter = Quad (-10) (-10) (-10) (-10)\<rparr>\<rparr>,
    \<lparr>default_key_modifiers = XCB_MOD_MASK_CONTROL, default_key_flags = 0, default_key_symbol = XK_equal,
       default_key_action = \<lparr>code = ACTION_RESIZE_BY, parameter = Quad 10 10 10 10\<rparr>\<rparr>,
    \<lparr>default_key_modifiers = 0, default_key_flags = 0, default_key_symbol = XK_w,
       default_key_action = \<lparr>code = ACTION_SHOW_WINDOW_LIST, parameter = Zeroed\<rparr>\<rparr>,
    \<lparr>default_key_modifiers = 0, default_key_flags = 0, default_key_symbol = XK_Return,
       default_key_action = \<lparr>code = ACTION_RUN, parameter = Text (Literal ''[ -n "$TERMINAL" ] && exec "$TERMINAL" || exec xterm'')\<rparr>\<rparr>,
    \<lparr>default_key_modifiers = XCB_MOD_MASK_CONTROL OR XCB_MOD_MASK_SHIFT, default_key_flags = 0, default_key_symbol = XK_e,
       default_key_action = \<lparr>code = ACTION_QUIT, parameter = Zeroed\<rparr>\<rparr>]\<close>

text \<open>
  The first loop: \<open>new_count\<close> starts at the stored count and is incremented (in
  \<^verbatim>\<open>uint32_t\<close>, so with wrap-around) for every default that is not found.
\<close>

fun count_new_keys :: "configuration \<Rightarrow> default_key_binding list \<Rightarrow> 32 word \<Rightarrow> 32 word" where
  "count_new_keys c [] new_count = new_count"
| "count_new_keys c (d # ds) new_count =
     (let modifiers = default_key_modifiers d OR keyboard_modifiers c in
      if find_configured_key c modifiers (default_key_symbol d) (default_key_flags d) \<noteq> None
      then count_new_keys c ds new_count
      else count_new_keys c ds (new_count + 1))"

text \<open>
  The second loop. \<open>next_key\<close> is the index the cursor \<^verbatim>\<open>next_key\<close> points at. The lookup
  runs on the configuration as it is at that moment: the array already holds the
  bindings written so far, the stored count is still the old one. Writing through the
  cursor beyond the end of the array is undefined behaviour, \<open>None\<close>; so is a failed
  payload copy.
\<close>

fun add_new_keys ::
  "default_key_binding list \<Rightarrow> text_heap \<Rightarrow> configuration \<Rightarrow> nat \<Rightarrow>
     (text_heap \<times> configuration \<times> nat) option" where
  "add_new_keys [] h c next_key = Some (h, c, next_key)"
| "add_new_keys (d # ds) h c next_key =
     (let modifiers = default_key_modifiers d OR keyboard_modifiers c in
      if find_configured_key c modifiers (default_key_symbol d) (default_key_flags d) \<noteq> None
      then add_new_keys ds h c next_key
      else if next_key < length (keyboard_keys c) then
        (case duplicate_data_value (get_action_data_type (code (default_key_action d))) h
                (parameter (default_key_action d)) of
           None \<Rightarrow> None
         | Some (h', p) \<Rightarrow>
             add_new_keys ds h'
               (c\<lparr>keyboard_keys := (keyboard_keys c)[next_key :=
                    \<lparr>key_flags = default_key_flags d,
                     key_modifiers = modifiers,
                     key_symbol = default_key_symbol d,
                     key_actions = [(default_key_action d)\<lparr>parameter := p\<rparr>],
                     key_number_of_actions = 1\<rparr>]\<rparr>)
               (Suc next_key))
      else None)"

text \<open>
  The body of \<^verbatim>\<open>merge_with_default_key_bindings()\<close> over a list of defaults \<open>ds\<close>: count,
  return early when nothing is missing, otherwise resize the array to \<open>new_count\<close>
  elements, fill in from the old count on, and store \<open>new_count\<close> last.
\<close>

definition merge_key_bindings ::
  "default_key_binding list \<Rightarrow> configuration_key \<Rightarrow> text_heap \<times> configuration \<Rightarrow>
     (text_heap \<times> configuration) option" where
  "merge_key_bindings ds junk hc =
     (case hc of (h, c) \<Rightarrow>
        let new_count = count_new_keys c ds (keyboard_number_of_keys c) in
        if new_count = keyboard_number_of_keys c then Some (h, c)
        else
          (case add_new_keys ds h
                  (c\<lparr>keyboard_keys := RESIZE junk (keyboard_keys c) (unat new_count)\<rparr>)
                  (unat (keyboard_number_of_keys c)) of
             None \<Rightarrow> None
           | Some (h', c', next_key) \<Rightarrow> Some (h', c'\<lparr>keyboard_number_of_keys := new_count\<rparr>)))"

definition merge_with_default_key_bindings ::
  "configuration_key \<Rightarrow> text_heap \<times> configuration \<Rightarrow> (text_heap \<times> configuration) option" where
  "merge_with_default_key_bindings = merge_key_bindings default_key_bindings"

text \<open>
  Notions used to state the properties of the key merge: the trigger of a binding, the
  effective trigger of a default under the table-wide modifiers \<open>base\<close>, whether the table
  lacks a default, and the binding the second loop writes for a default whose copied
  payload is \<open>p\<close>.
\<close>

definition key_trigger :: "configuration_key \<Rightarrow> key_trig" where
  "key_trigger k = (key_modifiers k, key_symbol k, key_flags k)"

definition default_key_trigger :: "16 word \<Rightarrow> default_key_binding \<Rightarrow> key_trig" where
  "default_key_trigger base d =
     (default_key_modifiers d OR base, default_key_symbol d, default_key_flags d)"

definition key_absent :: "configuration \<Rightarrow> default_key_binding \<Rightarrow> bool" where
  "key_absent c d =
     (find_configured_key c (default_key_modifiers d OR keyboard_modifiers c)
        (default_key_symbol d) (default_key_flags d) = None)"

definition new_key :: "16 word \<Rightarrow> default_key_binding \<Rightarrow> parameter \<Rightarrow> configuration_key" where
  "new_key base d p =
     \<lparr>key_flags = default_key_flags d,
      key_modifiers = default_key_modifiers d OR base,
      key_symbol = default_key_symbol d,
      key_actions = [(default_key_action d)\<lparr>parameter := p\<rparr>],
      key_number_of_actions = 1\<rparr>"

text \<open>
  The append-only reading of the second loop, after the spec's design note: the list of
  new bindings for a list of defaults, each with its payload copied in turn.
\<close>

fun copy_key_defaults ::
  "16 word \<Rightarrow> text_heap \<Rightarrow> default_key_binding list \<Rightarrow>
     (text_heap \<times> configuration_key list) option" where
  "copy_key_defaults base h [] = Some (h, [])"
| "copy_key_defaults base h (d # ds) =
     (case duplicate_data_value (get_action_data_type (code (default_key_action d))) h
             (parameter (default_key_action d)) of
        None \<Rightarrow> None
      | Some (h', p) \<Rightarrow>
          (case copy_key_defaults base h' ds of
             None \<Rightarrow> None
           | Some (h'', ks) \<Rightarrow> Some (h'', new_key base d p # ks)))"

text \<open>
  \<open>key_copied base h h' d k\<close>: the binding \<open>k\<close> is the copy of the default \<open>d\<close> made
  between the heaps \<open>h\<close> and \<open>h'\<close>: effective trigger, one action, the template's code,
  the payload copied.
\<close>

definition key_copied ::
  "16 word \<Rightarrow> text_heap \<Rightarrow> text_heap \<Rightarrow> default_key_binding \<Rightarrow> configuration_key \<Rightarrow> bool" where
  "key_copied base h h' d k =
     (key_trigger k = default_key_trigger base d \<and>
      key_number_of_actions k = 1 \<and>
      (case key_actions k of
         [a] \<Rightarrow> code a = code (default_key_action d) \<and>
                payload_copied (get_action_data_type (code (default_key_action d))) h
                  (parameter (default_key_action d)) h' (parameter a)
       | _ \<Rightarrow> False))"

text \<open>
  The storage of the key table is sound: the array holds the stored count of bindings,
  and the count leaves room for every default without wrapping \<^verbatim>\<open>uint32_t\<close>.
\<close>

definition key_storage_ok :: "configuration \<Rightarrow> bool" where
  "key_storage_ok c =
     (unat (keyboard_number_of_keys c) \<le> length (keyboard_keys c) \<and>
      unat (keyboard_number_of_keys c) + length default_key_bindings < 2 ^ 32)"

text \<open>The table after \<open>es\<close> has been appended and counted; nothing changes when \<open>es\<close> is empty.\<close>

definition append_keys :: "configuration \<Rightarrow> configuration_key list \<Rightarrow> configuration" where
  "append_keys c es =
     (if es = [] then c
      else c\<lparr>keyboard_keys := key_table c @ es,
             keyboard_number_of_keys := keyboard_number_of_keys c + of_nat (length es)\<rparr>)"

section \<open>Merging the default button bindings\<close>

text \<open>
  \<^verbatim>\<open>merge_with_default_button_bindings()\<close> has the text of the key merge, over the mouse
  fields of the configuration and its own local array \<^verbatim>\<open>default_bindings\<close>.
\<close>

type_synonym button_trig = "16 word \<times> 8 word \<times> 16 word"

record default_button_binding =
  default_button_modifiers :: "16 word"
  default_button_flags :: "16 word"
  default_button_index :: "8 word"
  default_button_action :: action

definition default_button_bindings :: "default_button_binding list" where
  "default_button_bindings = [
    \<lparr>default_button_modifiers = 0, default_button_flags = 0, default_button_index = 1,
       default_button_action = \<lparr>code = ACTION_INITIATE_RESIZE, parameter = Zeroed\<rparr>\<rparr>,
    \<lparr>default_button_modifiers = 0, default_button_flags = 0, default_button_index = 2,
       default_button_action = \<lparr>code = ACTION_MINIMIZE_WINDOW, parameter = Zeroed\<rparr>\<rparr>,
    \<lparr>default_button_modifiers = 0, default_button_flags = 0, default_button_index = 3,
       default_button_action = \<lparr>code = ACTION_INITIATE_MOVE, parameter = Zeroed\<rparr>\<rparr>]"

text \<open>
  The first loop: \<open>new_count\<close> starts at the stored count and is incremented (in
  \<^verbatim>\<open>uint32_t\<close>, so with wrap-around) for every default that is not found.
\<close>

fun count_new_buttons :: "configuration \<Rightarrow> default_button_binding list \<Rightarrow> 32 word \<Rightarrow> 32 word" where
  "count_new_buttons c [] new_count = new_count"
| "count_new_buttons c (d # ds) new_count =
     (let modifiers = default_button_modifiers d OR mouse_modifiers c in
      if find_configured_button c modifiers (default_button_index d) (default_button_flags d) \<noteq> None
      then count_new_buttons c ds new_count
      else count_new_buttons c ds (new_count + 1))"

text \<open>
  The second loop. \<open>next_button\<close> is the index the cursor \<^verbatim>\<open>next_button\<close> points at. The lookup
  runs on the configuration as it is at that moment: the array already holds the
  bindings written so far, the stored count is still the old one. Writing through the
  cursor beyond the end of the array is undefined behaviour, \<open>None\<close>; so is a failed
  payload copy.
\<close>

fun add_new_buttons ::
  "default_button_binding list \<Rightarrow> text_heap \<Rightarrow> configuration \<Rightarrow> nat \<Rightarrow>
     (text_heap \<times> configuration \<times> nat) option" where
  "add_new_buttons [] h c next_button = Some (h, c, next_button)"
| "add_new_buttons (d # ds) h c next_button =
     (let modifiers = default_button_modifiers d OR mouse_modifiers c in
      if find_configured_button c modifiers (default_button_index d) (default_button_flags d) \<noteq> None
      then add_new_buttons ds h c next_button
      else if next_button < length (mouse_buttons c) then
        (case duplicate_data_value (get_action_data_type (code (default_button_action d))) h
                (parameter (default_button_action d)) of
           None \<Rightarrow> None
         | Some (h', p) \<Rightarrow>
             add_new_buttons ds h'
               (c\<lparr>mouse_buttons := (mouse_buttons c)[next_button :=
                    \<lparr>button_flags = default_button_flags d,
                     button_modifiers = modifiers,
                     button_index = default_button_index d,
                     button_actions = [(default_button_action d)\<lparr>parameter := p\<rparr>],
                     button_number_of_actions = 1\<rparr>]\<rparr>)
               (Suc next_button))
      else None)"

text \<open>
  The body of \<^verbatim>\<open>merge_with_default_button_bindings()\<close> over a list of defaults \<open>ds\<close>: count,
  return early when nothing is missing, otherwise resize the array to \<open>new_count\<close>
  elements, fill in from the old count on, and store \<open>new_count\<close> last.
\<close>

definition merge_button_bindings ::
  "default_button_binding list \<Rightarrow> configuration_button \<Rightarrow> text_heap \<times> configuration \<Rightarrow>
     (text_heap \<times> configuration) option" where
  "merge_button_bindings ds junk hc =
     (case hc of (h, c) \<Rightarrow>
        let new_count = count_new_buttons c ds (mouse_number_of_buttons c) in
        if new_count = mouse_number_of_buttons c then Some (h, c)
        else
          (case add_new_buttons ds h
                  (c\<lparr>mouse_buttons := RESIZE junk (mouse_buttons c) (unat new_count)\<rparr>)
                  (unat (mouse_number_of_buttons c)) of
             None \<Rightarrow> None
           | Some (h', c', next_button) \<Rightarrow> Some (h', c'\<lparr>mouse_number_of_buttons := new_count\<rparr>)))"

definition merge_with_default_button_bindings ::
  "configuration_button \<Rightarrow> text_heap \<times> configuration \<Rightarrow> (text_heap \<times> configuration) option" where
  "merge_with_default_button_bindings = merge_button_bindings default_button_bindings"

text \<open>
  Notions used to state the properties of the button merge: the trigger of a binding, the
  effective trigger of a default under the table-wide modifiers \<open>base\<close>, whether the table
  lacks a default, and the binding the second loop writes for a default whose copied
  payload is \<open>p\<close>.
\<close>

definition button_trigger :: "configuration_button \<Rightarrow> button_trig" where
  "button_trigger k = (button_modifiers k, button_index k, button_flags k)"

definition default_button_trigger :: "16 word \<Rightarrow> default_button_binding \<Rightarrow> button_trig" where
  "default_button_trigger base d =
     (default_button_modifiers d OR base, default_button_index d, default_button_flags d)"

definition button_absent :: "configuration \<Rightarrow> default_button_binding \<Rightarrow> bool" where
  "button_absent c d =
     (find_configured_button c (default_button_modifiers d OR mouse_modifiers c)
        (default_button_index d) (default_button_flags d) = None)"

definition new_button :: "16 word \<Rightarrow> default_button_binding \<Rightarrow> parameter \<Rightarrow> configuration_button" where
  "new_button base d p =
     \<lparr>button_flags = default_button_flags d,
      button_modifiers = default_button_modifiers d OR base,
      button_index = default_button_index d,
      button_actions = [(default_button_action d)\<lparr>parameter := p\<rparr>],
      button_number_of_actions = 1\<rparr>"

text \<open>
  The append-only reading of the second loop, after the spec's design note: the list of
  new bindings for a list of defaults, each with its payload copied in turn.
\<close>

fun copy_button_defaults ::
  "16 word \<Rightarrow> text_heap \<Rightarrow> default_button_binding list \<Rightarrow>
     (text_heap \<times> configuration_button list) option" where
  "copy_button_defaults base h [] = Some (h, [])"
| "copy_button_defaults base h (d # ds) =
     (case duplicate_data_value (get_action_data_type (code (default_button_action d))) h
             (parameter (default_button_action d)) of
        None \<Rightarrow> None
      | Some (h', p) \<Rightarrow>
          (case copy_button_defaults base h' ds of
             None \<Rightarrow> None
           | Some (h'', ks) \<Rightarrow> Some (h'', new_button base d p # ks)))"

text \<open>
  \<open>button_copied base h h' d k\<close>: the binding \<open>k\<close> is the copy of the default \<open>d\<close> made
  between the heaps \<open>h\<close> and \<open>h'\<close>: effective trigger, one action, the template's code,
  the payload copied.
\<close>

definition button_copied ::
  "16 word \<Rightarrow> text_heap \<Rightarrow> text_heap \<Rightarrow> default_button_binding \<Rightarrow> configuration_button \<Rightarrow> bool" where
  "button_copied base h h' d k =
     (button_trigger k = default_button_trigger base d \<and>
      button_number_of_actions k = 1 \<and>
      (case button_actions k of
         [a] \<Rightarrow> code a = code (default_button_action d) \<and>
                payload_copied (get_action_data_type (code (default_button_action d))) h
                  (parameter (default_button_action d)) h' (parameter a)
       | _ \<Rightarrow> False))"

text \<open>
  The storage of the button table is sound: the array holds the stored count of bindings,
  and the count leaves room for every default without wrapping \<^verbatim>\<open>uint32_t\<close>.
\<close>

definition button_storage_ok :: "configuration \<Rightarrow> bool" where
  "button_storage_ok c =
     (unat (mouse_number_of_buttons c) \<le> length (mouse_buttons c) \<and>
      unat (mouse_number_of_buttons c) + length default_button_bindings < 2 ^ 32)"

text \<open>The table after \<open>es\<close> has been appended and counted; nothing changes when \<open>es\<close> is empty.\<close>

definition append_buttons :: "configuration \<Rightarrow> configuration_button list \<Rightarrow> configuration" where
  "append_buttons c es =
     (if es = [] then c
      else c\<lparr>mouse_buttons := button_table c @ es,
             mouse_number_of_buttons := mouse_number_of_buttons c + of_nat (length es)\<rparr>)"

section \<open>The event handlers of \<^verbatim>\<open>event.c\<close>\<close>

subsection \<open>Events, windows and the state the handlers work on\<close>

text \<open>
  Constants of the X protocol (\<^verbatim>\<open>xcb/xproto.h\<close>): the core event codes the dispatcher
  names, the property atoms, the bits of a configure mask, and the event mask and mode
  of the pointer grab.
\<close>

abbreviation XCB_KEY_PRESS :: "8 word" where "XCB_KEY_PRESS \<equiv> 2"
abbreviation XCB_BUTTON_PRESS :: "8 word" where "XCB_BUTTON_PRESS \<equiv> 4"
abbreviation XCB_BUTTON_RELEASE :: "8 word" where "XCB_BUTTON_RELEASE \<equiv> 5"
abbreviation XCB_MOTION_NOTIFY :: "8 word" where "XCB_MOTION_NOTIFY \<equiv> 6"
abbreviation XCB_DESTROY_NOTIFY :: "8 word" where "XCB_DESTROY_NOTIFY \<equiv> 17"
abbreviation XCB_UNMAP_NOTIFY :: "8 word" where "XCB_UNMAP_NOTIFY \<equiv> 18"
abbreviation XCB_MAP_REQUEST :: "8 word" where "XCB_MAP_REQUEST \<equiv> 20"
abbreviation XCB_CONFIGURE_REQUEST :: "8 word" where "XCB_CONFIGURE_REQUEST \<equiv> 23"
abbreviation XCB_PROPERTY_NOTIFY :: "8 word" where "XCB_PROPERTY_NOTIFY \<equiv> 28"

abbreviation XCB_ATOM_WM_HINTS :: "32 word" where "XCB_ATOM_WM_HINTS \<equiv> 35"
abbreviation XCB_ATOM_WM_NAME :: "32 word" where "XCB_ATOM_WM_NAME \<equiv> 39"
abbreviation XCB_ATOM_WM_SIZE_HINTS :: "32 word" where "XCB_ATOM_WM_SIZE_HINTS \<equiv> 41"

abbreviation XCB_CONFIG_WINDOW_X :: "16 word" where "XCB_CONFIG_WINDOW_X \<equiv> 1"
abbreviation XCB_CONFIG_WINDOW_Y :: "16 word" where "XCB_CONFIG_WINDOW_Y \<equiv> 2"
abbreviation XCB_CONFIG_WINDOW_WIDTH :: "16 word" where "XCB_CONFIG_WINDOW_WIDTH \<equiv> 4"
abbreviation XCB_CONFIG_WINDOW_HEIGHT :: "16 word" where "XCB_CONFIG_WINDOW_HEIGHT \<equiv> 8"
abbreviation XCB_CONFIG_WINDOW_BORDER_WIDTH :: "16 word" where
  "XCB_CONFIG_WINDOW_BORDER_WIDTH \<equiv> 16"

abbreviation XCB_EVENT_MASK_BUTTON_RELEASE :: "32 word" where
  "XCB_EVENT_MASK_BUTTON_RELEASE \<equiv> 8"
abbreviation XCB_EVENT_MASK_BUTTON_MOTION :: "32 word" where
  "XCB_EVENT_MASK_BUTTON_MOTION \<equiv> 8192"
abbreviation XCB_GRAB_MODE_ASYNC :: "8 word" where "XCB_GRAB_MODE_ASYNC \<equiv> 1"

text \<open>
  Modelled from the spec: the macro \<^verbatim>\<open>XCB_CONFIG_SIZE\<close> (of a header that is not among the
  source files): the configure mask of position and size, as the configure request
  handler echoes "position, size, and border width".
\<close>

definition XCB_CONFIG_SIZE :: "16 word" where
  "XCB_CONFIG_SIZE =
     XCB_CONFIG_WINDOW_X OR XCB_CONFIG_WINDOW_Y OR XCB_CONFIG_WINDOW_WIDTH OR
     XCB_CONFIG_WINDOW_HEIGHT"

type_synonym xcb_window_t = "32 word"

text \<open>
  An event as the dispatcher receives it: the response type and the fields that the
  handlers read after casting to the event structure of their kind. Coordinates are
  \<^verbatim>\<open>int16_t\<close>, sizes \<^verbatim>\<open>uint16_t\<close>.
\<close>

record event =
  event_response_type :: "8 word"
  event_detail :: "8 word"
  event_window :: xcb_window_t
  event_root :: xcb_window_t
  event_child :: xcb_window_t
  event_root_x :: "16 word"
  event_root_y :: "16 word"
  event_atom :: "32 word"
  event_x :: "16 word"
  event_y :: "16 word"
  event_width :: "16 word"
  event_height :: "16 word"
  event_border_width :: "16 word"

text \<open>
  The display states the handlers name, and the part of the \<^verbatim>\<open>Window\<close> structure they read.
  The other states of the enumeration are not named in \<^verbatim>\<open>event.c\<close>.
\<close>

datatype window_state = WINDOW_STATE_POPUP | WINDOW_STATE_HIDDEN | WINDOW_STATE_OTHER nat

record window =
  window_state_current :: window_state

text \<open>\<^verbatim>\<open>Position\<close> holds two \<^verbatim>\<open>int32_t\<close>; the reply to a geometry query is as in the protocol.\<close>

record position =
  position_x :: "32 word"
  position_y :: "32 word"

record geometry_reply =
  geometry_x :: "16 word"
  geometry_y :: "16 word"
  geometry_width :: "16 word"
  geometry_height :: "16 word"
  geometry_border_width :: "16 word"

text \<open>The file-level variable \<^verbatim>\<open>selected_window\<close>.\<close>

record selected =
  start :: position
  old_mouse :: position
  xcb_window :: xcb_window_t

text \<open>
  What a handler sends out: requests to the X server and calls of the collaborators
  (window registry, monitors, action engine), in the order they are issued. The state
  argument of \<^verbatim>\<open>set_window_state()\<close> is either given or the result of
  \<^verbatim>\<open>predict_window_state()\<close>.
\<close>

datatype state_argument = Given window_state | Predicted

datatype call =
    Get_geometry xcb_window_t
  | Grab_pointer xcb_window_t "32 word" "8 word" "8 word" xcb_window_t
  | Ungrab_pointer
  | Configure_window xcb_window_t "16 word" "32 word list"
  | Create_window xcb_window_t
  | Set_focus_window xcb_window_t
  | Update_window_name xcb_window_t
  | Update_window_size_hints xcb_window_t
  | Update_window_wm_hints xcb_window_t
  | Set_window_state xcb_window_t state_argument bool
  | Destroy_window xcb_window_t
  | Do_action action_code
  | Query_monitors
  | Merge_monitors

datatype log_line =
    Log_event event
  | Log_property_of_unmanaged_window xcb_window_t
  | Log_performing_action action_code
  | Log_trash_key "8 word"

text \<open>
  The state of the dispatcher: the global variables \<^verbatim>\<open>randr_event_base\<close>,
  \<^verbatim>\<open>selected_window\<close> and \<^verbatim>\<open>g_values\<close> (an array of \<^verbatim>\<open>uint32_t\<close>, indexed from 0; its
  declaration is not among the source files), the calls issued and the lines logged so
  far, and what the surroundings answer: the window registry
  (\<^verbatim>\<open>get_window_of_xcb_window()\<close>), the server's reply to a geometry query, and the binding
  lookup \<^verbatim>\<open>get_action_bind()\<close>. The handlers read the answers and never change them.
\<close>

record wm =
  randr_event_base :: "8 word"
  selected_window :: selected
  g_values :: "nat \<Rightarrow> 32 word"
  calls :: "call list"
  logged :: "log_line list"
  registry :: "xcb_window_t \<Rightarrow> window option"
  server_geometry :: "xcb_window_t \<Rightarrow> geometry_reply option"
  action_bind :: "event \<Rightarrow> action_code"

definition issue :: "call \<Rightarrow> wm \<Rightarrow> wm" where
  "issue r s = s\<lparr>calls := calls s @ [r]\<rparr>"

definition LOG :: "log_line \<Rightarrow> wm \<Rightarrow> wm" where
  "LOG l s = s\<lparr>logged := logged s @ [l]\<rparr>"

text \<open>
  \<^verbatim>\<open>xcb_configure_window()\<close> sends as many values of the array as the mask has bits, and
  the server assigns them to the fields of the mask in the order of the bits.
\<close>

definition value_list :: "16 word \<Rightarrow> (nat \<Rightarrow> 32 word) \<Rightarrow> 32 word list" where
  "value_list value_mask values = map values [0..<length (filter (bit value_mask) [0..<16])]"

definition xcb_configure_window :: "xcb_window_t \<Rightarrow> 16 word \<Rightarrow> wm \<Rightarrow> wm" where
  "xcb_configure_window w value_mask s = issue (Configure_window w value_mask (value_list value_mask (g_values s))) s"

definition configured :: "16 word \<Rightarrow> 32 word list \<Rightarrow> nat \<Rightarrow> 32 word option" where
  "configured value_mask vs n =
     (let i = length (filter (bit value_mask) [0..<n]) in
      if bit value_mask n \<and> i < length vs then Some (vs ! i) else None)"

text \<open>
  A pointer grab is active when one has been requested and not released since: the last
  grab or ungrab among the calls decides. The grab request is taken to be granted.
\<close>

fun grab_step :: "bool \<Rightarrow> call \<Rightarrow> bool" where
  "grab_step a (Grab_pointer root event_mask pointer_mode keyboard_mode confine) = True"
| "grab_step a Ungrab_pointer = False"
| "grab_step a _ = a"

definition grab_active :: "call list \<Rightarrow> bool" where
  "grab_active cs = foldl grab_step False cs"

subsection \<open>The handlers\<close>

definition get_window_of_xcb_window :: "wm \<Rightarrow> xcb_window_t \<Rightarrow> window option" where
  "get_window_of_xcb_window s w = registry s w"

text \<open>
  \<^verbatim>\<open>xcb_get_geometry_reply(g_dpy, xcb_get_geometry(g_dpy, w), NULL)\<close>: the query is issued
  and the server's answer returned; \<open>None\<close> is the null reply.
\<close>

definition xcb_get_geometry_reply :: "xcb_window_t \<Rightarrow> wm \<Rightarrow> geometry_reply option \<times> wm" where
  "xcb_get_geometry_reply w s = (server_geometry s w, issue (Get_geometry w) s)"

definition handle_map_request :: "event \<Rightarrow> wm \<Rightarrow> wm" where
  "handle_map_request ev s =
     (case get_window_of_xcb_window s (event_window ev) of
        Some window \<Rightarrow> s
      | None \<Rightarrow> issue (Set_focus_window (event_window ev))
                  (issue (Create_window (event_window ev)) s))"

text \<open>
  The button press handler. Both components of \<open>start\<close> are assigned \<^verbatim>\<open>event->root_y\<close>,
  as in the source. The \<^verbatim>\<open>int16_t\<close> coordinates are sign-extended into the \<^verbatim>\<open>int32_t\<close>
  fields.
\<close>

definition handle_button_press :: "event \<Rightarrow> wm \<Rightarrow> wm" where
  "handle_button_press ev s =
     (case get_window_of_xcb_window s (event_child ev) of
        None \<Rightarrow> s
      | Some window \<Rightarrow>
          if window_state_current window \<noteq> WINDOW_STATE_POPUP then s
          else
            (case xcb_get_geometry_reply (event_child ev) s of
               (None, s1) \<Rightarrow> s1
             | (Some geometry, s1) \<Rightarrow>
                 issue (Grab_pointer (event_root ev)
                          (XCB_EVENT_MASK_BUTTON_RELEASE OR XCB_EVENT_MASK_BUTTON_MOTION)
                          XCB_GRAB_MODE_ASYNC XCB_GRAB_MODE_ASYNC (event_root ev))
                   (s1\<lparr>selected_window :=
                         \<lparr>start = \<lparr>position_x = scast (event_root_y ev),
                                    position_y = scast (event_root_y ev)\<rparr>,
                          old_mouse = \<lparr>position_x = scast (event_root_x ev),
                                        position_y = scast (event_root_y ev)\<rparr>,
                          xcb_window = event_child ev\<rparr>\<rparr>)))"

text \<open>
  The motion handler. The sums are \<^verbatim>\<open>int\<close> arithmetic on the promoted operands, stored
  into the \<^verbatim>\<open>uint32_t\<close> array; on 32-bit words both are the same bits.
\<close>

definition handle_motion_notify :: "event \<Rightarrow> wm \<Rightarrow> wm" where
  "handle_motion_notify ev s =
     (case xcb_get_geometry_reply (xcb_window (selected_window s)) s of
        (None, s1) \<Rightarrow> issue Ungrab_pointer s1
      | (Some geometry, s1) \<Rightarrow>
          (let sel = selected_window s1;
               v0 = scast (geometry_x geometry) +
                      (scast (event_root_x ev) - position_x (old_mouse sel));
               v1 = scast (geometry_y geometry) +
                      (scast (event_root_y ev) - position_y (old_mouse sel));
               s2 = s1\<lparr>g_values := (g_values s1)(0 := v0, 1 := v1)\<rparr>;
               s3 = s2\<lparr>selected_window :=
                         sel\<lparr>old_mouse := \<lparr>position_x = scast (event_root_x ev),
                                                position_y = scast (event_root_y ev)\<rparr>\<rparr>\<rparr>
           in xcb_configure_window (xcb_window (selected_window s3))
                (XCB_CONFIG_WINDOW_X OR XCB_CONFIG_WINDOW_Y) s3))"

definition handle_button_release :: "event \<Rightarrow> wm \<Rightarrow> wm" where
  "handle_button_release ev s = issue Ungrab_pointer s"

definition handle_property_notify :: "event \<Rightarrow> wm \<Rightarrow> wm" where
  "handle_property_notify ev s =
     (case get_window_of_xcb_window s (event_window ev) of
        None \<Rightarrow> LOG (Log_property_of_unmanaged_window (event_window ev)) s
      | Some window \<Rightarrow>
          (let s1 =
                 (if event_atom ev = XCB_ATOM_WM_NAME
                  then issue (Update_window_name (event_window ev)) s
                  else if event_atom ev = XCB_ATOM_WM_SIZE_HINTS
                  then issue (Update_window_size_hints (event_window ev)) s
                  else if event_atom ev = XCB_ATOM_WM_HINTS
                  then issue (Update_window_wm_hints (event_window ev)) s
                  else s)
           in issue (Set_window_state (event_window ev) Predicted False) s1))"

definition handle_unmap_notify :: "event \<Rightarrow> wm \<Rightarrow> wm" where
  "handle_unmap_notify ev s =
     (case get_window_of_xcb_window s (event_window ev) of
        Some window \<Rightarrow>
          issue (Set_window_state (event_window ev) (Given WINDOW_STATE_HIDDEN) True) s
      | None \<Rightarrow> s)"

definition handle_destroy_notify :: "event \<Rightarrow> wm \<Rightarrow> wm" where
  "handle_destroy_notify ev s =
     (case get_window_of_xcb_window s (event_window ev) of
        Some window \<Rightarrow> issue (Destroy_window (event_window ev)) s
      | None \<Rightarrow> s)"

definition handle_key_press :: "event \<Rightarrow> wm \<Rightarrow> wm" where
  "handle_key_press ev s =
     (let action = action_bind s ev in
      if action \<noteq> ACTION_NULL
      then issue (Do_action action) (LOG (Log_performing_action action) s)
      else LOG (Log_trash_key (event_detail ev)) s)"

text \<open>
  The configure request handler: the \<^verbatim>\<open>int16_t\<close> position is sign-extended and the
  \<^verbatim>\<open>uint16_t\<close> sizes zero-extended into the \<^verbatim>\<open>uint32_t\<close> array.
\<close>

definition handle_configure_request :: "event \<Rightarrow> wm \<Rightarrow> wm" where
  "handle_configure_request ev s =
     (case get_window_of_xcb_window s (event_window ev) of
        Some window \<Rightarrow> s
      | None \<Rightarrow>
          xcb_configure_window (event_window ev)
            (XCB_CONFIG_SIZE OR XCB_CONFIG_WINDOW_BORDER_WIDTH)
            (s\<lparr>g_values := (g_values s)
                  (0 := scast (event_x ev),
                   1 := scast (event_y ev),
                   2 := ucast (event_width ev),
                   3 := ucast (event_height ev),
                   4 := ucast (event_border_width ev))\<rparr>))"

definition handle_screen_change :: "event \<Rightarrow> wm \<Rightarrow> wm" where
  "handle_screen_change ev s = issue Merge_monitors (issue Query_monitors s)"

definition log_event :: "event \<Rightarrow> wm \<Rightarrow> wm" where
  "log_event ev s = LOG (Log_event ev) s"

text \<open>
  The dispatcher: the type is the response type without its top bit; a type at or above
  \<^verbatim>\<open>randr_event_base\<close> goes to the screen change handler and returns; otherwise the
  event is logged and the \<^verbatim>\<open>switch\<close> selects the handler, or none.
\<close>

definition handle_event :: "event \<Rightarrow> wm \<Rightarrow> wm" where
  "handle_event ev s =
     (let type = event_response_type ev AND NOT 0x80 in
      if type \<ge> randr_event_base s then handle_screen_change ev s
      else
        (let s1 = log_event ev s in
         if type = XCB_MAP_REQUEST then handle_map_request ev s1
         else if type = XCB_BUTTON_PRESS then handle_button_press ev s1
         else if type = XCB_MOTION_NOTIFY then handle_motion_notify ev s1
         else if type = XCB_BUTTON_RELEASE then handle_button_release ev s1
         else if type = XCB_PROPERTY_NOTIFY then handle_property_notify ev s1
         else if type = XCB_UNMAP_NOTIFY then handle_unmap_notify ev s1
         else if type = XCB_DESTROY_NOTIFY then handle_destroy_notify ev s1
         else if type = XCB_CONFIGURE_REQUEST then handle_configure_request ev s1
         else if type = XCB_KEY_PRESS then handle_key_press ev s1
         else s1))"

text \<open>Notions for the statements: the grab requests among calls, and \<^verbatim>\<open>int16_t\<close> positions.\<close>

fun is_grab :: "call \<Rightarrow> bool" where
  "is_grab (Grab_pointer root event_mask pointer_mode keyboard_mode confine) = True"
| "is_grab _ = False"

definition new_calls :: "wm \<Rightarrow> wm \<Rightarrow> call list" where
  "new_calls s s' = drop (length (calls s)) (calls s')"

definition int16_position :: "position \<Rightarrow> bool" where
  "int16_position p =
     (- 32768 \<le> sint (position_x p) \<and> sint (position_x p) < 32768 \<and>
      - 32768 \<le> sint (position_y p) \<and> sint (position_y p) < 32768)"

section \<open>Example configurations\<close>

text \<open>
  A user configuration with Mod4 as the main modifier of both tables: Mod4+q bound to a
  command whose text lives in block 0 of the heap, and button 1 bound to moving a window.
  Both triggers collide with a default.
\<close>

definition example_heap :: text_heap where
  "example_heap = [''exec dmenu_run'']"

definition user_key :: configuration_key where
  "user_key =
     \<lparr>key_flags = 0, key_modifiers = XCB_MOD_MASK_4, key_symbol = XK_q,
      key_actions = [\<lparr>code = ACTION_RUN, parameter = Text (Allocated 0)\<rparr>],
      key_number_of_actions = 1\<rparr>"

definition user_button :: configuration_button where
  "user_button =
     \<lparr>button_flags = 0, button_modifiers = XCB_MOD_MASK_4, button_index = 1,
      button_actions = [\<lparr>code = ACTION_INITIATE_MOVE, parameter = Zeroed\<rparr>],
      button_number_of_actions = 1\<rparr>"

definition example_configuration :: configuration where
  "example_configuration =
     \<lparr>mouse_modifiers = XCB_MOD_MASK_4,
      mouse_buttons = [user_button],
      mouse_number_of_buttons = 1,
      keyboard_modifiers = XCB_MOD_MASK_4,
      keyboard_keys = [user_key],
      keyboard_number_of_keys = 1\<rparr>"

text \<open>A configuration with empty tables whose main modifier is Shift for both tables.\<close>

definition shift_configuration :: configuration where
  "shift_configuration =
     \<lparr>mouse_modifiers = XCB_MOD_MASK_SHIFT, mouse_buttons = [], mouse_number_of_buttons = 0,
      keyboard_modifiers = XCB_MOD_MASK_SHIFT, keyboard_keys = [], keyboard_number_of_keys = 0\<rparr>"

text \<open>Some content for the elements a resize leaves indeterminate.\<close>

definition blank_key :: configuration_key where
  "blank_key = \<lparr>key_flags = 0, key_modifiers = 0, key_symbol = 0, key_actions = [],
                 key_number_of_actions = 0\<rparr>"

definition blank_button :: configuration_button where
  "blank_button = \<lparr>button_flags = 0, button_modifiers = 0, button_index = 0,
                    button_actions = [], button_number_of_actions = 0\<rparr>"

text \<open>
  The Shift configuration as the second loop of either merge finds it: the array resized
  for all defaults, the stored count still 0.
\<close>

definition shift_keys_resized :: configuration where
  "shift_keys_resized = shift_configuration\<lparr>keyboard_keys := RESIZE blank_key [] 40\<rparr>"

definition shift_buttons_resized :: configuration where
  "shift_buttons_resized = shift_configuration\<lparr>mouse_buttons := RESIZE blank_button [] 3\<rparr>"

text \<open>
  An array of two button defaults for button 1, the second with Shift: under a base
  modifier that holds Shift both have the same effective trigger.
\<close>

definition colliding_button_defaults :: "default_button_binding list" where
  "colliding_button_defaults =
     [\<lparr>default_button_modifiers = 0, default_button_flags = 0, default_button_index = 1,
       default_button_action = \<lparr>code = ACTION_INITIATE_RESIZE, parameter = Zeroed\<rparr>\<rparr>,
      \<lparr>default_button_modifiers = XCB_MOD_MASK_SHIFT, default_button_flags = 0,
       default_button_index = 1,
       default_button_action = \<lparr>code = ACTION_INITIATE_MOVE, parameter = Zeroed\<rparr>\<rparr>]"

text \<open>
  A dispatcher at rest: the extension events start at code 89, no call has been issued,
  window 7 is a tracked popup window at position (10, 20), window 8 is tracked and not a
  popup, and no other window is known to the registry or the server.
\<close>

definition idle_wm :: wm where
  "idle_wm =
     \<lparr>randr_event_base = 89,
      selected_window =
        \<lparr>start = \<lparr>position_x = 0, position_y = 0\<rparr>,
         old_mouse = \<lparr>position_x = 0, position_y = 0\<rparr>,
         xcb_window = 0\<rparr>,
      g_values = (\<lambda>i. 0),
      calls = [],
      logged = [],
      registry =
        (\<lambda>w. if w = 7 then Some \<lparr>window_state_current = WINDOW_STATE_POPUP\<rparr>
             else if w = 8 then Some \<lparr>window_state_current = WINDOW_STATE_OTHER 0\<rparr>
             else None),
      server_geometry =
        (\<lambda>w. if w = 7
             then Some \<lparr>geometry_x = 10, geometry_y = 20, geometry_width = 300,
                         geometry_height = 200, geometry_border_width = 1\<rparr>
             else None),
      action_bind = (\<lambda>ev. ACTION_NULL)\<rparr>"

text \<open>An event with root window 1 and every other field zero, to be filled in.\<close>

definition blank_event :: event where
  "blank_event =
     \<lparr>event_response_type = 0, event_detail = 0, event_window = 0, event_root = 1,
      event_child = 0, event_root_x = 0, event_root_y = 0, event_atom = 0,
      event_x = 0, event_y = 0, event_width = 0, event_height = 0, event_border_width = 0\<rparr>"

text \<open>A button press at root position (100, 200) over window 7 and a motion to (110, 205).\<close>

definition press_event :: event where
  "press_event =
     blank_event\<lparr>event_response_type := XCB_BUTTON_PRESS, event_child := 7,
                  event_root_x := 100, event_root_y := 200\<rparr>"

definition motion_event :: event where
  "motion_event =
     blank_event\<lparr>event_response_type := XCB_MOTION_NOTIFY,
                  event_root_x := 110, event_root_y := 205\<rparr>"

definition release_event :: event where
  "release_event = blank_event\<lparr>event_response_type := XCB_BUTTON_RELEASE\<rparr>"

section \<open>Properties of the binding merge\<close>

subsection \<open>Counts, arrays and payload copies\<close>

lemma unat_count_plus:
  fixes w :: "32 word"
  assumes "unat w + k < 2 ^ 32"
  shows "unat (w + of_nat k) = unat w + k"
proof -
  have "k < 2 ^ 32" using assms by simp
  then have "unat (of_nat k :: 32 word) = k"
    by (simp add: unat_of_nat)
  with assms show ?thesis
    by (simp add: unat_word_ariths)
qed

lemma count_plus_eq_iff:
  fixes w :: "32 word"
  assumes "unat w + k < 2 ^ 32"
  shows "w + of_nat k = w \<longleftrightarrow> k = 0"
proof
  assume "w + of_nat k = w"
  then have "unat (w + of_nat k) = unat w" by simp
  with unat_count_plus [OF assms] show "k = 0" by simp
qed simp

lemma RESIZE_length: "length (RESIZE junk xs n) = n"
  by (simp add: RESIZE_def)

lemma RESIZE_take:
  "m \<le> n \<Longrightarrow> m \<le> length xs \<Longrightarrow> take m (RESIZE junk xs n) = take m xs"
  by (simp add: RESIZE_def min_def)

lemma duplicate_static_total:
  "static_payload p \<Longrightarrow> \<exists>h' p'. duplicate_data_value ty h p = Some (h', p')"
  by (cases "(ty, h, p)" rule: duplicate_data_value.cases)
     (auto simp: xstrdup_def elim: static_payload.elims)

lemma duplicate_heap_grows:
  "duplicate_data_value ty h p = Some (h', p') \<Longrightarrow> \<exists>x. h' = h @ x"
  by (cases "(ty, h, p)" rule: duplicate_data_value.cases)
     (auto simp: xstrdup_def split: option.splits)

lemma text_of_grows: "text_of h r = Some s \<Longrightarrow> text_of (h @ x) r = Some s"
  by (cases r) (auto simp: nth_append split: if_splits)

lemma payload_copied_duplicate:
  assumes "duplicate_data_value ty h p = Some (h1, p')"
  shows "payload_copied ty h p (h1 @ y) p'"
  using assms
  by (cases "(ty, h, p)" rule: duplicate_data_value.cases)
     (auto simp: xstrdup_def nth_append text_of_grows split: option.splits)

lemma payload_copied_weaken:
  "payload_copied ty (h @ x) p h' p' \<Longrightarrow> payload_copied ty h p h' p'"
  by (cases "(ty, h @ x, p, h', p')" rule: payload_copied.cases) auto

subsection \<open>Positions in a filtered list\<close>

lemma filter_position:
  assumes "i < length xs" and "P (xs ! i)"
  shows "length (filter P (take i xs)) < length (filter P xs)"
    and "filter P xs ! length (filter P (take i xs)) = xs ! i"
proof -
  have "xs = take i xs @ xs ! i # drop (Suc i) xs"
    using assms(1) by (rule id_take_nth_drop)
  then have "filter P xs = filter P (take i xs) @ xs ! i # filter P (drop (Suc i) xs)"
    using assms(2) by (metis filter.simps(2) filter_append)
  then show "length (filter P (take i xs)) < length (filter P xs)"
    and "filter P xs ! length (filter P (take i xs)) = xs ! i"
    by simp_all
qed

lemma filter_position_mono:
  assumes "i < j" and "j \<le> length xs" and "P (xs ! i)"
  shows "length (filter P (take i xs)) < length (filter P (take j xs))"
proof -
  have "i < length (take j xs)" using assms(1,2) by simp
  moreover have "P (take j xs ! i)" using assms(1,3) by simp
  ultimately have "length (filter P (take i (take j xs))) < length (filter P (take j xs))"
    by (rule filter_position(1))
  then show ?thesis using assms(1) by (simp add: min_def)
qed

lemma count_list_filter_map:
  "\<forall>x \<in> set xs. f x = t \<longrightarrow> P x \<Longrightarrow>
   count_list (map f (filter P xs)) t = count_list (map f xs) t"
  by (induction xs) auto

lemma count_list_distinct: "distinct xs \<Longrightarrow> x \<in> set xs \<Longrightarrow> count_list xs x = 1"
  by (induction xs) auto

lemma find_append_found: "find P xs \<noteq> None \<Longrightarrow> find P (xs @ ys) = find P xs"
  by (induction xs) auto

subsection \<open>The key merge\<close>

lemma key_absent_iff:
  "key_absent c d \<longleftrightarrow>
   default_key_trigger (keyboard_modifiers c) d \<notin> key_trigger ` set (key_table c)"
  by (force simp: key_absent_def find_configured_key_def find_None_iff key_trigger_def
      default_key_trigger_def)

lemma key_absent_cong:
  "key_table c' = key_table c \<Longrightarrow> keyboard_modifiers c' = keyboard_modifiers c \<Longrightarrow>
   key_absent c' d = key_absent c d"
  by (simp add: key_absent_iff)

lemma count_new_keys_eq:
  "count_new_keys c ds n = n + of_nat (length (filter (key_absent c) ds))"
  by (induction ds arbitrary: n) (simp_all add: key_absent_def Let_def)

text \<open>A write at or beyond the stored count is invisible to the lookup.\<close>

lemma key_table_update_beyond:
  "unat (keyboard_number_of_keys c) \<le> n \<Longrightarrow>
   key_table (c\<lparr>keyboard_keys := (keyboard_keys c)[n := e]\<rparr>) = key_table c"
  by (simp add: key_table_def)

lemma find_configured_key_update_beyond:
  "unat (keyboard_number_of_keys c) \<le> n \<Longrightarrow>
   find_configured_key (c\<lparr>keyboard_keys := (keyboard_keys c)[n := e]\<rparr>) m s f =
   find_configured_key c m s f"
  by (simp add: find_configured_key_def key_table_update_beyond)

lemma add_new_keys_present:
  "\<not> key_absent c d \<Longrightarrow> add_new_keys (d # ds) h c n = add_new_keys ds h c n"
  by (simp add: key_absent_def Let_def)

lemma add_new_keys_absent:
  "key_absent c d \<Longrightarrow> n < length (keyboard_keys c) \<Longrightarrow>
   duplicate_data_value (get_action_data_type (code (default_key_action d))) h
     (parameter (default_key_action d)) = Some (h1, p) \<Longrightarrow>
   add_new_keys (d # ds) h c n =
     add_new_keys ds h1
       (c\<lparr>keyboard_keys := (keyboard_keys c)[n := new_key (keyboard_modifiers c) d p]\<rparr>) (Suc n)"
  by (simp add: key_absent_def Let_def new_key_def)

text \<open>The second loop leaves the stored count and the visible table as they were.\<close>

lemma add_new_keys_table:
  "add_new_keys ds h c n = Some (h', c', n') \<Longrightarrow> unat (keyboard_number_of_keys c) \<le> n \<Longrightarrow>
   keyboard_number_of_keys c' = keyboard_number_of_keys c \<and> key_table c' = key_table c \<and>
   keyboard_modifiers c' = keyboard_modifiers c"
proof (induction ds arbitrary: h c n)
  case Nil
  then show ?case by simp
next
  case (Cons d ds)
  show ?case
  proof (cases "key_absent c d")
    case False
    with Cons.prems Cons.IH [of h c n] show ?thesis
      by (simp add: add_new_keys_present del: add_new_keys.simps)
  next
    case True
    with Cons.prems(1) obtain h1 p where
      n: "n < length (keyboard_keys c)"
      and dup: "duplicate_data_value (get_action_data_type (code (default_key_action d))) h
                 (parameter (default_key_action d)) = Some (h1, p)"
      by (auto simp: key_absent_def Let_def split: if_splits option.splits)
    let ?c1 = "c\<lparr>keyboard_keys := (keyboard_keys c)[n := new_key (keyboard_modifiers c) d p]\<rparr>"
    have step: "add_new_keys ds h1 ?c1 (Suc n) = Some (h', c', n')"
      using Cons.prems(1) by (simp add: add_new_keys_absent [OF True n dup] del: add_new_keys.simps)
    have "unat (keyboard_number_of_keys ?c1) \<le> Suc n"
      using Cons.prems(2) by simp
    with step have "keyboard_number_of_keys c' = keyboard_number_of_keys ?c1 \<and>
               key_table c' = key_table ?c1 \<and> keyboard_modifiers c' = keyboard_modifiers ?c1"
      by (rule Cons.IH)
    then show ?thesis
      using Cons.prems(2) by (simp add: key_table_update_beyond)
  qed
qed

lemma copy_key_defaults_length:
  "copy_key_defaults base h ds = Some (h', es) \<Longrightarrow> length es = length ds"
  by (induction ds arbitrary: h es) (auto split: option.splits)

lemma copy_key_defaults_total:
  "\<forall>d \<in> set ds. static_payload (parameter (default_key_action d)) \<Longrightarrow>
   \<exists>h' es. copy_key_defaults base h ds = Some (h', es)"
proof (induction ds arbitrary: h)
  case Nil
  then show ?case by simp
next
  case (Cons d ds)
  then obtain h1 p where
    "duplicate_data_value (get_action_data_type (code (default_key_action d))) h
       (parameter (default_key_action d)) = Some (h1, p)"
    using duplicate_static_total by (metis list.set_intros(1))
  moreover from Cons obtain h' es where "copy_key_defaults base h1 ds = Some (h', es)"
    by (metis list.set_intros(2))
  ultimately show ?case by simp
qed

lemma copy_key_defaults_heap_grows:
  "copy_key_defaults base h ds = Some (h', es) \<Longrightarrow> \<exists>x. h' = h @ x"
proof (induction ds arbitrary: h es)
  case Nil
  then show ?case by simp
next
  case (Cons d ds)
  then obtain h1 p es1 where
    dup: "duplicate_data_value (get_action_data_type (code (default_key_action d))) h
       (parameter (default_key_action d)) = Some (h1, p)"
    and rest: "copy_key_defaults base h1 ds = Some (h', es1)"
    by (auto split: option.splits)
  from duplicate_heap_grows [OF dup] obtain x where "h1 = h @ x" ..
  moreover from Cons.IH [OF rest] obtain y where "h' = h1 @ y" ..
  ultimately show ?case by simp
qed

lemma copy_key_defaults_triggers:
  "copy_key_defaults base h ds = Some (h', es) \<Longrightarrow>
   map key_trigger es = map (default_key_trigger base) ds"
  by (induction ds arbitrary: h es)
     (auto simp: key_trigger_def default_key_trigger_def new_key_def split: option.splits)

lemma key_copied_weaken:
  "key_copied base (h @ x) h' d k \<Longrightarrow> key_copied base h h' d k"
  by (auto simp: key_copied_def payload_copied_weaken split: list.splits)

lemma copy_key_defaults_copied:
  "copy_key_defaults base h ds = Some (h', es) \<Longrightarrow> list_all2 (key_copied base h h') ds es"
proof (induction ds arbitrary: h es)
  case Nil
  then show ?case by simp
next
  case (Cons d ds)
  then obtain h1 p es1 where
    dup: "duplicate_data_value (get_action_data_type (code (default_key_action d))) h
       (parameter (default_key_action d)) = Some (h1, p)"
    and rest: "copy_key_defaults base h1 ds = Some (h', es1)"
    and es: "es = new_key base d p # es1"
    by (auto split: option.splits)
  from duplicate_heap_grows [OF dup] obtain x where x: "h1 = h @ x" ..
  from copy_key_defaults_heap_grows [OF rest] obtain y where y: "h' = h1 @ y" ..
  have "key_copied base h h' d (new_key base d p)"
    using payload_copied_duplicate [OF dup, of y]
    by (simp add: key_copied_def new_key_def key_trigger_def default_key_trigger_def y)
  moreover have "list_all2 (key_copied base h h') ds es1"
    using Cons.IH [OF rest] unfolding x
    by (rule list_all2_mono) (rule key_copied_weaken)
  ultimately show ?case by (simp add: es)
qed

text \<open>The second loop writes, from the cursor on, exactly the copies of the absent defaults.\<close>

lemma add_new_keys_char:
  assumes "unat (keyboard_number_of_keys c) \<le> n"
    and "n + length (filter (key_absent c) ds) \<le> length (keyboard_keys c)"
    and "copy_key_defaults (keyboard_modifiers c) h (filter (key_absent c) ds) = Some (h', es)"
  shows "add_new_keys ds h c n =
           Some (h', c\<lparr>keyboard_keys :=
                        take n (keyboard_keys c) @ es @ drop (n + length es) (keyboard_keys c)\<rparr>,
                 n + length es)"
  using assms
proof (induction ds arbitrary: h c n es)
  case Nil
  then show ?case by simp
next
  case (Cons d ds)
  show ?case
  proof (cases "key_absent c d")
    case False
    with Cons.prems show ?thesis
      by (simp add: add_new_keys_present Cons.IH del: add_new_keys.simps)
  next
    case True
    let ?ks = "keyboard_keys c"
    from True Cons.prems(3) obtain h1 p es1 where
      dup: "duplicate_data_value (get_action_data_type (code (default_key_action d))) h
              (parameter (default_key_action d)) = Some (h1, p)"
      and rest: "copy_key_defaults (keyboard_modifiers c) h1 (filter (key_absent c) ds) =
                   Some (h', es1)"
      and es: "es = new_key (keyboard_modifiers c) d p # es1"
      by (auto split: option.splits)
    let ?e = "new_key (keyboard_modifiers c) d p"
    let ?c1 = "c\<lparr>keyboard_keys := ?ks[n := ?e]\<rparr>"
    from True Cons.prems(2) have n: "n < length ?ks" by simp
    have tab: "key_table ?c1 = key_table c"
      using Cons.prems(1) by (rule key_table_update_beyond)
    have abs: "key_absent ?c1 = key_absent c"
      by (rule ext, rule key_absent_cong) (simp_all add: tab)
    have "add_new_keys ds h1 ?c1 (Suc n) =
            Some (h', ?c1\<lparr>keyboard_keys :=
                        take (Suc n) (keyboard_keys ?c1) @ es1 @
                        drop (Suc n + length es1) (keyboard_keys ?c1)\<rparr>,
                  Suc n + length es1)"
      using Cons.prems(1,2) True rest
      by (intro Cons.IH) (simp_all add: abs)
    moreover have "take (Suc n) (?ks[n := ?e]) = take n ?ks @ [?e]"
      using n by (simp add: take_Suc_conv_app_nth)
    moreover have "drop (Suc n + length es1) (?ks[n := ?e]) = drop (Suc n + length es1) ?ks"
      by simp
    ultimately show ?thesis
      using n es by (simp add: add_new_keys_absent [OF True n dup] del: add_new_keys.simps)
  qed
qed

text \<open>
  The merge as a whole: with sound storage it returns, and the table is the old table
  followed by the copies of the absent defaults.
\<close>

lemma merge_key_bindings_char:
  assumes cap: "unat (keyboard_number_of_keys c) \<le> length (keyboard_keys c)"
    and room: "unat (keyboard_number_of_keys c) + length ds < 2 ^ 32"
    and copy: "copy_key_defaults (keyboard_modifiers c) h (filter (key_absent c) ds) = Some (h', es)"
  shows "merge_key_bindings ds junk (h, c) = Some (h', append_keys c es)"
proof -
  let ?cnt = "keyboard_number_of_keys c"
  let ?k = "length (filter (key_absent c) ds)"
  have len: "length es = ?k"
    using copy by (rule copy_key_defaults_length)
  have k: "unat ?cnt + ?k < 2 ^ 32"
    using room length_filter_le [of "key_absent c" ds] by linarith
  have new_count: "count_new_keys c ds ?cnt = ?cnt + of_nat ?k"
    by (rule count_new_keys_eq)
  show ?thesis
  proof (cases "es = []")
    case True
    with len copy have "?k = 0" "h' = h" by auto
    with True new_count show ?thesis
      by (simp add: merge_key_bindings_def append_keys_def)
  next
    case False
    with len have "?k \<noteq> 0" by auto
    then have ne: "?cnt + of_nat ?k \<noteq> ?cnt"
      using count_plus_eq_iff [OF k] by simp
    have un: "unat (?cnt + of_nat ?k) = unat ?cnt + ?k"
      using k by (rule unat_count_plus)
    let ?c1 = "c\<lparr>keyboard_keys := RESIZE junk (keyboard_keys c) (unat ?cnt + ?k)\<rparr>"
    have tab1: "key_table ?c1 = key_table c"
      using cap by (simp add: key_table_def RESIZE_take)
    have abs1: "key_absent ?c1 = key_absent c"
      by (rule ext, rule key_absent_cong) (simp_all add: tab1)
    have "add_new_keys ds h ?c1 (unat ?cnt) =
            Some (h', ?c1\<lparr>keyboard_keys := take (unat ?cnt) (keyboard_keys ?c1) @ es @
                           drop (unat ?cnt + length es) (keyboard_keys ?c1)\<rparr>,
                  unat ?cnt + length es)"
      using copy by (intro add_new_keys_char) (simp_all add: abs1 RESIZE_length)
    moreover have "take (unat ?cnt) (keyboard_keys ?c1) = key_table c"
      using tab1 by (simp add: key_table_def)
    moreover have "drop (unat ?cnt + length es) (keyboard_keys ?c1) = []"
      by (simp add: len RESIZE_length)
    ultimately show ?thesis
      using False ne by (simp add: merge_key_bindings_def append_keys_def new_count un len)
  qed
qed

lemma merge_key_bindings_nothing_absent:
  "filter (key_absent c) ds = [] \<Longrightarrow> merge_key_bindings ds junk (h, c) = Some (h, c)"
  by (simp add: merge_key_bindings_def count_new_keys_eq)

lemma key_table_append_keys:
  assumes "unat (keyboard_number_of_keys c) \<le> length (keyboard_keys c)"
    and "unat (keyboard_number_of_keys c) + length es < 2 ^ 32"
  shows "key_table (append_keys c es) = key_table c @ es"
    and "unat (keyboard_number_of_keys (append_keys c es)) =
           unat (keyboard_number_of_keys c) + length es"
    and "unat (keyboard_number_of_keys (append_keys c es)) \<le>
           length (keyboard_keys (append_keys c es))"
  using assms by (simp_all add: append_keys_def key_table_def unat_count_plus)

lemma append_keys_frame:
  "keyboard_modifiers (append_keys c es) = keyboard_modifiers c"
  "mouse_modifiers (append_keys c es) = mouse_modifiers c"
  "mouse_buttons (append_keys c es) = mouse_buttons c"
  "mouse_number_of_buttons (append_keys c es) = mouse_number_of_buttons c"
  "button_table (append_keys c es) = button_table c"
  by (simp_all add: append_keys_def button_table_def)

lemma default_key_templates_static:
  "\<forall>d \<in> set default_key_bindings. static_payload (parameter (default_key_action d))"
  by (simp add: default_key_bindings_def)

text \<open>The result of the merge with the compiled-in defaults, for every sound table.\<close>

lemma merge_with_default_key_bindings_result:
  assumes "key_storage_ok c"
  shows "\<exists>h' es.
           copy_key_defaults (keyboard_modifiers c) h
             (filter (key_absent c) default_key_bindings) = Some (h', es) \<and>
           merge_with_default_key_bindings junk (h, c) = Some (h', append_keys c es)"
proof -
  have "\<forall>d \<in> set (filter (key_absent c) default_key_bindings).
          static_payload (parameter (default_key_action d))"
    using default_key_templates_static by simp
  then obtain h' es where
    copy: "copy_key_defaults (keyboard_modifiers c) h
             (filter (key_absent c) default_key_bindings) = Some (h', es)"
    using copy_key_defaults_total by blast
  moreover have "merge_key_bindings default_key_bindings junk (h, c) = Some (h', append_keys c es)"
    using assms copy by (intro merge_key_bindings_char) (simp_all add: key_storage_ok_def)
  ultimately show ?thesis
    by (auto simp: merge_with_default_key_bindings_def)
qed

text \<open>Bindings present before the merge are kept in place, and the lookup still finds them.\<close>

lemma key_merge_keeps_bindings:
  assumes ok: "key_storage_ok c"
  shows "\<exists>h' c'. merge_with_default_key_bindings junk (h, c) = Some (h', c') \<and>
           take (length (key_table c)) (key_table c') = key_table c \<and>
           take (length h) h' = h \<and>
           (\<forall>r s. text_of h r = Some s \<longrightarrow> text_of h' r = Some s) \<and>
           (\<forall>k \<in> set (key_table c).
              count_list (map key_trigger (key_table c')) (key_trigger k) =
                count_list (map key_trigger (key_table c)) (key_trigger k) \<and>
              find_configured_key c' (key_modifiers k) (key_symbol k) (key_flags k) =
                find_configured_key c (key_modifiers k) (key_symbol k) (key_flags k) \<and>
              find_configured_key c' (key_modifiers k) (key_symbol k) (key_flags k) \<noteq> None) \<and>
           keyboard_modifiers c' = keyboard_modifiers c \<and>
           button_table c' = button_table c \<and> mouse_modifiers c' = mouse_modifiers c"
proof -
  let ?new = "filter (key_absent c) default_key_bindings"
  from merge_with_default_key_bindings_result [OF ok] obtain h' es where
    copy: "copy_key_defaults (keyboard_modifiers c) h ?new = Some (h', es)"
    and merge: "merge_with_default_key_bindings junk (h, c) = Some (h', append_keys c es)"
    by blast
  have "length es = length ?new"
    using copy by (rule copy_key_defaults_length)
  then have "length es \<le> length default_key_bindings"
    by simp
  with ok have cap: "unat (keyboard_number_of_keys c) \<le> length (keyboard_keys c)"
    and room: "unat (keyboard_number_of_keys c) + length es < 2 ^ 32"
    by (simp_all add: key_storage_ok_def)
  have tab: "key_table (append_keys c es) = key_table c @ es"
    using cap room by (rule key_table_append_keys)
  have trig: "map key_trigger es = map (default_key_trigger (keyboard_modifiers c)) ?new"
    using copy by (rule copy_key_defaults_triggers)
  have fresh: "t \<notin> set (map key_trigger es)" if "t \<in> key_trigger ` set (key_table c)" for t
    using that unfolding trig by (auto simp: key_absent_iff) (metis imageI)
  have old: "count_list (map key_trigger (key_table (append_keys c es))) (key_trigger k) =
               count_list (map key_trigger (key_table c)) (key_trigger k) \<and>
             find_configured_key (append_keys c es) (key_modifiers k) (key_symbol k) (key_flags k) =
               find_configured_key c (key_modifiers k) (key_symbol k) (key_flags k) \<and>
             find_configured_key (append_keys c es) (key_modifiers k) (key_symbol k) (key_flags k)
               \<noteq> None"
    if k: "k \<in> set (key_table c)" for k
  proof -
    let ?P = "\<lambda>k'. key_modifiers k' = key_modifiers k \<and> key_symbol k' = key_symbol k \<and>
                    key_flags k' = key_flags k"
    from k have "find ?P (key_table c) \<noteq> None"
      by (auto simp: find_None_iff)
    then have "find ?P (key_table c @ es) = find ?P (key_table c)"
      by (rule find_append_found)
    moreover from k have "count_list (map key_trigger es) (key_trigger k) = 0"
      using fresh by (simp add: count_list_0_iff)
    ultimately show ?thesis
      using \<open>find ?P (key_table c) \<noteq> None\<close> by (simp add: tab find_configured_key_def)
  qed
  from copy_key_defaults_heap_grows [OF copy] obtain x where x: "h' = h @ x" ..
  then have heap: "take (length h) h' = h" by simp
  have bytes: "\<forall>r s. text_of h r = Some s \<longrightarrow> text_of h' r = Some s"
    unfolding x by (simp add: text_of_grows)
  show ?thesis
  proof (intro exI conjI)
    show "merge_with_default_key_bindings junk (h, c) = Some (h', append_keys c es)"
      by (rule merge)
    show "take (length (key_table c)) (key_table (append_keys c es)) = key_table c"
      by (simp add: tab)
    show "take (length h) h' = h"
      by (rule heap)
    show "\<forall>r s. text_of h r = Some s \<longrightarrow> text_of h' r = Some s"
      by (rule bytes)
    show "\<forall>k \<in> set (key_table c).
            count_list (map key_trigger (key_table (append_keys c es))) (key_trigger k) =
              count_list (map key_trigger (key_table c)) (key_trigger k) \<and>
            find_configured_key (append_keys c es) (key_modifiers k) (key_symbol k) (key_flags k) =
              find_configured_key c (key_modifiers k) (key_symbol k) (key_flags k) \<and>
            find_configured_key (append_keys c es) (key_modifiers k) (key_symbol k) (key_flags k)
              \<noteq> None"
      using old by blast
  qed (simp_all add: append_keys_frame)
qed

text \<open>After the merge every default is found, so a second merge returns at the shortcut.\<close>

lemma key_merge_idempotent:
  assumes ok: "key_storage_ok c"
  shows "\<exists>r. merge_with_default_key_bindings junk (h, c) = Some r \<and>
           count_new_keys (snd r) default_key_bindings (keyboard_number_of_keys (snd r)) =
             keyboard_number_of_keys (snd r) \<and>
           merge_with_default_key_bindings junk' r = Some r"
proof -
  let ?new = "filter (key_absent c) default_key_bindings"
  from merge_with_default_key_bindings_result [OF ok] obtain h' es where
    copy: "copy_key_defaults (keyboard_modifiers c) h ?new = Some (h', es)"
    and merge: "merge_with_default_key_bindings junk (h, c) = Some (h', append_keys c es)"
    by blast
  let ?c' = "append_keys c es"
  have "length es = length ?new"
    using copy by (rule copy_key_defaults_length)
  then have "length es \<le> length default_key_bindings"
    by simp
  with ok have cap: "unat (keyboard_number_of_keys c) \<le> length (keyboard_keys c)"
    and room: "unat (keyboard_number_of_keys c) + length es < 2 ^ 32"
    by (simp_all add: key_storage_ok_def)
  have tab: "key_table ?c' = key_table c @ es"
    using cap room by (rule key_table_append_keys)
  have trig: "map key_trigger es = map (default_key_trigger (keyboard_modifiers c)) ?new"
    using copy by (rule copy_key_defaults_triggers)
  have "\<not> key_absent ?c' d" if "d \<in> set default_key_bindings" for d
  proof (cases "key_absent c d")
    case True
    with that have "default_key_trigger (keyboard_modifiers c) d \<in> set (map key_trigger es)"
      unfolding trig by simp
    then show ?thesis
      by (auto simp: key_absent_iff tab append_keys_frame)
  next
    case False
    then show ?thesis
      by (auto simp: key_absent_iff tab append_keys_frame)
  qed
  then have none: "filter (key_absent ?c') default_key_bindings = []"
    by (simp add: filter_empty_conv)
  then have "merge_with_default_key_bindings junk' (h', ?c') = Some (h', ?c')"
    unfolding merge_with_default_key_bindings_def by (rule merge_key_bindings_nothing_absent)
  moreover have "count_new_keys ?c' default_key_bindings (keyboard_number_of_keys ?c') =
                   keyboard_number_of_keys ?c'"
    by (simp add: count_new_keys_eq none)
  ultimately show ?thesis
    using merge by simp
qed

text \<open>
  The absent defaults are appended after the old bindings, in declaration order, one
  binding for each; the count grows by their number.
\<close>

lemma key_merge_appends_absent:
  assumes ok: "key_storage_ok c"
  shows "\<exists>h' c'. merge_with_default_key_bindings junk (h, c) = Some (h', c') \<and>
           unat (keyboard_number_of_keys c') =
             unat (keyboard_number_of_keys c) + length (filter (key_absent c) default_key_bindings) \<and>
           length (key_table c') =
             length (key_table c) + length (filter (key_absent c) default_key_bindings) \<and>
           take (length (key_table c)) (key_table c') = key_table c \<and>
           list_all2 (key_copied (keyboard_modifiers c) h h')
             (filter (key_absent c) default_key_bindings)
             (drop (length (key_table c)) (key_table c')) \<and>
           (\<forall>d \<in> set default_key_bindings. key_absent c d \<longrightarrow>
              count_list (map key_trigger (key_table c'))
                (default_key_trigger (keyboard_modifiers c) d) =
              count_list (map (default_key_trigger (keyboard_modifiers c)) default_key_bindings)
                (default_key_trigger (keyboard_modifiers c) d))"
proof -
  let ?new = "filter (key_absent c) default_key_bindings"
  let ?eff = "default_key_trigger (keyboard_modifiers c)"
  from merge_with_default_key_bindings_result [OF ok] obtain h' es where
    copy: "copy_key_defaults (keyboard_modifiers c) h ?new = Some (h', es)"
    and merge: "merge_with_default_key_bindings junk (h, c) = Some (h', append_keys c es)"
    by blast
  have len: "length es = length ?new"
    using copy by (rule copy_key_defaults_length)
  then have "length es \<le> length default_key_bindings"
    by simp
  with ok have cap: "unat (keyboard_number_of_keys c) \<le> length (keyboard_keys c)"
    and room: "unat (keyboard_number_of_keys c) + length es < 2 ^ 32"
    by (simp_all add: key_storage_ok_def)
  note app = key_table_append_keys [OF cap room]
  have trig: "map key_trigger es = map ?eff ?new"
    using copy by (rule copy_key_defaults_triggers)
  have copied: "list_all2 (key_copied (keyboard_modifiers c) h h') ?new es"
    using copy by (rule copy_key_defaults_copied)
  have cnt: "count_list (map key_trigger (key_table c @ es)) (?eff d) =
               count_list (map ?eff default_key_bindings) (?eff d)"
    if "key_absent c d" for d
  proof -
    from that have "count_list (map key_trigger (key_table c)) (?eff d) = 0"
      by (simp add: key_absent_iff)
    moreover have "count_list (map ?eff ?new) (?eff d) =
                     count_list (map ?eff default_key_bindings) (?eff d)"
      using that by (intro count_list_filter_map) (auto simp: key_absent_iff)
    ultimately show ?thesis
      by (simp add: trig)
  qed
  show ?thesis
    using merge copied cnt by (simp add: app len)
qed

text \<open>
  On a table without repeated triggers, the merged table has none exactly when the
  effective triggers of the absent defaults are distinct.
\<close>

lemma key_merge_distinct_iff:
  assumes ok: "key_storage_ok c"
    and dist: "distinct (map key_trigger (key_table c))"
  shows "\<exists>h' c'. merge_with_default_key_bindings junk (h, c) = Some (h', c') \<and>
           (distinct (map key_trigger (key_table c')) \<longleftrightarrow>
            distinct (map (default_key_trigger (keyboard_modifiers c))
                       (filter (key_absent c) default_key_bindings)))"
proof -
  let ?new = "filter (key_absent c) default_key_bindings"
  let ?eff = "default_key_trigger (keyboard_modifiers c)"
  from merge_with_default_key_bindings_result [OF ok] obtain h' es where
    copy: "copy_key_defaults (keyboard_modifiers c) h ?new = Some (h', es)"
    and merge: "merge_with_default_key_bindings junk (h, c) = Some (h', append_keys c es)"
    by blast
  have "length es = length ?new"
    using copy by (rule copy_key_defaults_length)
  then have "length es \<le> length default_key_bindings"
    by simp
  with ok have cap: "unat (keyboard_number_of_keys c) \<le> length (keyboard_keys c)"
    and room: "unat (keyboard_number_of_keys c) + length es < 2 ^ 32"
    by (simp_all add: key_storage_ok_def)
  have tab: "key_table (append_keys c es) = key_table c @ es"
    using cap room by (rule key_table_append_keys)
  have trig: "map key_trigger es = map ?eff ?new"
    using copy by (rule copy_key_defaults_triggers)
  have "set (map key_trigger (key_table c)) \<inter> set (map ?eff ?new) = {}"
    by (auto simp: key_absent_iff)
  then have "distinct (map key_trigger (key_table c @ es)) \<longleftrightarrow> distinct (map ?eff ?new)"
    using dist by (simp add: trig)
  with merge tab show ?thesis
    by simp
qed

text \<open>
  Two defaults with the same effective trigger, absent from the table, are both appended:
  the lookup of the second does not see the binding just written for the first.
\<close>

lemma key_merge_appends_colliding_defaults:
  assumes cap: "unat (keyboard_number_of_keys c) \<le> length (keyboard_keys c)"
    and room: "unat (keyboard_number_of_keys c) + length ds < 2 ^ 32"
    and static: "\<forall>d \<in> set ds. static_payload (parameter (default_key_action d))"
    and ij: "i < j" "j < length ds"
    and same: "default_key_trigger (keyboard_modifiers c) (ds ! i) =
               default_key_trigger (keyboard_modifiers c) (ds ! j)"
    and absent: "key_absent c (ds ! i)"
  shows "\<exists>h' c' m n. merge_key_bindings ds junk (h, c) = Some (h', c') \<and>
           length (key_table c) \<le> m \<and> m < n \<and> n < length (key_table c') \<and>
           key_copied (keyboard_modifiers c) h h' (ds ! i) (key_table c' ! m) \<and>
           key_copied (keyboard_modifiers c) h h' (ds ! j) (key_table c' ! n) \<and>
           key_trigger (key_table c' ! m) = key_trigger (key_table c' ! n)"
proof -
  let ?P = "key_absent c"
  let ?new = "filter ?P ds"
  let ?m = "length (filter ?P (take i ds))"
  let ?n = "length (filter ?P (take j ds))"
  let ?old = "length (key_table c)"
  have "\<forall>d \<in> set ?new. static_payload (parameter (default_key_action d))"
    using static by simp
  then obtain h' es where
    copy: "copy_key_defaults (keyboard_modifiers c) h ?new = Some (h', es)"
    using copy_key_defaults_total by blast
  have merge: "merge_key_bindings ds junk (h, c) = Some (h', append_keys c es)"
    using cap room copy by (rule merge_key_bindings_char)
  have len: "length es = length ?new"
    using copy by (rule copy_key_defaults_length)
  then have "unat (keyboard_number_of_keys c) + length es < 2 ^ 32"
    using room length_filter_le [of ?P ds] by linarith
  with cap have tab: "key_table (append_keys c es) = key_table c @ es"
    by (rule key_table_append_keys)
  have copied: "list_all2 (key_copied (keyboard_modifiers c) h h') ?new es"
    using copy by (rule copy_key_defaults_copied)
  have Pj: "?P (ds ! j)"
    using absent same by (simp add: key_absent_iff)
  have i: "i < length ds" using ij by simp
  have m: "?m < length ?new" "?new ! ?m = ds ! i"
    using filter_position [of i ds ?P, OF i absent] by simp_all
  have n: "?n < length ?new" "?new ! ?n = ds ! j"
    using filter_position [of j ds ?P, OF ij(2) Pj] by simp_all
  have mn: "?m < ?n"
    using ij absent by (intro filter_position_mono) simp_all
  have cm: "key_copied (keyboard_modifiers c) h h' (ds ! i) (es ! ?m)"
    using list_all2_nthD [OF copied m(1)] m(2) by simp
  have cn: "key_copied (keyboard_modifiers c) h h' (ds ! j) (es ! ?n)"
    using list_all2_nthD [OF copied n(1)] n(2) by simp
  have "key_trigger (es ! ?m) = key_trigger (es ! ?n)"
    using cm cn same by (simp add: key_copied_def)
  then have "merge_key_bindings ds junk (h, c) = Some (h', append_keys c es) \<and>
        ?old \<le> ?old + ?m \<and> ?old + ?m < ?old + ?n \<and>
        ?old + ?n < length (key_table (append_keys c es)) \<and>
        key_copied (keyboard_modifiers c) h h' (ds ! i) (key_table (append_keys c es) ! (?old + ?m)) \<and>
        key_copied (keyboard_modifiers c) h h' (ds ! j) (key_table (append_keys c es) ! (?old + ?n)) \<and>
        key_trigger (key_table (append_keys c es) ! (?old + ?m)) =
          key_trigger (key_table (append_keys c es) ! (?old + ?n))"
    using merge mn n(1) cm cn by (simp add: tab len)
  then show ?thesis by blast
qed

subsection \<open>The compiled-in key defaults\<close>

text \<open>
  The declared triggers of the key defaults are pairwise distinct, and their modifiers are
  Shift, Control, both or none. So the effective triggers are distinct under every base
  modifier that has neither the Shift nor the Control bit.
\<close>

lemma default_key_declared_distinct:
  "distinct (map (\<lambda>d. (default_key_modifiers d, default_key_symbol d, default_key_flags d))
     default_key_bindings)"
  by (simp add: default_key_bindings_def)

lemma default_key_modifiers_mask:
  "\<forall>d \<in> set default_key_bindings. default_key_modifiers d AND 5 = default_key_modifiers d"
  by (simp add: default_key_bindings_def)

lemma or_base_and_mask:
  fixes m base :: "16 word"
  assumes "m AND 5 = m" and "base AND 5 = 0"
  shows "(m OR base) AND 5 = m"
  using assms by (simp add: bit.conj_disj_distrib2)

lemma default_key_triggers_distinct:
  assumes "base AND 5 = 0"
  shows "distinct (map (default_key_trigger base) default_key_bindings)"
proof -
  let ?raw = "\<lambda>d. (default_key_modifiers d, default_key_symbol d, default_key_flags d)"
  have "inj_on (default_key_trigger base) (set default_key_bindings) \<and> distinct default_key_bindings"
  proof
    show "inj_on (default_key_trigger base) (set default_key_bindings)"
    proof (rule inj_onI)
      fix d e
      assume d: "d \<in> set default_key_bindings" and e: "e \<in> set default_key_bindings"
        and eq: "default_key_trigger base d = default_key_trigger base e"
      from eq have "(default_key_modifiers d OR base) AND 5 = (default_key_modifiers e OR base) AND 5"
        by (simp add: default_key_trigger_def)
      then have "default_key_modifiers d = default_key_modifiers e"
        using d e default_key_modifiers_mask assms by (simp add: or_base_and_mask)
      with eq have "?raw d = ?raw e"
        by (simp add: default_key_trigger_def)
      with d e show "d = e"
        using default_key_declared_distinct by (simp add: distinct_map inj_on_def)
    qed
    show "distinct default_key_bindings"
      using default_key_declared_distinct by (simp add: distinct_map)
  qed
  then show ?thesis by (simp add: distinct_map)
qed

lemma key_merge_complete:
  assumes ok: "key_storage_ok c"
  shows "\<exists>h' c'. merge_with_default_key_bindings junk (h, c) = Some (h', c') \<and>
           unat (keyboard_number_of_keys c') =
             unat (keyboard_number_of_keys c) + length (filter (key_absent c) default_key_bindings) \<and>
           length (key_table c') =
             length (key_table c) + length (filter (key_absent c) default_key_bindings) \<and>
           take (length (key_table c)) (key_table c') = key_table c \<and>
           list_all2 (key_copied (keyboard_modifiers c) h h')
             (filter (key_absent c) default_key_bindings)
             (drop (length (key_table c)) (key_table c')) \<and>
           (\<forall>d \<in> set default_key_bindings. key_absent c d \<longrightarrow>
              count_list (map key_trigger (key_table c'))
                (default_key_trigger (keyboard_modifiers c) d) =
              count_list (map (default_key_trigger (keyboard_modifiers c)) default_key_bindings)
                (default_key_trigger (keyboard_modifiers c) d)) \<and>
           (keyboard_modifiers c AND (XCB_MOD_MASK_SHIFT OR XCB_MOD_MASK_CONTROL) = 0 \<longrightarrow>
              (\<forall>d \<in> set default_key_bindings. key_absent c d \<longrightarrow>
                 count_list (map key_trigger (key_table c'))
                   (default_key_trigger (keyboard_modifiers c) d) = 1))"
proof -
  let ?eff = "default_key_trigger (keyboard_modifiers c)"
  from key_merge_appends_absent [OF ok, of junk h] obtain h' c' where
    r: "merge_with_default_key_bindings junk (h, c) = Some (h', c')"
       "unat (keyboard_number_of_keys c') =
          unat (keyboard_number_of_keys c) + length (filter (key_absent c) default_key_bindings)"
       "length (key_table c') =
          length (key_table c) + length (filter (key_absent c) default_key_bindings)"
       "take (length (key_table c)) (key_table c') = key_table c"
       "list_all2 (key_copied (keyboard_modifiers c) h h')
          (filter (key_absent c) default_key_bindings)
          (drop (length (key_table c)) (key_table c'))"
    and cnt: "\<forall>d \<in> set default_key_bindings. key_absent c d \<longrightarrow>
          count_list (map key_trigger (key_table c')) (?eff d) =
          count_list (map ?eff default_key_bindings) (?eff d)"
    by blast
  have one: "count_list (map key_trigger (key_table c')) (?eff d) = 1"
    if "keyboard_modifiers c AND 5 = 0" and "d \<in> set default_key_bindings" and "key_absent c d"
    for d
  proof -
    have "distinct (map ?eff default_key_bindings)"
      using that(1) by (rule default_key_triggers_distinct)
    then have "count_list (map ?eff default_key_bindings) (?eff d) = 1"
      using that(2) by (intro count_list_distinct) simp_all
    with cnt that(2,3) show ?thesis by simp
  qed
  show ?thesis
  proof (intro exI conjI)
    show "keyboard_modifiers c AND (XCB_MOD_MASK_SHIFT OR XCB_MOD_MASK_CONTROL) = 0 \<longrightarrow>
            (\<forall>d \<in> set default_key_bindings. key_absent c d \<longrightarrow>
               count_list (map key_trigger (key_table c')) (?eff d) = 1)"
      using one by simp
  qed (fact r cnt)+
qed

lemma key_merge_distinct:
  assumes ok: "key_storage_ok c"
    and dist: "distinct (map key_trigger (key_table c))"
  shows "keyboard_modifiers c AND (XCB_MOD_MASK_SHIFT OR XCB_MOD_MASK_CONTROL) = 0 \<longrightarrow>
           (\<exists>h' c'. merge_with_default_key_bindings junk (h, c) = Some (h', c') \<and>
              distinct (map key_trigger (key_table c')))"
proof
  assume "keyboard_modifiers c AND (XCB_MOD_MASK_SHIFT OR XCB_MOD_MASK_CONTROL) = 0"
  then have "distinct (map (default_key_trigger (keyboard_modifiers c)) default_key_bindings)"
    by (intro default_key_triggers_distinct) simp
  then have "distinct (map (default_key_trigger (keyboard_modifiers c))
                        (filter (key_absent c) default_key_bindings))"
    by (rule distinct_map_filter)
  with key_merge_distinct_iff [OF ok dist, of junk h]
  show "\<exists>h' c'. merge_with_default_key_bindings junk (h, c) = Some (h', c') \<and>
          distinct (map key_trigger (key_table c'))"
    by blast
qed

text \<open>
  With Shift in the base modifier the defaults Shift+r (reload) and r (remove frame) have
  the same effective trigger; when it is absent from the table both are appended.
\<close>

lemma or_shift_absorbed:
  fixes base :: "16 word"
  assumes "base AND 1 = 1"
  shows "1 OR base = base"
proof -
  have "(base AND 1) OR base = base"
    by (simp add: word_bw_comms word_ao_absorbs)
  with assms show ?thesis by simp
qed

lemma key_merge_shift_collision:
  assumes ok: "key_storage_ok c"
    and shift: "keyboard_modifiers c AND XCB_MOD_MASK_SHIFT = XCB_MOD_MASK_SHIFT"
    and absent: "key_absent c (default_key_bindings ! 0)"
  shows "\<exists>h' c' m n. merge_with_default_key_bindings junk (h, c) = Some (h', c') \<and>
           length (key_table c) \<le> m \<and> m < n \<and> n < length (key_table c') \<and>
           key_copied (keyboard_modifiers c) h h' (default_key_bindings ! 0) (key_table c' ! m) \<and>
           key_copied (keyboard_modifiers c) h h' (default_key_bindings ! 8) (key_table c' ! n) \<and>
           key_trigger (key_table c' ! m) = key_trigger (key_table c' ! n)"
proof -
  have same: "default_key_trigger (keyboard_modifiers c) (default_key_bindings ! 0) =
              default_key_trigger (keyboard_modifiers c) (default_key_bindings ! 8)"
    using or_shift_absorbed [OF shift]
    by (simp add: default_key_trigger_def default_key_bindings_def)
  have len: "(8::nat) < length default_key_bindings"
    by (simp add: default_key_bindings_def)
  show ?thesis
    unfolding merge_with_default_key_bindings_def
    using ok default_key_templates_static _ len same absent
    by (intro key_merge_appends_colliding_defaults) (simp_all add: key_storage_ok_def)
qed

subsection \<open>The button merge\<close>

lemma button_absent_iff:
  "button_absent c d \<longleftrightarrow>
   default_button_trigger (mouse_modifiers c) d \<notin> button_trigger ` set (button_table c)"
  by (force simp: button_absent_def find_configured_button_def find_None_iff button_trigger_def
      default_button_trigger_def)

lemma button_absent_cong:
  "button_table c' = button_table c \<Longrightarrow> mouse_modifiers c' = mouse_modifiers c \<Longrightarrow>
   button_absent c' d = button_absent c d"
  by (simp add: button_absent_iff)

lemma count_new_buttons_eq:
  "count_new_buttons c ds n = n + of_nat (length (filter (button_absent c) ds))"
  by (induction ds arbitrary: n) (simp_all add: button_absent_def Let_def)

text \<open>A write at or beyond the stored count is invisible to the lookup.\<close>

lemma button_table_update_beyond:
  "unat (mouse_number_of_buttons c) \<le> n \<Longrightarrow>
   button_table (c\<lparr>mouse_buttons := (mouse_buttons c)[n := e]\<rparr>) = button_table c"
  by (simp add: button_table_def)

lemma find_configured_button_update_beyond:
  "unat (mouse_number_of_buttons c) \<le> n \<Longrightarrow>
   find_configured_button (c\<lparr>mouse_buttons := (mouse_buttons c)[n := e]\<rparr>) m s f =
   find_configured_button c m s f"
  by (simp add: find_configured_button_def button_table_update_beyond)

lemma add_new_buttons_present:
  "\<not> button_absent c d \<Longrightarrow> add_new_buttons (d # ds) h c n = add_new_buttons ds h c n"
  by (simp add: button_absent_def Let_def)

lemma add_new_buttons_absent:
  "button_absent c d \<Longrightarrow> n < length (mouse_buttons c) \<Longrightarrow>
   duplicate_data_value (get_action_data_type (code (default_button_action d))) h
     (parameter (default_button_action d)) = Some (h1, p) \<Longrightarrow>
   add_new_buttons (d # ds) h c n =
     add_new_buttons ds h1
       (c\<lparr>mouse_buttons := (mouse_buttons c)[n := new_button (mouse_modifiers c) d p]\<rparr>) (Suc n)"
  by (simp add: button_absent_def Let_def new_button_def)

text \<open>The second loop leaves the stored count and the visible table as they were.\<close>

lemma add_new_buttons_table:
  "add_new_buttons ds h c n = Some (h', c', n') \<Longrightarrow> unat (mouse_number_of_buttons c) \<le> n \<Longrightarrow>
   mouse_number_of_buttons c' = mouse_number_of_buttons c \<and> button_table c' = button_table c \<and>
   mouse_modifiers c' = mouse_modifiers c"
proof (induction ds arbitrary: h c n)
  case Nil
  then show ?case by simp
next
  case (Cons d ds)
  show ?case
  proof (cases "button_absent c d")
    case False
    with Cons.prems Cons.IH [of h c n] show ?thesis
      by (simp add: add_new_buttons_present del: add_new_buttons.simps)
  next
    case True
    with Cons.prems(1) obtain h1 p where
      n: "n < length (mouse_buttons c)"
      and dup: "duplicate_data_value (get_action_data_type (code (default_button_action d))) h
                 (parameter (default_button_action d)) = Some (h1, p)"
      by (auto simp: button_absent_def Let_def split: if_splits option.splits)
    let ?c1 = "c\<lparr>mouse_buttons := (mouse_buttons c)[n := new_button (mouse_modifiers c) d p]\<rparr>"
    have step: "add_new_buttons ds h1 ?c1 (Suc n) = Some (h', c', n')"
      using Cons.prems(1) by (simp add: add_new_buttons_absent [OF True n dup] del: add_new_buttons.simps)
    have "unat (mouse_number_of_buttons ?c1) \<le> Suc n"
      using Cons.prems(2) by simp
    with step have "mouse_number_of_buttons c' = mouse_number_of_buttons ?c1 \<and>
               button_table c' = button_table ?c1 \<and> mouse_modifiers c' = mouse_modifiers ?c1"
      by (rule Cons.IH)
    then show ?thesis
      using Cons.prems(2) by (simp add: button_table_update_beyond)
  qed
qed

lemma copy_button_defaults_length:
  "copy_button_defaults base h ds = Some (h', es) \<Longrightarrow> length es = length ds"
  by (induction ds arbitrary: h es) (auto split: option.splits)

lemma copy_button_defaults_total:
  "\<forall>d \<in> set ds. static_payload (parameter (default_button_action d)) \<Longrightarrow>
   \<exists>h' es. copy_button_defaults base h ds = Some (h', es)"
proof (induction ds arbitrary: h)
  case Nil
  then show ?case by simp
next
  case (Cons d ds)
  then obtain h1 p where
    "duplicate_data_value (get_action_data_type (code (default_button_action d))) h
       (parameter (default_button_action d)) = Some (h1, p)"
    using duplicate_static_total by (metis list.set_intros(1))
  moreover from Cons obtain h' es where "copy_button_defaults base h1 ds = Some (h', es)"
    by (metis list.set_intros(2))
  ultimately show ?case by simp
qed

lemma copy_button_defaults_heap_grows:
  "copy_button_defaults base h ds = Some (h', es) \<Longrightarrow> \<exists>x. h' = h @ x"
proof (induction ds arbitrary: h es)
  case Nil
  then show ?case by simp
next
  case (Cons d ds)
  then obtain h1 p es1 where
    dup: "duplicate_data_value (get_action_data_type (code (default_button_action d))) h
       (parameter (default_button_action d)) = Some (h1, p)"
    and rest: "copy_button_defaults base h1 ds = Some (h', es1)"
    by (auto split: option.splits)
  from duplicate_heap_grows [OF dup] obtain x where "h1 = h @ x" ..
  moreover from Cons.IH [OF rest] obtain y where "h' = h1 @ y" ..
  ultimately show ?case by simp
qed

lemma copy_button_defaults_triggers:
  "copy_button_defaults base h ds = Some (h', es) \<Longrightarrow>
   map button_trigger es = map (default_button_trigger base) ds"
  by (induction ds arbitrary: h es)
     (auto simp: button_trigger_def default_button_trigger_def new_button_def split: option.splits)

lemma button_copied_weaken:
  "button_copied base (h @ x) h' d k \<Longrightarrow> button_copied base h h' d k"
  by (auto simp: button_copied_def payload_copied_weaken split: list.splits)

lemma copy_button_defaults_copied:
  "copy_button_defaults base h ds = Some (h', es) \<Longrightarrow> list_all2 (button_copied base h h') ds es"
proof (induction ds arbitrary: h es)
  case Nil
  then show ?case by simp
next
  case (Cons d ds)
  then obtain h1 p es1 where
    dup: "duplicate_data_value (get_action_data_type (code (default_button_action d))) h
       (parameter (default_button_action d)) = Some (h1, p)"
    and rest: "copy_button_defaults base h1 ds = Some (h', es1)"
    and es: "es = new_button base d p # es1"
    by (auto split: option.splits)
  from duplicate_heap_grows [OF dup] obtain x where x: "h1 = h @ x" ..
  from copy_button_defaults_heap_grows [OF rest] obtain y where y: "h' = h1 @ y" ..
  have "button_copied base h h' d (new_button base d p)"
    using payload_copied_duplicate [OF dup, of y]
    by (simp add: button_copied_def new_button_def button_trigger_def default_button_trigger_def y)
  moreover have "list_all2 (button_copied base h h') ds es1"
    using Cons.IH [OF rest] unfolding x
    by (rule list_all2_mono) (rule button_copied_weaken)
  ultimately show ?case by (simp add: es)
qed

text \<open>The second loop writes, from the cursor on, exactly the copies of the absent defaults.\<close>

lemma add_new_buttons_char:
  assumes "unat (mouse_number_of_buttons c) \<le> n"
    and "n + length (filter (button_absent c) ds) \<le> length (mouse_buttons c)"
    and "copy_button_defaults (mouse_modifiers c) h (filter (button_absent c) ds) = Some (h', es)"
  shows "add_new_buttons ds h c n =
           Some (h', c\<lparr>mouse_buttons :=
                        take n (mouse_buttons c) @ es @ drop (n + length es) (mouse_buttons c)\<rparr>,
                 n + length es)"
  using assms
proof (induction ds arbitrary: h c n es)
  case Nil
  then show ?case by simp
next
  case (Cons d ds)
  show ?case
  proof (cases "button_absent c d")
    case False
    with Cons.prems show ?thesis
      by (simp add: add_new_buttons_present Cons.IH del: add_new_buttons.simps)
  next
    case True
    let ?ks = "mouse_buttons c"
    from True Cons.prems(3) obtain h1 p es1 where
      dup: "duplicate_data_value (get_action_data_type (code (default_button_action d))) h
              (parameter (default_button_action d)) = Some (h1, p)"
      and rest: "copy_button_defaults (mouse_modifiers c) h1 (filter (button_absent c) ds) =
                   Some (h', es1)"
      and es: "es = new_button (mouse_modifiers c) d p # es1"
      by (auto split: option.splits)
    let ?e = "new_button (mouse_modifiers c) d p"
    let ?c1 = "c\<lparr>mouse_buttons := ?ks[n := ?e]\<rparr>"
    from True Cons.prems(2) have n: "n < length ?ks" by simp
    have tab: "button_table ?c1 = button_table c"
      using Cons.prems(1) by (rule button_table_update_beyond)
    have abs: "button_absent ?c1 = button_absent c"
      by (rule ext, rule button_absent_cong) (simp_all add: tab)
    have "add_new_buttons ds h1 ?c1 (Suc n) =
            Some (h', ?c1\<lparr>mouse_buttons :=
                        take (Suc n) (mouse_buttons ?c1) @ es1 @
                        drop (Suc n + length es1) (mouse_buttons ?c1)\<rparr>,
                  Suc n + length es1)"
      using Cons.prems(1,2) True rest
      by (intro Cons.IH) (simp_all add: abs)
    moreover have "take (Suc n) (?ks[n := ?e]) = take n ?ks @ [?e]"
      using n by (simp add: take_Suc_conv_app_nth)
    moreover have "drop (Suc n + length es1) (?ks[n := ?e]) = drop (Suc n + length es1) ?ks"
      by simp
    ultimately show ?thesis
      using n es by (simp add: add_new_buttons_absent [OF True n dup] del: add_new_buttons.simps)
  qed
qed

text \<open>
  The merge as a whole: with sound storage it returns, and the table is the old table
  followed by the copies of the absent defaults.
\<close>

lemma merge_button_bindings_char:
  assumes cap: "unat (mouse_number_of_buttons c) \<le> length (mouse_buttons c)"
    and room: "unat (mouse_number_of_buttons c) + length ds < 2 ^ 32"
    and copy: "copy_button_defaults (mouse_modifiers c) h (filter (button_absent c) ds) = Some (h', es)"
  shows "merge_button_bindings ds junk (h, c) = Some (h', append_buttons c es)"
proof -
  let ?cnt = "mouse_number_of_buttons c"
  let ?k = "length (filter (button_absent c) ds)"
  have len: "length es = ?k"
    using copy by (rule copy_button_defaults_length)
  have k: "unat ?cnt + ?k < 2 ^ 32"
    using room length_filter_le [of "button_absent c" ds] by linarith
  have new_count: "count_new_buttons c ds ?cnt = ?cnt + of_nat ?k"
    by (rule count_new_buttons_eq)
  show ?thesis
  proof (cases "es = []")
    case True
    with len copy have "?k = 0" "h' = h" by auto
    with True new_count show ?thesis
      by (simp add: merge_button_bindings_def append_buttons_def)
  next
    case False
    with len have "?k \<noteq> 0" by auto
    then have ne: "?cnt + of_nat ?k \<noteq> ?cnt"
      using count_plus_eq_iff [OF k] by simp
    have un: "unat (?cnt + of_nat ?k) = unat ?cnt + ?k"
      using k by (rule unat_count_plus)
    let ?c1 = "c\<lparr>mouse_buttons := RESIZE junk (mouse_buttons c) (unat ?cnt + ?k)\<rparr>"
    have tab1: "button_table ?c1 = button_table c"
      using cap by (simp add: button_table_def RESIZE_take)
    have abs1: "button_absent ?c1 = button_absent c"
      by (rule ext, rule button_absent_cong) (simp_all add: tab1)
    have "add_new_buttons ds h ?c1 (unat ?cnt) =
            Some (h', ?c1\<lparr>mouse_buttons := take (unat ?cnt) (mouse_buttons ?c1) @ es @
                           drop (unat ?cnt + length es) (mouse_buttons ?c1)\<rparr>,
                  unat ?cnt + length es)"
      using copy by (intro add_new_buttons_char) (simp_all add: abs1 RESIZE_length)
    moreover have "take (unat ?cnt) (mouse_buttons ?c1) = button_table c"
      using tab1 by (simp add: button_table_def)
    moreover have "drop (unat ?cnt + length es) (mouse_buttons ?c1) = []"
      by (simp add: len RESIZE_length)
    ultimately show ?thesis
      using False ne by (simp add: merge_button_bindings_def append_buttons_def new_count un len)
  qed
qed

lemma merge_button_bindings_nothing_absent:
  "filter (button_absent c) ds = [] \<Longrightarrow> merge_button_bindings ds junk (h, c) = Some (h, c)"
  by (simp add: merge_button_bindings_def count_new_buttons_eq)

lemma button_table_append_buttons:
  assumes "unat (mouse_number_of_buttons c) \<le> length (mouse_buttons c)"
    and "unat (mouse_number_of_buttons c) + length es < 2 ^ 32"
  shows "button_table (append_buttons c es) = button_table c @ es"
    and "unat (mouse_number_of_buttons (append_buttons c es)) =
           unat (mouse_number_of_buttons c) + length es"
    and "unat (mouse_number_of_buttons (append_buttons c es)) \<le>
           length (mouse_buttons (append_buttons c es))"
  using assms by (simp_all add: append_buttons_def button_table_def unat_count_plus)

lemma append_buttons_frame:
  "mouse_modifiers (append_buttons c es) = mouse_modifiers c"
  "keyboard_modifiers (append_buttons c es) = keyboard_modifiers c"
  "keyboard_keys (append_buttons c es) = keyboard_keys c"
  "keyboard_number_of_keys (append_buttons c es) = keyboard_number_of_keys c"
  "key_table (append_buttons c es) = key_table c"
  by (simp_all add: append_buttons_def key_table_def)

lemma default_button_templates_static:
  "\<forall>d \<in> set default_button_bindings. static_payload (parameter (default_button_action d))"
  by (simp add: default_button_bindings_def)

text \<open>The result of the merge with the compiled-in defaults, for every sound table.\<close>

lemma merge_with_default_button_bindings_result:
  assumes "button_storage_ok c"
  shows "\<exists>h' es.
           copy_button_defaults (mouse_modifiers c) h
             (filter (button_absent c) default_button_bindings) = Some (h', es) \<and>
           merge_with_default_button_bindings junk (h, c) = Some (h', append_buttons c es)"
proof -
  have "\<forall>d \<in> set (filter (button_absent c) default_button_bindings).
          static_payload (parameter (default_button_action d))"
    using default_button_templates_static by simp
  then obtain h' es where
    copy: "copy_button_defaults (mouse_modifiers c) h
             (filter (button_absent c) default_button_bindings) = Some (h', es)"
    using copy_button_defaults_total by blast
  moreover have "merge_button_bindings default_button_bindings junk (h, c) = Some (h', append_buttons c es)"
    using assms copy by (intro merge_button_bindings_char) (simp_all add: button_storage_ok_def)
  ultimately show ?thesis
    by (auto simp: merge_with_default_button_bindings_def)
qed

text \<open>Bindings present before the merge are kept in place, and the lookup still finds them.\<close>

lemma button_merge_keeps_bindings:
  assumes ok: "button_storage_ok c"
  shows "\<exists>h' c'. merge_with_default_button_bindings junk (h, c) = Some (h', c') \<and>
           take (length (button_table c)) (button_table c') = button_table c \<and>
           take (length h) h' = h \<and>
           (\<forall>r s. text_of h r = Some s \<longrightarrow> text_of h' r = Some s) \<and>
           (\<forall>k \<in> set (button_table c).
              count_list (map button_trigger (button_table c')) (button_trigger k) =
                count_list (map button_trigger (button_table c)) (button_trigger k) \<and>
              find_configured_button c' (button_modifiers k) (button_index k) (button_flags k) =
                find_configured_button c (button_modifiers k) (button_index k) (button_flags k) \<and>
              find_configured_button c' (button_modifiers k) (button_index k) (button_flags k) \<noteq> None) \<and>
           mouse_modifiers c' = mouse_modifiers c \<and>
           key_table c' = key_table c \<and> keyboard_modifiers c' = keyboard_modifiers c"
proof -
  let ?new = "filter (button_absent c) default_button_bindings"
  from merge_with_default_button_bindings_result [OF ok] obtain h' es where
    copy: "copy_button_defaults (mouse_modifiers c) h ?new = Some (h', es)"
    and merge: "merge_with_default_button_bindings junk (h, c) = Some (h', append_buttons c es)"
    by blast
  have "length es = length ?new"
    using copy by (rule copy_button_defaults_length)
  then have "length es \<le> length default_button_bindings"
    by simp
  with ok have cap: "unat (mouse_number_of_buttons c) \<le> length (mouse_buttons c)"
    and room: "unat (mouse_number_of_buttons c) + length es < 2 ^ 32"
    by (simp_all add: button_storage_ok_def)
  have tab: "button_table (append_buttons c es) = button_table c @ es"
    using cap room by (rule button_table_append_buttons)
  have trig: "map button_trigger es = map (default_button_trigger (mouse_modifiers c)) ?new"
    using copy by (rule copy_button_defaults_triggers)
  have fresh: "t \<notin> set (map button_trigger es)" if "t \<in> button_trigger ` set (button_table c)" for t
    using that unfolding trig by (auto simp: button_absent_iff) (metis imageI)
  have old: "count_list (map button_trigger (button_table (append_buttons c es))) (button_trigger k) =
               count_list (map button_trigger (button_table c)) (button_trigger k) \<and>
             find_configured_button (append_buttons c es) (button_modifiers k) (button_index k) (button_flags k) =
               find_configured_button c (button_modifiers k) (button_index k) (button_flags k) \<and>
             find_configured_button (append_buttons c es) (button_modifiers k) (button_index k) (button_flags k)
               \<noteq> None"
    if k: "k \<in> set (button_table c)" for k
  proof -
    let ?P = "\<lambda>k'. button_modifiers k' = button_modifiers k \<and> button_index k' = button_index k \<and>
                    button_flags k' = button_flags k"
    from k have "find ?P (button_table c) \<noteq> None"
      by (auto simp: find_None_iff)
    then have "find ?P (button_table c @ es) = find ?P (button_table c)"
      by (rule find_append_found)
    moreover from k have "count_list (map button_trigger es) (button_trigger k) = 0"
      using fresh by (simp add: count_list_0_iff)
    ultimately show ?thesis
      using \<open>find ?P (button_table c) \<noteq> None\<close> by (simp add: tab find_configured_button_def)
  qed
  from copy_button_defaults_heap_grows [OF copy] obtain x where x: "h' = h @ x" ..
  then have heap: "take (length h) h' = h" by simp
  have bytes: "\<forall>r s. text_of h r = Some s \<longrightarrow> text_of h' r = Some s"
    unfolding x by (simp add: text_of_grows)
  show ?thesis
  proof (intro exI conjI)
    show "merge_with_default_button_bindings junk (h, c) = Some (h', append_buttons c es)"
      by (rule merge)
    show "take (length (button_table c)) (button_table (append_buttons c es)) = button_table c"
      by (simp add: tab)
    show "take (length h) h' = h"
      by (rule heap)
    show "\<forall>r s. text_of h r = Some s \<longrightarrow> text_of h' r = Some s"
      by (rule bytes)
    show "\<forall>k \<in> set (button_table c).
            count_list (map button_trigger (button_table (append_buttons c es))) (button_trigger k) =
              count_list (map button_trigger (button_table c)) (button_trigger k) \<and>
            find_configured_button (append_buttons c es) (button_modifiers k) (button_index k) (button_flags k) =
              find_configured_button c (button_modifiers k) (button_index k) (button_flags k) \<and>
            find_configured_button (append_buttons c es) (button_modifiers k) (button_index k) (button_flags k)
              \<noteq> None"
      using old by blast
  qed (simp_all add: append_buttons_frame)
qed

text \<open>After the merge every default is found, so a second merge returns at the shortcut.\<close>

lemma button_merge_idempotent:
  assumes ok: "button_storage_ok c"
  shows "\<exists>r. merge_with_default_button_bindings junk (h, c) = Some r \<and>
           count_new_buttons (snd r) default_button_bindings (mouse_number_of_buttons (snd r)) =
             mouse_number_of_buttons (snd r) \<and>
           merge_with_default_button_bindings junk' r = Some r"
proof -
  let ?new = "filter (button_absent c) default_button_bindings"
  from merge_with_default_button_bindings_result [OF ok] obtain h' es where
    copy: "copy_button_defaults (mouse_modifiers c) h ?new = Some (h', es)"
    and merge: "merge_with_default_button_bindings junk (h, c) = Some (h', append_buttons c es)"
    by blast
  let ?c' = "append_buttons c es"
  have "length es = length ?new"
    using copy by (rule copy_button_defaults_length)
  then have "length es \<le> length default_button_bindings"
    by simp
  with ok have cap: "unat (mouse_number_of_buttons c) \<le> length (mouse_buttons c)"
    and room: "unat (mouse_number_of_buttons c) + length es < 2 ^ 32"
    by (simp_all add: button_storage_ok_def)
  have tab: "button_table ?c' = button_table c @ es"
    using cap room by (rule button_table_append_buttons)
  have trig: "map button_trigger es = map (default_button_trigger (mouse_modifiers c)) ?new"
    using copy by (rule copy_button_defaults_triggers)
  have "\<not> button_absent ?c' d" if "d \<in> set default_button_bindings" for d
  proof (cases "button_absent c d")
    case True
    with that have "default_button_trigger (mouse_modifiers c) d \<in> set (map button_trigger es)"
      unfolding trig by simp
    then show ?thesis
      by (auto simp: button_absent_iff tab append_buttons_frame)
  next
    case False
    then show ?thesis
      by (auto simp: button_absent_iff tab append_buttons_frame)
  qed
  then have none: "filter (button_absent ?c') default_button_bindings = []"
    by (simp add: filter_empty_conv)
  then have "merge_with_default_button_bindings junk' (h', ?c') = Some (h', ?c')"
    unfolding merge_with_default_button_bindings_def by (rule merge_button_bindings_nothing_absent)
  moreover have "count_new_buttons ?c' default_button_bindings (mouse_number_of_buttons ?c') =
                   mouse_number_of_buttons ?c'"
    by (simp add: count_new_buttons_eq none)
  ultimately show ?thesis
    using merge by simp
qed

text \<open>
  The absent defaults are appended after the old bindings, in declaration order, one
  binding for each; the count grows by their number.
\<close>

lemma button_merge_appends_absent:
  assumes ok: "button_storage_ok c"
  shows "\<exists>h' c'. merge_with_default_button_bindings junk (h, c) = Some (h', c') \<and>
           unat (mouse_number_of_buttons c') =
             unat (mouse_number_of_buttons c) + length (filter (button_absent c) default_button_bindings) \<and>
           length (button_table c') =
             length (button_table c) + length (filter (button_absent c) default_button_bindings) \<and>
           take (length (button_table c)) (button_table c') = button_table c \<and>
           list_all2 (button_copied (mouse_modifiers c) h h')
             (filter (button_absent c) default_button_bindings)
             (drop (length (button_table c)) (button_table c')) \<and>
           (\<forall>d \<in> set default_button_bindings. button_absent c d \<longrightarrow>
              count_list (map button_trigger (button_table c'))
                (default_button_trigger (mouse_modifiers c) d) =
              count_list (map (default_button_trigger (mouse_modifiers c)) default_button_bindings)
                (default_button_trigger (mouse_modifiers c) d))"
proof -
  let ?new = "filter (button_absent c) default_button_bindings"
  let ?eff = "default_button_trigger (mouse_modifiers c)"
  from merge_with_default_button_bindings_result [OF ok] obtain h' es where
    copy: "copy_button_defaults (mouse_modifiers c) h ?new = Some (h', es)"
    and merge: "merge_with_default_button_bindings junk (h, c) = Some (h', append_buttons c es)"
    by blast
  have len: "length es = length ?new"
    using copy by (rule copy_button_defaults_length)
  then have "length es \<le> length default_button_bindings"
    by simp
  with ok have cap: "unat (mouse_number_of_buttons c) \<le> length (mouse_buttons c)"
    and room: "unat (mouse_number_of_buttons c) + length es < 2 ^ 32"
    by (simp_all add: button_storage_ok_def)
  note app = button_table_append_buttons [OF cap room]
  have trig: "map button_trigger es = map ?eff ?new"
    using copy by (rule copy_button_defaults_triggers)
  have copied: "list_all2 (button_copied (mouse_modifiers c) h h') ?new es"
    using copy by (rule copy_button_defaults_copied)
  have cnt: "count_list (map button_trigger (button_table c @ es)) (?eff d) =
               count_list (map ?eff default_button_bindings) (?eff d)"
    if "button_absent c d" for d
  proof -
    from that have "count_list (map button_trigger (button_table c)) (?eff d) = 0"
      by (simp add: button_absent_iff)
    moreover have "count_list (map ?eff ?new) (?eff d) =
                     count_list (map ?eff default_button_bindings) (?eff d)"
      using that by (intro count_list_filter_map) (auto simp: button_absent_iff)
    ultimately show ?thesis
      by (simp add: trig)
  qed
  show ?thesis
    using merge copied cnt by (simp add: app len)
qed

text \<open>
  On a table without repeated triggers, the merged table has none exactly when the
  effective triggers of the absent defaults are distinct.
\<close>

lemma button_merge_distinct_iff:
  assumes ok: "button_storage_ok c"
    and dist: "distinct (map button_trigger (button_table c))"
  shows "\<exists>h' c'. merge_with_default_button_bindings junk (h, c) = Some (h', c') \<and>
           (distinct (map button_trigger (button_table c')) \<longleftrightarrow>
            distinct (map (default_button_trigger (mouse_modifiers c))
                       (filter (button_absent c) default_button_bindings)))"
proof -
  let ?new = "filter (button_absent c) default_button_bindings"
  let ?eff = "default_button_trigger (mouse_modifiers c)"
  from merge_with_default_button_bindings_result [OF ok] obtain h' es where
    copy: "copy_button_defaults (mouse_modifiers c) h ?new = Some (h', es)"
    and merge: "merge_with_default_button_bindings junk (h, c) = Some (h', append_buttons c es)"
    by blast
  have "length es = length ?new"
    using copy by (rule copy_button_defaults_length)
  then have "length es \<le> length default_button_bindings"
    by simp
  with ok have cap: "unat (mouse_number_of_buttons c) \<le> length (mouse_buttons c)"
    and room: "unat (mouse_number_of_buttons c) + length es < 2 ^ 32"
    by (simp_all add: button_storage_ok_def)
  have tab: "button_table (append_buttons c es) = button_table c @ es"
    using cap room by (rule button_table_append_buttons)
  have trig: "map button_trigger es = map ?eff ?new"
    using copy by (rule copy_button_defaults_triggers)
  have "set (map button_trigger (button_table c)) \<inter> set (map ?eff ?new) = {}"
    by (auto simp: button_absent_iff)
  then have "distinct (map button_trigger (button_table c @ es)) \<longleftrightarrow> distinct (map ?eff ?new)"
    using dist by (simp add: trig)
  with merge tab show ?thesis
    by simp
qed

text \<open>
  Two defaults with the same effective trigger, absent from the table, are both appended:
  the lookup of the second does not see the binding just written for the first.
\<close>

lemma button_merge_appends_colliding_defaults:
  assumes cap: "unat (mouse_number_of_buttons c) \<le> length (mouse_buttons c)"
    and room: "unat (mouse_number_of_buttons c) + length ds < 2 ^ 32"
    and static: "\<forall>d \<in> set ds. static_payload (parameter (default_button_action d))"
    and ij: "i < j" "j < length ds"
    and same: "default_button_trigger (mouse_modifiers c) (ds ! i) =
               default_button_trigger (mouse_modifiers c) (ds ! j)"
    and absent: "button_absent c (ds ! i)"
  shows "\<exists>h' c' m n. merge_button_bindings ds junk (h, c) = Some (h', c') \<and>
           length (button_table c) \<le> m \<and> m < n \<and> n < length (button_table c') \<and>
           button_copied (mouse_modifiers c) h h' (ds ! i) (button_table c' ! m) \<and>
           button_copied (mouse_modifiers c) h h' (ds ! j) (button_table c' ! n) \<and>
           button_trigger (button_table c' ! m) = button_trigger (button_table c' ! n)"
proof -
  let ?P = "button_absent c"
  let ?new = "filter ?P ds"
  let ?m = "length (filter ?P (take i ds))"
  let ?n = "length (filter ?P (take j ds))"
  let ?old = "length (button_table c)"
  have "\<forall>d \<in> set ?new. static_payload (parameter (default_button_action d))"
    using static by simp
  then obtain h' es where
    copy: "copy_button_defaults (mouse_modifiers c) h ?new = Some (h', es)"
    using copy_button_defaults_total by blast
  have merge: "merge_button_bindings ds junk (h, c) = Some (h', append_buttons c es)"
    using cap room copy by (rule merge_button_bindings_char)
  have len: "length es = length ?new"
    using copy by (rule copy_button_defaults_length)
  then have "unat (mouse_number_of_buttons c) + length es < 2 ^ 32"
    using room length_filter_le [of ?P ds] by linarith
  with cap have tab: "button_table (append_buttons c es) = button_table c @ es"
    by (rule button_table_append_buttons)
  have copied: "list_all2 (button_copied (mouse_modifiers c) h h') ?new es"
    using copy by (rule copy_button_defaults_copied)
  have Pj: "?P (ds ! j)"
    using absent same by (simp add: button_absent_iff)
  have i: "i < length ds" using ij by simp
  have m: "?m < length ?new" "?new ! ?m = ds ! i"
    using filter_position [of i ds ?P, OF i absent] by simp_all
  have n: "?n < length ?new" "?new ! ?n = ds ! j"
    using filter_position [of j ds ?P, OF ij(2) Pj] by simp_all
  have mn: "?m < ?n"
    using ij absent by (intro filter_position_mono) simp_all
  have cm: "button_copied (mouse_modifiers c) h h' (ds ! i) (es ! ?m)"
    using list_all2_nthD [OF copied m(1)] m(2) by simp
  have cn: "button_copied (mouse_modifiers c) h h' (ds ! j) (es ! ?n)"
    using list_all2_nthD [OF copied n(1)] n(2) by simp
  have "button_trigger (es ! ?m) = button_trigger (es ! ?n)"
    using cm cn same by (simp add: button_copied_def)
  then have "merge_button_bindings ds junk (h, c) = Some (h', append_buttons c es) \<and>
        ?old \<le> ?old + ?m \<and> ?old + ?m < ?old + ?n \<and>
        ?old + ?n < length (button_table (append_buttons c es)) \<and>
        button_copied (mouse_modifiers c) h h' (ds ! i) (button_table (append_buttons c es) ! (?old + ?m)) \<and>
        button_copied (mouse_modifiers c) h h' (ds ! j) (button_table (append_buttons c es) ! (?old + ?n)) \<and>
        button_trigger (button_table (append_buttons c es) ! (?old + ?m)) =
          button_trigger (button_table (append_buttons c es) ! (?old + ?n))"
    using merge mn n(1) cm cn by (simp add: tab len)
  then show ?thesis by blast
qed

subsection \<open>The compiled-in button defaults\<close>

text \<open>
  The button defaults have three different indices, so their effective triggers are
  distinct under every base modifier.
\<close>

lemma default_button_triggers_distinct:
  "distinct (map (default_button_trigger base) default_button_bindings)"
  by (simp add: default_button_bindings_def default_button_trigger_def)

lemma button_merge_complete:
  assumes ok: "button_storage_ok c"
  shows "\<exists>h' c'. merge_with_default_button_bindings junk (h, c) = Some (h', c') \<and>
           unat (mouse_number_of_buttons c') =
             unat (mouse_number_of_buttons c) +
             length (filter (button_absent c) default_button_bindings) \<and>
           length (button_table c') =
             length (button_table c) + length (filter (button_absent c) default_button_bindings) \<and>
           take (length (button_table c)) (button_table c') = button_table c \<and>
           list_all2 (button_copied (mouse_modifiers c) h h')
             (filter (button_absent c) default_button_bindings)
             (drop (length (button_table c)) (button_table c')) \<and>
           (\<forall>d \<in> set default_button_bindings. button_absent c d \<longrightarrow>
              count_list (map button_trigger (button_table c'))
                (default_button_trigger (mouse_modifiers c) d) =
              count_list (map (default_button_trigger (mouse_modifiers c)) default_button_bindings)
                (default_button_trigger (mouse_modifiers c) d)) \<and>
           (\<forall>d \<in> set default_button_bindings. button_absent c d \<longrightarrow>
              count_list (map button_trigger (button_table c'))
                (default_button_trigger (mouse_modifiers c) d) = 1)"
proof -
  let ?eff = "default_button_trigger (mouse_modifiers c)"
  from button_merge_appends_absent [OF ok, of junk h] obtain h' c' where
    r: "merge_with_default_button_bindings junk (h, c) = Some (h', c')"
       "unat (mouse_number_of_buttons c') =
          unat (mouse_number_of_buttons c) +
          length (filter (button_absent c) default_button_bindings)"
       "length (button_table c') =
          length (button_table c) + length (filter (button_absent c) default_button_bindings)"
       "take (length (button_table c)) (button_table c') = button_table c"
       "list_all2 (button_copied (mouse_modifiers c) h h')
          (filter (button_absent c) default_button_bindings)
          (drop (length (button_table c)) (button_table c'))"
    and cnt: "\<forall>d \<in> set default_button_bindings. button_absent c d \<longrightarrow>
          count_list (map button_trigger (button_table c')) (?eff d) =
          count_list (map ?eff default_button_bindings) (?eff d)"
    by blast
  have one: "count_list (map button_trigger (button_table c')) (?eff d) = 1"
    if "d \<in> set default_button_bindings" and "button_absent c d" for d
  proof -
    have "count_list (map ?eff default_button_bindings) (?eff d) = 1"
      using default_button_triggers_distinct that(1) by (intro count_list_distinct) simp_all
    with cnt that show ?thesis by simp
  qed
  show ?thesis
  proof (intro exI conjI)
    show "\<forall>d \<in> set default_button_bindings. button_absent c d \<longrightarrow>
            count_list (map button_trigger (button_table c')) (?eff d) = 1"
      using one by simp
  qed (fact r cnt)+
qed

lemma button_merge_distinct:
  assumes ok: "button_storage_ok c"
    and dist: "distinct (map button_trigger (button_table c))"
  shows "\<exists>h' c'. merge_with_default_button_bindings junk (h, c) = Some (h', c') \<and>
           distinct (map button_trigger (button_table c'))"
proof -
  have "distinct (map (default_button_trigger (mouse_modifiers c))
                   (filter (button_absent c) default_button_bindings))"
    using default_button_triggers_distinct by (rule distinct_map_filter)
  with button_merge_distinct_iff [OF ok dist, of junk h] show ?thesis
    by blast
qed

section \<open>The merge claims\<close>


text \<open>
  C1, merge non-destructiveness. On sound storage either merge returns, and every binding
  that was in the table is still there in the same place with the same modifiers, symbol
  or index, flags and action list; the allocated text blocks keep their bytes; for the
  trigger of such a binding, also when a default has that effective trigger, the lookup
  still answers with the user's binding and the number of bindings with that trigger has
  not grown. The other table and the base modifiers are untouched.
\<close>

theorem merge_non_destructive:
  assumes "key_storage_ok c" and "button_storage_ok c"
  shows "(\<exists>h' c'. merge_with_default_key_bindings junk_key (h, c) = Some (h', c') \<and>
            take (length (key_table c)) (key_table c') = key_table c \<and>
            take (length h) h' = h \<and>
            (\<forall>r s. text_of h r = Some s \<longrightarrow> text_of h' r = Some s) \<and>
            (\<forall>k \<in> set (key_table c).
               count_list (map key_trigger (key_table c')) (key_trigger k) =
                 count_list (map key_trigger (key_table c)) (key_trigger k) \<and>
               find_configured_key c' (key_modifiers k) (key_symbol k) (key_flags k) =
                 find_configured_key c (key_modifiers k) (key_symbol k) (key_flags k) \<and>
               find_configured_key c' (key_modifiers k) (key_symbol k) (key_flags k) \<noteq> None) \<and>
            keyboard_modifiers c' = keyboard_modifiers c \<and>
            button_table c' = button_table c \<and> mouse_modifiers c' = mouse_modifiers c) \<and>
         (\<exists>h' c'. merge_with_default_button_bindings junk_button (h, c) = Some (h', c') \<and>
            take (length (button_table c)) (button_table c') = button_table c \<and>
            take (length h) h' = h \<and>
            (\<forall>r s. text_of h r = Some s \<longrightarrow> text_of h' r = Some s) \<and>
            (\<forall>k \<in> set (button_table c).
               count_list (map button_trigger (button_table c')) (button_trigger k) =
                 count_list (map button_trigger (button_table c)) (button_trigger k) \<and>
               find_configured_button c' (button_modifiers k) (button_index k) (button_flags k) =
                 find_configured_button c (button_modifiers k) (button_index k) (button_flags k) \<and>
               find_configured_button c' (button_modifiers k) (button_index k) (button_flags k) \<noteq> None) \<and>
            mouse_modifiers c' = mouse_modifiers c \<and>
            key_table c' = key_table c \<and> keyboard_modifiers c' = keyboard_modifiers c)"
  using key_merge_keeps_bindings [OF assms(1)] button_merge_keeps_bindings [OF assms(2)]
  by (intro conjI)


theorem merge_non_destructive_witness:
  "key_storage_ok example_configuration \<and> button_storage_ok example_configuration \<and>
   user_key \<in> set (key_table example_configuration) \<and>
   user_button \<in> set (button_table example_configuration) \<and>
   text_of example_heap (Allocated 0) = Some ''exec dmenu_run'' \<and>
   \<not> key_absent example_configuration (default_key_bindings ! 4) \<and>
   \<not> button_absent example_configuration (default_button_bindings ! 0) \<and>
   (\<exists>h' c'. merge_with_default_key_bindings blank_key (example_heap, example_configuration) =
        Some (h', c') \<and>
      key_table c' ! 0 = user_key \<and>
      text_of h' (Allocated 0) = Some ''exec dmenu_run'' \<and>
      find_configured_key c' XCB_MOD_MASK_4 XK_q 0 = Some user_key \<and>
      count_list (map key_trigger (key_table c')) (XCB_MOD_MASK_4, XK_q, 0) = 1) \<and>
   (\<exists>h' c'. merge_with_default_button_bindings blank_button (example_heap, example_configuration) =
        Some (h', c') \<and>
      button_table c' ! 0 = user_button \<and>
      find_configured_button c' XCB_MOD_MASK_4 1 0 = Some user_button \<and>
      count_list (map button_trigger (button_table c')) (XCB_MOD_MASK_4, 1, 0) = 1)"
proof -
  have k: "key_storage_ok example_configuration"
    by (simp add: key_storage_ok_def example_configuration_def default_key_bindings_def)
  have b: "button_storage_ok example_configuration"
    by (simp add: button_storage_ok_def example_configuration_def default_button_bindings_def)
  have tk: "key_table example_configuration = [user_key]"
    by (simp add: key_table_def example_configuration_def)
  have tb: "button_table example_configuration = [user_button]"
    by (simp add: button_table_def example_configuration_def)
  have uk: "user_key \<in> set (key_table example_configuration)"
    by (simp add: tk)
  have ub: "user_button \<in> set (button_table example_configuration)"
    by (simp add: tb)
  have bytes0: "text_of example_heap (Allocated 0) = Some ''exec dmenu_run''"
    by (simp add: example_heap_def)
  have base: "keyboard_modifiers example_configuration = XCB_MOD_MASK_4"
    "mouse_modifiers example_configuration = XCB_MOD_MASK_4"
    by (simp_all add: example_configuration_def)
  have ck: "\<not> key_absent example_configuration (default_key_bindings ! 4)"
    by (simp add: key_absent_def find_configured_key_def tk base user_key_def
        default_key_bindings_def)
  have cb: "\<not> button_absent example_configuration (default_button_bindings ! 0)"
    by (simp add: button_absent_def find_configured_button_def tb base user_button_def
        default_button_bindings_def)
  have fk: "find_configured_key example_configuration XCB_MOD_MASK_4 XK_q 0 = Some user_key"
    by (simp add: find_configured_key_def tk user_key_def)
  have fb: "find_configured_button example_configuration XCB_MOD_MASK_4 1 0 = Some user_button"
    by (simp add: find_configured_button_def tb user_button_def)
  have mk: "key_modifiers user_key = XCB_MOD_MASK_4" "key_symbol user_key = XK_q"
    "key_flags user_key = 0" "key_trigger user_key = (XCB_MOD_MASK_4, XK_q, 0)"
    by (simp_all add: user_key_def key_trigger_def)
  have mb: "button_modifiers user_button = XCB_MOD_MASK_4" "button_index user_button = 1"
    "button_flags user_button = 0" "button_trigger user_button = (XCB_MOD_MASK_4, 1, 0)"
    by (simp_all add: user_button_def button_trigger_def)
  note claim = merge_non_destructive [OF k b, of blank_key example_heap blank_button]
  from conjunct1 [OF claim] obtain h1 c1 where
    k1: "merge_with_default_key_bindings blank_key (example_heap, example_configuration) =
           Some (h1, c1)"
    and k2: "take (length (key_table example_configuration)) (key_table c1) =
           key_table example_configuration"
    and k3: "\<forall>r s. text_of example_heap r = Some s \<longrightarrow> text_of h1 r = Some s"
    and k4: "\<forall>k \<in> set (key_table example_configuration).
              count_list (map key_trigger (key_table c1)) (key_trigger k) =
                count_list (map key_trigger (key_table example_configuration)) (key_trigger k) \<and>
              find_configured_key c1 (key_modifiers k) (key_symbol k) (key_flags k) =
                find_configured_key example_configuration (key_modifiers k) (key_symbol k)
                  (key_flags k) \<and>
              find_configured_key c1 (key_modifiers k) (key_symbol k) (key_flags k) \<noteq> None"
    by (elim exE conjE)
  have "take 1 (key_table c1) ! 0 = key_table c1 ! 0"
    by (rule nth_take) simp
  with k2 have k5: "key_table c1 ! 0 = user_key"
    by (simp add: tk)
  from k3 bytes0 have k6: "text_of h1 (Allocated 0) = Some ''exec dmenu_run''"
    by blast
  from bspec [OF k4 uk] have k7: "find_configured_key c1 XCB_MOD_MASK_4 XK_q 0 = Some user_key"
    and k8: "count_list (map key_trigger (key_table c1)) (XCB_MOD_MASK_4, XK_q, 0) = 1"
    by (simp_all add: mk fk tk)
  from conjunct2 [OF claim] obtain h2 c2 where
    b1: "merge_with_default_button_bindings blank_button (example_heap, example_configuration) =
           Some (h2, c2)"
    and b2: "take (length (button_table example_configuration)) (button_table c2) =
           button_table example_configuration"
    and b4: "\<forall>k \<in> set (button_table example_configuration).
              count_list (map button_trigger (button_table c2)) (button_trigger k) =
                count_list (map button_trigger (button_table example_configuration))
                  (button_trigger k) \<and>
              find_configured_button c2 (button_modifiers k) (button_index k) (button_flags k) =
                find_configured_button example_configuration (button_modifiers k)
                  (button_index k) (button_flags k) \<and>
              find_configured_button c2 (button_modifiers k) (button_index k) (button_flags k)
                \<noteq> None"
    by (elim exE conjE)
  have "take 1 (button_table c2) ! 0 = button_table c2 ! 0"
    by (rule nth_take) simp
  with b2 have b5: "button_table c2 ! 0 = user_button"
    by (simp add: tb)
  from bspec [OF b4 ub] have b7: "find_configured_button c2 XCB_MOD_MASK_4 1 0 = Some user_button"
    and b8: "count_list (map button_trigger (button_table c2)) (XCB_MOD_MASK_4, 1, 0) = 1"
    by (simp_all add: mb fb tb)
  have K: "\<exists>h' c'. merge_with_default_key_bindings blank_key (example_heap, example_configuration) =
        Some (h', c') \<and>
      key_table c' ! 0 = user_key \<and>
      text_of h' (Allocated 0) = Some ''exec dmenu_run'' \<and>
      find_configured_key c' XCB_MOD_MASK_4 XK_q 0 = Some user_key \<and>
      count_list (map key_trigger (key_table c')) (XCB_MOD_MASK_4, XK_q, 0) = 1"
    using k1 k5 k6 k7 k8 by blast
  have B: "\<exists>h' c'. merge_with_default_button_bindings blank_button (example_heap, example_configuration) =
        Some (h', c') \<and>
      button_table c' ! 0 = user_button \<and>
      find_configured_button c' XCB_MOD_MASK_4 1 0 = Some user_button \<and>
      count_list (map button_trigger (button_table c')) (XCB_MOD_MASK_4, 1, 0) = 1"
    using b1 b5 b7 b8 by blast
  show ?thesis
    by (rule conjI [OF k conjI [OF b conjI [OF uk conjI [OF ub conjI [OF bytes0 conjI [OF ck
          conjI [OF cb conjI [OF K B]]]]]]]])
qed


text \<open>
  C2, merge idempotence. On sound storage either merge returns a table on which the
  first loop finds every default (the new count equals the stored count), so a second
  merge, whatever the resize would leave in fresh elements, takes the shortcut and
  returns that table and heap unchanged.
\<close>

theorem merge_idempotent:
  assumes "key_storage_ok c" and "button_storage_ok c"
  shows "(\<exists>r. merge_with_default_key_bindings junk_key (h, c) = Some r \<and>
            count_new_keys (snd r) default_key_bindings (keyboard_number_of_keys (snd r)) =
              keyboard_number_of_keys (snd r) \<and>
            merge_with_default_key_bindings junk_key' r = Some r) \<and>
         (\<exists>r. merge_with_default_button_bindings junk_button (h, c) = Some r \<and>
            count_new_buttons (snd r) default_button_bindings (mouse_number_of_buttons (snd r)) =
              mouse_number_of_buttons (snd r) \<and>
            merge_with_default_button_bindings junk_button' r = Some r)"
  using key_merge_idempotent [OF assms(1)] button_merge_idempotent [OF assms(2)]
  by (intro conjI)

theorem merge_idempotent_witness:
  "key_storage_ok example_configuration \<and> button_storage_ok example_configuration \<and>
   (\<exists>r. merge_with_default_key_bindings blank_key (example_heap, example_configuration) = Some r \<and>
      count_new_keys (snd r) default_key_bindings (keyboard_number_of_keys (snd r)) =
        keyboard_number_of_keys (snd r) \<and>
      merge_with_default_key_bindings blank_key r = Some r) \<and>
   (\<exists>r. merge_with_default_button_bindings blank_button (example_heap, example_configuration) = Some r \<and>
      count_new_buttons (snd r) default_button_bindings (mouse_number_of_buttons (snd r)) =
        mouse_number_of_buttons (snd r) \<and>
      merge_with_default_button_bindings blank_button r = Some r)"
proof -
  have k: "key_storage_ok example_configuration"
    by (simp add: key_storage_ok_def example_configuration_def default_key_bindings_def)
  have b: "button_storage_ok example_configuration"
    by (simp add: button_storage_ok_def example_configuration_def default_button_bindings_def)
  show ?thesis
    by (rule conjI [OF k conjI [OF b merge_idempotent [OF k b]]])
qed


text \<open>
  C3, merge completeness, as the code has it. The claim's "exactly one binding with that
  effective trigger" fails for the key merge when the base modifier holds Shift: the first
  default, Shift+r, is absent from the empty table, and the merged table has two bindings
  with its effective trigger.
\<close>

theorem merge_completeness_counterexample:
  "key_storage_ok shift_configuration \<and>
   key_absent shift_configuration (default_key_bindings ! 0) \<and>
   merge_with_default_key_bindings blank_key ([], shift_configuration) \<noteq> None \<and>
   count_list
     (map key_trigger
       (key_table (snd (the (merge_with_default_key_bindings blank_key ([], shift_configuration))))))
     (default_key_trigger (keyboard_modifiers shift_configuration) (default_key_bindings ! 0)) = 2"
proof -
  have "key_storage_ok shift_configuration"
    by (simp add: key_storage_ok_def shift_configuration_def default_key_bindings_def)
  moreover have "key_absent shift_configuration (default_key_bindings ! 0)"
    by code_simp
  moreover have "merge_with_default_key_bindings blank_key ([], shift_configuration) \<noteq> None"
    by code_simp
  moreover have "count_list
     (map key_trigger
       (key_table (snd (the (merge_with_default_key_bindings blank_key ([], shift_configuration))))))
     (default_key_trigger (keyboard_modifiers shift_configuration) (default_key_bindings ! 0)) = 2"
    by code_simp
  ultimately show ?thesis
    by (intro conjI)
qed

text \<open>
  C3, amended. On sound storage either merge returns; the new table is the old one
  followed by one binding for each absent default, in declaration order; each new binding
  has the default's effective trigger and a single action with the template's code and a
  deep copy of its payload; the count grows by the number of absent defaults. The number
  of bindings with an absent default's effective trigger equals the number of defaults
  with that effective trigger: exactly one for the button defaults, and exactly one for
  the key defaults when the base modifier holds neither Shift nor Control.
\<close>

theorem merge_complete:
  assumes "key_storage_ok c" and "button_storage_ok c"
  shows "(\<exists>h' c'. merge_with_default_key_bindings junk_key (h, c) = Some (h', c') \<and>
            unat (keyboard_number_of_keys c') =
              unat (keyboard_number_of_keys c) + length (filter (key_absent c) default_key_bindings) \<and>
            length (key_table c') =
              length (key_table c) + length (filter (key_absent c) default_key_bindings) \<and>
            take (length (key_table c)) (key_table c') = key_table c \<and>
            list_all2 (key_copied (keyboard_modifiers c) h h')
              (filter (key_absent c) default_key_bindings)
              (drop (length (key_table c)) (key_table c')) \<and>
            (\<forall>d \<in> set default_key_bindings. key_absent c d \<longrightarrow>
               count_list (map key_trigger (key_table c'))
                 (default_key_trigger (keyboard_modifiers c) d) =
               count_list (map (default_key_trigger (keyboard_modifiers c)) default_key_bindings)
                 (default_key_trigger (keyboard_modifiers c) d)) \<and>
            (keyboard_modifiers c AND (XCB_MOD_MASK_SHIFT OR XCB_MOD_MASK_CONTROL) = 0 \<longrightarrow>
               (\<forall>d \<in> set default_key_bindings. key_absent c d \<longrightarrow>
                  count_list (map key_trigger (key_table c'))
                    (default_key_trigger (keyboard_modifiers c) d) = 1))) \<and>
         (\<exists>h' c'. merge_with_default_button_bindings junk_button (h, c) = Some (h', c') \<and>
            unat (mouse_number_of_buttons c') =
              unat (mouse_number_of_buttons c) + length (filter (button_absent c) default_button_bindings) \<and>
            length (button_table c') =
              length (button_table c) + length (filter (button_absent c) default_button_bindings) \<and>
            take (length (button_table c)) (button_table c') = button_table c \<and>
            list_all2 (button_copied (mouse_modifiers c) h h')
              (filter (button_absent c) default_button_bindings)
              (drop (length (button_table c)) (button_table c')) \<and>
            (\<forall>d \<in> set default_button_bindings. button_absent c d \<longrightarrow>
               count_list (map button_trigger (button_table c'))
                 (default_button_trigger (mouse_modifiers c) d) =
               count_list (map (default_button_trigger (mouse_modifiers c)) default_button_bindings)
                 (default_button_trigger (mouse_modifiers c) d)) \<and>
            (\<forall>d \<in> set default_button_bindings. button_absent c d \<longrightarrow>
               count_list (map button_trigger (button_table c'))
                 (default_button_trigger (mouse_modifiers c) d) = 1))"
  using key_merge_complete [OF assms(1)] button_merge_complete [OF assms(2)]
  by (intro conjI)


theorem merge_complete_witness:
  "key_storage_ok example_configuration \<and> button_storage_ok example_configuration \<and>
   keyboard_modifiers example_configuration AND (XCB_MOD_MASK_SHIFT OR XCB_MOD_MASK_CONTROL) = 0 \<and>
   default_key_bindings ! 38 \<in> set default_key_bindings \<and>
   key_absent example_configuration (default_key_bindings ! 38) \<and>
   default_button_bindings ! 1 \<in> set default_button_bindings \<and>
   button_absent example_configuration (default_button_bindings ! 1) \<and>
   (\<exists>h' c'. merge_with_default_key_bindings blank_key (example_heap, example_configuration) =
        Some (h', c') \<and>
      unat (keyboard_number_of_keys c') = 40 \<and>
      key_table c' ! 0 = user_key \<and>
      key_copied XCB_MOD_MASK_4 example_heap h' (default_key_bindings ! 38) (key_table c' ! 38) \<and>
      count_list (map key_trigger (key_table c')) (XCB_MOD_MASK_4, XK_Return, 0) = 1) \<and>
   (\<exists>h' c'. merge_with_default_button_bindings blank_button (example_heap, example_configuration) =
        Some (h', c') \<and>
      unat (mouse_number_of_buttons c') = 3 \<and>
      button_table c' ! 0 = user_button \<and>
      button_copied XCB_MOD_MASK_4 example_heap h' (default_button_bindings ! 1)
        (button_table c' ! 1) \<and>
      count_list (map button_trigger (button_table c')) (XCB_MOD_MASK_4, 2, 0) = 1)"
proof -
  let ?c = example_configuration
  have k: "key_storage_ok ?c"
    by (simp add: key_storage_ok_def example_configuration_def default_key_bindings_def)
  have b: "button_storage_ok ?c"
    by (simp add: button_storage_ok_def example_configuration_def default_button_bindings_def)
  have base: "keyboard_modifiers ?c = XCB_MOD_MASK_4" "mouse_modifiers ?c = XCB_MOD_MASK_4"
    by (simp_all add: example_configuration_def)
  have plain: "keyboard_modifiers ?c AND (XCB_MOD_MASK_SHIFT OR XCB_MOD_MASK_CONTROL) = 0"
    by (simp add: base)
  have tk: "key_table ?c = [user_key]"
    by (simp add: key_table_def example_configuration_def)
  have tb: "button_table ?c = [user_button]"
    by (simp add: button_table_def example_configuration_def)
  have cnt: "unat (keyboard_number_of_keys ?c) = 1" "unat (mouse_number_of_buttons ?c) = 1"
    by (simp_all add: example_configuration_def)
  have dk: "default_key_bindings ! 38 \<in> set default_key_bindings"
    by (simp add: default_key_bindings_def)
  have db: "default_button_bindings ! 1 \<in> set default_button_bindings"
    by (simp add: default_button_bindings_def)
  have ak: "key_absent ?c (default_key_bindings ! 38)"
    by code_simp
  have ab: "button_absent ?c (default_button_bindings ! 1)"
    by code_simp
  have tr: "default_key_trigger XCB_MOD_MASK_4 (default_key_bindings ! 38) =
              (XCB_MOD_MASK_4, XK_Return, 0)"
    "default_button_trigger XCB_MOD_MASK_4 (default_button_bindings ! 1) = (XCB_MOD_MASK_4, 2, 0)"
    by (simp_all add: default_key_trigger_def default_key_bindings_def
        default_button_trigger_def default_button_bindings_def)
  have nk: "length (filter (key_absent ?c) default_key_bindings) = 39"
    by code_simp
  have pk: "filter (key_absent ?c) default_key_bindings ! 37 = default_key_bindings ! 38"
    by code_simp
  have nb: "length (filter (button_absent ?c) default_button_bindings) = 2"
    by code_simp
  have pb: "filter (button_absent ?c) default_button_bindings ! 0 = default_button_bindings ! 1"
    by code_simp
  note claim = merge_complete [OF k b, of blank_key example_heap blank_button]
  from conjunct1 [OF claim] obtain h1 c1 where
    k1: "merge_with_default_key_bindings blank_key (example_heap, ?c) = Some (h1, c1)"
    and k2: "unat (keyboard_number_of_keys c1) =
               unat (keyboard_number_of_keys ?c) +
               length (filter (key_absent ?c) default_key_bindings)"
    and k3: "length (key_table c1) =
               length (key_table ?c) + length (filter (key_absent ?c) default_key_bindings)"
    and k4: "take (length (key_table ?c)) (key_table c1) = key_table ?c"
    and k5: "list_all2 (key_copied (keyboard_modifiers ?c) example_heap h1)
               (filter (key_absent ?c) default_key_bindings)
               (drop (length (key_table ?c)) (key_table c1))"
    and k7: "keyboard_modifiers ?c AND (XCB_MOD_MASK_SHIFT OR XCB_MOD_MASK_CONTROL) = 0 \<longrightarrow>
               (\<forall>d \<in> set default_key_bindings. key_absent ?c d \<longrightarrow>
                  count_list (map key_trigger (key_table c1))
                    (default_key_trigger (keyboard_modifiers ?c) d) = 1)"
    by (elim exE conjE)
  from k2 have K2: "unat (keyboard_number_of_keys c1) = 40"
    by (simp add: cnt nk)
  have "take 1 (key_table c1) ! 0 = key_table c1 ! 0"
    by (rule nth_take) simp
  with k4 have K3: "key_table c1 ! 0 = user_key"
    by (simp add: tk)
  have "key_copied (keyboard_modifiers ?c) example_heap h1
          (filter (key_absent ?c) default_key_bindings ! 37)
          (drop (length (key_table ?c)) (key_table c1) ! 37)"
    using k5 by (rule list_all2_nthD) (simp add: nk)
  then have K4: "key_copied XCB_MOD_MASK_4 example_heap h1 (default_key_bindings ! 38)
                   (key_table c1 ! 38)"
    using k3 by (simp add: pk base tk nk)
  from k7 plain dk ak have K5:
    "count_list (map key_trigger (key_table c1)) (XCB_MOD_MASK_4, XK_Return, 0) = 1"
    unfolding base tr [symmetric] by blast
  from conjunct2 [OF claim] obtain h2 c2 where
    b1: "merge_with_default_button_bindings blank_button (example_heap, ?c) = Some (h2, c2)"
    and b2: "unat (mouse_number_of_buttons c2) =
               unat (mouse_number_of_buttons ?c) +
               length (filter (button_absent ?c) default_button_bindings)"
    and b3: "length (button_table c2) =
               length (button_table ?c) + length (filter (button_absent ?c) default_button_bindings)"
    and b4: "take (length (button_table ?c)) (button_table c2) = button_table ?c"
    and b5: "list_all2 (button_copied (mouse_modifiers ?c) example_heap h2)
               (filter (button_absent ?c) default_button_bindings)
               (drop (length (button_table ?c)) (button_table c2))"
    and b7: "\<forall>d \<in> set default_button_bindings. button_absent ?c d \<longrightarrow>
               count_list (map button_trigger (button_table c2))
                 (default_button_trigger (mouse_modifiers ?c) d) = 1"
    by (elim exE conjE)
  from b2 have B2: "unat (mouse_number_of_buttons c2) = 3"
    by (simp add: cnt nb)
  have "take 1 (button_table c2) ! 0 = button_table c2 ! 0"
    by (rule nth_take) simp
  with b4 have B3: "button_table c2 ! 0 = user_button"
    by (simp add: tb)
  have "button_copied (mouse_modifiers ?c) example_heap h2
          (filter (button_absent ?c) default_button_bindings ! 0)
          (drop (length (button_table ?c)) (button_table c2) ! 0)"
    using b5 by (rule list_all2_nthD) (simp add: nb)
  then have B4: "button_copied XCB_MOD_MASK_4 example_heap h2 (default_button_bindings ! 1)
                   (button_table c2 ! 1)"
    using b3 by (simp add: pb base tb nb)
  from b7 db ab have B5:
    "count_list (map button_trigger (button_table c2)) (XCB_MOD_MASK_4, 2, 0) = 1"
    unfolding base tr [symmetric] by blast
  have K: "\<exists>h' c'. merge_with_default_key_bindings blank_key (example_heap, ?c) = Some (h', c') \<and>
      unat (keyboard_number_of_keys c') = 40 \<and>
      key_table c' ! 0 = user_key \<and>
      key_copied XCB_MOD_MASK_4 example_heap h' (default_key_bindings ! 38) (key_table c' ! 38) \<and>
      count_list (map key_trigger (key_table c')) (XCB_MOD_MASK_4, XK_Return, 0) = 1"
    using k1 K2 K3 K4 K5 by blast
  have B: "\<exists>h' c'. merge_with_default_button_bindings blank_button (example_heap, ?c) =
        Some (h', c') \<and>
      unat (mouse_number_of_buttons c') = 3 \<and>
      button_table c' ! 0 = user_button \<and>
      button_copied XCB_MOD_MASK_4 example_heap h' (default_button_bindings ! 1)
        (button_table c' ! 1) \<and>
      count_list (map button_trigger (button_table c')) (XCB_MOD_MASK_4, 2, 0) = 1"
    using b1 B2 B3 B4 B5 by blast
  show ?thesis
    by (rule conjI [OF k conjI [OF b conjI [OF plain conjI [OF dk conjI [OF ak conjI [OF db
          conjI [OF ab conjI [OF K B]]]]]]]])
qed


text \<open>
  C4, trigger uniqueness, as the code has it. The claim fails for the key merge with Shift
  as base modifier: the empty table has no repeated trigger, the merged table has.
\<close>

theorem merge_uniqueness_counterexample:
  "key_storage_ok shift_configuration \<and>
   distinct (map key_trigger (key_table shift_configuration)) \<and>
   merge_with_default_key_bindings blank_key ([], shift_configuration) \<noteq> None \<and>
   \<not> distinct
     (map key_trigger
       (key_table (snd (the (merge_with_default_key_bindings blank_key ([], shift_configuration))))))"
proof -
  have "key_storage_ok shift_configuration"
    by (simp add: key_storage_ok_def shift_configuration_def default_key_bindings_def)
  moreover have "distinct (map key_trigger (key_table shift_configuration))"
    by code_simp
  moreover have "merge_with_default_key_bindings blank_key ([], shift_configuration) \<noteq> None"
    by code_simp
  moreover have "\<not> distinct
     (map key_trigger
       (key_table (snd (the (merge_with_default_key_bindings blank_key ([], shift_configuration))))))"
    by code_simp
  ultimately show ?thesis
    by (intro conjI)
qed

text \<open>
  C4, amended. On a table without repeated triggers and with sound storage, the button
  merge yields a table without repeated triggers for every base modifier; the key merge
  does so exactly when the effective triggers of the absent key defaults are pairwise
  distinct, in particular whenever the base modifier holds neither Shift nor Control.
\<close>

theorem merge_trigger_uniqueness:
  assumes "key_storage_ok c" and "button_storage_ok c"
    and "distinct (map key_trigger (key_table c))"
    and "distinct (map button_trigger (button_table c))"
  shows "(\<exists>h' c'. merge_with_default_key_bindings junk_key (h, c) = Some (h', c') \<and>
            (distinct (map key_trigger (key_table c')) \<longleftrightarrow>
             distinct (map (default_key_trigger (keyboard_modifiers c))
                        (filter (key_absent c) default_key_bindings)))) \<and>
         (keyboard_modifiers c AND (XCB_MOD_MASK_SHIFT OR XCB_MOD_MASK_CONTROL) = 0 \<longrightarrow>
            (\<exists>h' c'. merge_with_default_key_bindings junk_key (h, c) = Some (h', c') \<and>
               distinct (map key_trigger (key_table c')))) \<and>
         (\<exists>h' c'. merge_with_default_button_bindings junk_button (h, c) = Some (h', c') \<and>
            distinct (map button_trigger (button_table c')))"
  using key_merge_distinct_iff [OF assms(1,3)] key_merge_distinct [OF assms(1,3)]
    button_merge_distinct [OF assms(2,4)]
  by (intro conjI)

theorem merge_trigger_uniqueness_witness:
  "key_storage_ok example_configuration \<and> button_storage_ok example_configuration \<and>
   distinct (map key_trigger (key_table example_configuration)) \<and>
   distinct (map button_trigger (button_table example_configuration)) \<and>
   keyboard_modifiers example_configuration AND (XCB_MOD_MASK_SHIFT OR XCB_MOD_MASK_CONTROL) = 0 \<and>
   (\<exists>h' c'. merge_with_default_key_bindings blank_key (example_heap, example_configuration) = Some (h', c') \<and>
      (distinct (map key_trigger (key_table c')) \<longleftrightarrow>
       distinct (map (default_key_trigger (keyboard_modifiers example_configuration))
                  (filter (key_absent example_configuration) default_key_bindings)))) \<and>
   (\<exists>h' c'. merge_with_default_key_bindings blank_key (example_heap, example_configuration) = Some (h', c') \<and>
      distinct (map key_trigger (key_table c'))) \<and>
   (\<exists>h' c'. merge_with_default_button_bindings blank_button (example_heap, example_configuration) = Some (h', c') \<and>
      distinct (map button_trigger (button_table c')))"
proof -
  have k: "key_storage_ok example_configuration"
    by (simp add: key_storage_ok_def example_configuration_def default_key_bindings_def)
  have b: "button_storage_ok example_configuration"
    by (simp add: button_storage_ok_def example_configuration_def default_button_bindings_def)
  have dk: "distinct (map key_trigger (key_table example_configuration))"
    by (simp add: key_table_def example_configuration_def)
  have db: "distinct (map button_trigger (button_table example_configuration))"
    by (simp add: button_table_def example_configuration_def)
  have base: "keyboard_modifiers example_configuration AND
                (XCB_MOD_MASK_SHIFT OR XCB_MOD_MASK_CONTROL) = 0"
    by (simp add: example_configuration_def)
  note mtu = merge_trigger_uniqueness [OF k b dk db]
  from mtu have 1: "\<exists>h' c'. merge_with_default_key_bindings blank_key (example_heap, example_configuration) = Some (h', c') \<and>
         (distinct (map key_trigger (key_table c')) \<longleftrightarrow>
          distinct (map (default_key_trigger (keyboard_modifiers example_configuration))
                     (filter (key_absent example_configuration) default_key_bindings)))"
    by (rule conjunct1)
  from mtu base have 2: "\<exists>h' c'. merge_with_default_key_bindings blank_key (example_heap, example_configuration) = Some (h', c') \<and>
         distinct (map key_trigger (key_table c'))"
    by blast
  from mtu have 3: "\<exists>h' c'. merge_with_default_button_bindings blank_button (example_heap, example_configuration) = Some (h', c') \<and>
         distinct (map button_trigger (button_table c'))"
    by blast
  from k b dk db base 1 2 3 show ?thesis
    by (intro conjI)
qed


text \<open>
  C10, the duplicate check of the second loop. The second loop of either merge never
  changes the stored count or the bindings the lookup can see: it returns a configuration
  with the count and the visible table it started from, so a binding written earlier in
  the same call is invisible to the later lookups. Consequently, for any array of
  defaults, two defaults with the same effective trigger that is absent from the table
  are both appended, giving two bindings with one trigger; with the compiled-in key
  defaults this happens for Shift+r and r whenever the base modifier holds Shift.
\<close>

theorem merge_lookup_sees_old_count:
  "(add_new_keys ds h c next_key = Some (h', c', next_key') \<and>
    unat (keyboard_number_of_keys c) \<le> next_key \<longrightarrow>
      keyboard_number_of_keys c' = keyboard_number_of_keys c \<and> key_table c' = key_table c) \<and>
   (add_new_buttons bs h c next_button = Some (h', c', next_button') \<and>
    unat (mouse_number_of_buttons c) \<le> next_button \<longrightarrow>
      mouse_number_of_buttons c' = mouse_number_of_buttons c \<and> button_table c' = button_table c) \<and>
   (unat (keyboard_number_of_keys c) \<le> length (keyboard_keys c) \<and>
    unat (keyboard_number_of_keys c) + length ds < 2 ^ 32 \<and>
    list_all (\<lambda>d. static_payload (parameter (default_key_action d))) ds \<and>
    i < j \<and> j < length ds \<and>
    default_key_trigger (keyboard_modifiers c) (ds ! i) =
      default_key_trigger (keyboard_modifiers c) (ds ! j) \<and>
    key_absent c (ds ! i) \<longrightarrow>
      (\<exists>h' c' m n. merge_key_bindings ds junk_key (h, c) = Some (h', c') \<and>
         length (key_table c) \<le> m \<and> m < n \<and> n < length (key_table c') \<and>
         key_copied (keyboard_modifiers c) h h' (ds ! i) (key_table c' ! m) \<and>
         key_copied (keyboard_modifiers c) h h' (ds ! j) (key_table c' ! n) \<and>
         key_trigger (key_table c' ! m) = key_trigger (key_table c' ! n))) \<and>
   (unat (mouse_number_of_buttons c) \<le> length (mouse_buttons c) \<and>
    unat (mouse_number_of_buttons c) + length bs < 2 ^ 32 \<and>
    list_all (\<lambda>d. static_payload (parameter (default_button_action d))) bs \<and>
    i < j \<and> j < length bs \<and>
    default_button_trigger (mouse_modifiers c) (bs ! i) =
      default_button_trigger (mouse_modifiers c) (bs ! j) \<and>
    button_absent c (bs ! i) \<longrightarrow>
      (\<exists>h' c' m n. merge_button_bindings bs junk_button (h, c) = Some (h', c') \<and>
         length (button_table c) \<le> m \<and> m < n \<and> n < length (button_table c') \<and>
         button_copied (mouse_modifiers c) h h' (bs ! i) (button_table c' ! m) \<and>
         button_copied (mouse_modifiers c) h h' (bs ! j) (button_table c' ! n) \<and>
         button_trigger (button_table c' ! m) = button_trigger (button_table c' ! n))) \<and>
   (key_storage_ok c \<and>
    keyboard_modifiers c AND XCB_MOD_MASK_SHIFT = XCB_MOD_MASK_SHIFT \<and>
    key_absent c (default_key_bindings ! 0) \<longrightarrow>
      (\<exists>h' c' m n. merge_with_default_key_bindings junk_key (h, c) = Some (h', c') \<and>
         length (key_table c) \<le> m \<and> m < n \<and> n < length (key_table c') \<and>
         key_copied (keyboard_modifiers c) h h' (default_key_bindings ! 0) (key_table c' ! m) \<and>
         key_copied (keyboard_modifiers c) h h' (default_key_bindings ! 8) (key_table c' ! n) \<and>
         key_trigger (key_table c' ! m) = key_trigger (key_table c' ! n)))"
proof -
  have 1: "add_new_keys ds h c next_key = Some (h', c', next_key') \<and>
       unat (keyboard_number_of_keys c) \<le> next_key \<longrightarrow>
         keyboard_number_of_keys c' = keyboard_number_of_keys c \<and> key_table c' = key_table c"
    using add_new_keys_table by blast
  have 2: "add_new_buttons bs h c next_button = Some (h', c', next_button') \<and>
       unat (mouse_number_of_buttons c) \<le> next_button \<longrightarrow>
         mouse_number_of_buttons c' = mouse_number_of_buttons c \<and> button_table c' = button_table c"
    using add_new_buttons_table by blast
  have 3: "unat (keyboard_number_of_keys c) \<le> length (keyboard_keys c) \<and>
       unat (keyboard_number_of_keys c) + length ds < 2 ^ 32 \<and>
       list_all (\<lambda>d. static_payload (parameter (default_key_action d))) ds \<and>
       i < j \<and> j < length ds \<and>
       default_key_trigger (keyboard_modifiers c) (ds ! i) =
         default_key_trigger (keyboard_modifiers c) (ds ! j) \<and>
       key_absent c (ds ! i) \<longrightarrow>
         (\<exists>h' c' m n. merge_key_bindings ds junk_key (h, c) = Some (h', c') \<and>
            length (key_table c) \<le> m \<and> m < n \<and> n < length (key_table c') \<and>
            key_copied (keyboard_modifiers c) h h' (ds ! i) (key_table c' ! m) \<and>
            key_copied (keyboard_modifiers c) h h' (ds ! j) (key_table c' ! n) \<and>
            key_trigger (key_table c' ! m) = key_trigger (key_table c' ! n))"
    by (intro impI, elim conjE, rule key_merge_appends_colliding_defaults;
        (assumption | simp add: list_all_iff))
  have 4: "unat (mouse_number_of_buttons c) \<le> length (mouse_buttons c) \<and>
       unat (mouse_number_of_buttons c) + length bs < 2 ^ 32 \<and>
       list_all (\<lambda>d. static_payload (parameter (default_button_action d))) bs \<and>
       i < j \<and> j < length bs \<and>
       default_button_trigger (mouse_modifiers c) (bs ! i) =
         default_button_trigger (mouse_modifiers c) (bs ! j) \<and>
       button_absent c (bs ! i) \<longrightarrow>
         (\<exists>h' c' m n. merge_button_bindings bs junk_button (h, c) = Some (h', c') \<and>
            length (button_table c) \<le> m \<and> m < n \<and> n < length (button_table c') \<and>
            button_copied (mouse_modifiers c) h h' (bs ! i) (button_table c' ! m) \<and>
            button_copied (mouse_modifiers c) h h' (bs ! j) (button_table c' ! n) \<and>
            button_trigger (button_table c' ! m) = button_trigger (button_table c' ! n))"
    by (intro impI, elim conjE, rule button_merge_appends_colliding_defaults;
        (assumption | simp add: list_all_iff))
  have 5: "key_storage_ok c \<and>
       keyboard_modifiers c AND XCB_MOD_MASK_SHIFT = XCB_MOD_MASK_SHIFT \<and>
       key_absent c (default_key_bindings ! 0) \<longrightarrow>
         (\<exists>h' c' m n. merge_with_default_key_bindings junk_key (h, c) = Some (h', c') \<and>
            length (key_table c) \<le> m \<and> m < n \<and> n < length (key_table c') \<and>
            key_copied (keyboard_modifiers c) h h' (default_key_bindings ! 0) (key_table c' ! m) \<and>
            key_copied (keyboard_modifiers c) h h' (default_key_bindings ! 8) (key_table c' ! n) \<and>
            key_trigger (key_table c' ! m) = key_trigger (key_table c' ! n))"
    by (intro impI, elim conjE, rule key_merge_shift_collision; assumption)
  from 1 2 3 4 5 show ?thesis
    by (intro conjI)
qed


theorem merge_lookup_sees_old_count_witness:
  "(\<exists>h' c' next_key'.
      add_new_keys default_key_bindings [] shift_keys_resized 0 = Some (h', c', next_key') \<and>
      unat (keyboard_number_of_keys shift_keys_resized) \<le> 0 \<and>
      keyboard_number_of_keys c' = keyboard_number_of_keys shift_keys_resized \<and>
      key_table c' = key_table shift_keys_resized) \<and>
   (\<exists>h' c' next_button'.
      add_new_buttons default_button_bindings [] shift_buttons_resized 0 = Some (h', c', next_button') \<and>
      unat (mouse_number_of_buttons shift_buttons_resized) \<le> 0 \<and>
      mouse_number_of_buttons c' = mouse_number_of_buttons shift_buttons_resized \<and>
      button_table c' = button_table shift_buttons_resized) \<and>
   (unat (keyboard_number_of_keys shift_configuration) \<le> length (keyboard_keys shift_configuration) \<and>
    unat (keyboard_number_of_keys shift_configuration) + length default_key_bindings < 2 ^ 32 \<and>
    list_all (\<lambda>d. static_payload (parameter (default_key_action d))) default_key_bindings \<and>
    (0::nat) < (8::nat) \<and> (8::nat) < length default_key_bindings \<and>
    default_key_trigger (keyboard_modifiers shift_configuration) (default_key_bindings ! (0::nat)) =
      default_key_trigger (keyboard_modifiers shift_configuration) (default_key_bindings ! (8::nat)) \<and>
    key_absent shift_configuration (default_key_bindings ! (0::nat))) \<and>
   ((\<exists>h' c' m n. merge_key_bindings default_key_bindings blank_key ([], shift_configuration) = Some (h', c') \<and>
         length (key_table shift_configuration) \<le> m \<and> m < n \<and> n < length (key_table c') \<and>
         key_copied (keyboard_modifiers shift_configuration) [] h' (default_key_bindings ! (0::nat)) (key_table c' ! m) \<and>
         key_copied (keyboard_modifiers shift_configuration) [] h' (default_key_bindings ! (8::nat)) (key_table c' ! n) \<and>
         key_trigger (key_table c' ! m) = key_trigger (key_table c' ! n))) \<and>
   (unat (mouse_number_of_buttons shift_configuration) \<le> length (mouse_buttons shift_configuration) \<and>
    unat (mouse_number_of_buttons shift_configuration) + length colliding_button_defaults < 2 ^ 32 \<and>
    list_all (\<lambda>d. static_payload (parameter (default_button_action d))) colliding_button_defaults \<and>
    (0::nat) < (1::nat) \<and> (1::nat) < length colliding_button_defaults \<and>
    default_button_trigger (mouse_modifiers shift_configuration) (colliding_button_defaults ! (0::nat)) =
      default_button_trigger (mouse_modifiers shift_configuration) (colliding_button_defaults ! (1::nat)) \<and>
    button_absent shift_configuration (colliding_button_defaults ! (0::nat))) \<and>
   ((\<exists>h' c' m n. merge_button_bindings colliding_button_defaults blank_button ([], shift_configuration) = Some (h', c') \<and>
         length (button_table shift_configuration) \<le> m \<and> m < n \<and> n < length (button_table c') \<and>
         button_copied (mouse_modifiers shift_configuration) [] h' (colliding_button_defaults ! (0::nat)) (button_table c' ! m) \<and>
         button_copied (mouse_modifiers shift_configuration) [] h' (colliding_button_defaults ! (1::nat)) (button_table c' ! n) \<and>
         button_trigger (button_table c' ! m) = button_trigger (button_table c' ! n))) \<and>
   (key_storage_ok shift_configuration \<and>
    keyboard_modifiers shift_configuration AND XCB_MOD_MASK_SHIFT = XCB_MOD_MASK_SHIFT \<and>
    key_absent shift_configuration (default_key_bindings ! 0)) \<and>
   ((\<exists>h' c' m n. merge_with_default_key_bindings blank_key ([], shift_configuration) = Some (h', c') \<and>
         length (key_table shift_configuration) \<le> m \<and> m < n \<and> n < length (key_table c') \<and>
         key_copied (keyboard_modifiers shift_configuration) [] h' (default_key_bindings ! 0) (key_table c' ! m) \<and>
         key_copied (keyboard_modifiers shift_configuration) [] h' (default_key_bindings ! 8) (key_table c' ! n) \<and>
         key_trigger (key_table c' ! m) = key_trigger (key_table c' ! n)))"
proof -
  note claim = merge_lookup_sees_old_count
    [where junk_key = blank_key and junk_button = blank_button]
  have "add_new_keys default_key_bindings [] shift_keys_resized 0 \<noteq> None"
    by code_simp
  then obtain h1 c1 n1 where
    run1: "add_new_keys default_key_bindings [] shift_keys_resized 0 = Some (h1, c1, n1)"
    by auto
  have le1: "unat (keyboard_number_of_keys shift_keys_resized) \<le> 0"
    by (simp add: shift_keys_resized_def shift_configuration_def)
  from claim [where ds = default_key_bindings and h = "[]" and h' = h1 and c' = c1 and
      c = shift_keys_resized and next_key = 0 and next_key' = n1] run1 le1
  have "keyboard_number_of_keys c1 = keyboard_number_of_keys shift_keys_resized \<and>
        key_table c1 = key_table shift_keys_resized"
    by blast
  with run1 le1 have 1: "\<exists>h' c' next_key'.
         add_new_keys default_key_bindings [] shift_keys_resized 0 = Some (h', c', next_key') \<and>
         unat (keyboard_number_of_keys shift_keys_resized) \<le> 0 \<and>
         keyboard_number_of_keys c' = keyboard_number_of_keys shift_keys_resized \<and>
         key_table c' = key_table shift_keys_resized"
    by blast
  have "add_new_buttons default_button_bindings [] shift_buttons_resized 0 \<noteq> None"
    by code_simp
  then obtain h2 c2 n2 where
    run2: "add_new_buttons default_button_bindings [] shift_buttons_resized 0 = Some (h2, c2, n2)"
    by auto
  have le2: "unat (mouse_number_of_buttons shift_buttons_resized) \<le> 0"
    by (simp add: shift_buttons_resized_def shift_configuration_def)
  from claim [where bs = default_button_bindings and h = "[]" and h' = h2 and c' = c2 and
      c = shift_buttons_resized and next_button = 0 and next_button' = n2] run2 le2
  have "mouse_number_of_buttons c2 = mouse_number_of_buttons shift_buttons_resized \<and>
        button_table c2 = button_table shift_buttons_resized"
    by blast
  with run2 le2 have 2: "\<exists>h' c' next_button'.
         add_new_buttons default_button_bindings [] shift_buttons_resized 0 = Some (h', c', next_button') \<and>
         unat (mouse_number_of_buttons shift_buttons_resized) \<le> 0 \<and>
         mouse_number_of_buttons c' = mouse_number_of_buttons shift_buttons_resized \<and>
         button_table c' = button_table shift_buttons_resized"
    by blast
  have 3: "unat (keyboard_number_of_keys shift_configuration) \<le> length (keyboard_keys shift_configuration) \<and>
       unat (keyboard_number_of_keys shift_configuration) + length default_key_bindings < 2 ^ 32 \<and>
       list_all (\<lambda>d. static_payload (parameter (default_key_action d))) default_key_bindings \<and>
       (0::nat) < (8::nat) \<and> (8::nat) < length default_key_bindings \<and>
       default_key_trigger (keyboard_modifiers shift_configuration) (default_key_bindings ! (0::nat)) =
         default_key_trigger (keyboard_modifiers shift_configuration) (default_key_bindings ! (8::nat)) \<and>
       key_absent shift_configuration (default_key_bindings ! (0::nat))"
    by (simp add: shift_configuration_def default_key_bindings_def default_key_trigger_def
        key_absent_def find_configured_key_def key_table_def)
  have 4: "unat (mouse_number_of_buttons shift_configuration) \<le> length (mouse_buttons shift_configuration) \<and>
       unat (mouse_number_of_buttons shift_configuration) + length colliding_button_defaults < 2 ^ 32 \<and>
       list_all (\<lambda>d. static_payload (parameter (default_button_action d))) colliding_button_defaults \<and>
       (0::nat) < (1::nat) \<and> (1::nat) < length colliding_button_defaults \<and>
       default_button_trigger (mouse_modifiers shift_configuration) (colliding_button_defaults ! (0::nat)) =
         default_button_trigger (mouse_modifiers shift_configuration) (colliding_button_defaults ! (1::nat)) \<and>
       button_absent shift_configuration (colliding_button_defaults ! (0::nat))"
    by (simp add: shift_configuration_def colliding_button_defaults_def
        default_button_trigger_def button_absent_def find_configured_button_def button_table_def)
  have 5: "key_storage_ok shift_configuration \<and>
       keyboard_modifiers shift_configuration AND XCB_MOD_MASK_SHIFT = XCB_MOD_MASK_SHIFT \<and>
       key_absent shift_configuration (default_key_bindings ! 0)"
    by (simp add: shift_configuration_def default_key_bindings_def key_storage_ok_def
        key_absent_def find_configured_key_def key_table_def)
  from 3 claim [where ds = default_key_bindings and h = "[]" and c = shift_configuration and
      i = 0 and j = 8]
  have 6: "(\<exists>h' c' m n. merge_key_bindings default_key_bindings blank_key ([], shift_configuration) = Some (h', c') \<and>
            length (key_table shift_configuration) \<le> m \<and> m < n \<and> n < length (key_table c') \<and>
            key_copied (keyboard_modifiers shift_configuration) [] h' (default_key_bindings ! (0::nat)) (key_table c' ! m) \<and>
            key_copied (keyboard_modifiers shift_configuration) [] h' (default_key_bindings ! (8::nat)) (key_table c' ! n) \<and>
            key_trigger (key_table c' ! m) = key_trigger (key_table c' ! n))"
    by blast
  from 4 claim [where bs = colliding_button_defaults and h = "[]" and
      c = shift_configuration and i = 0 and j = 1]
  have 7: "(\<exists>h' c' m n. merge_button_bindings colliding_button_defaults blank_button ([], shift_configuration) = Some (h', c') \<and>
            length (button_table shift_configuration) \<le> m \<and> m < n \<and> n < length (button_table c') \<and>
            button_copied (mouse_modifiers shift_configuration) [] h' (colliding_button_defaults ! (0::nat)) (button_table c' ! m) \<and>
            button_copied (mouse_modifiers shift_configuration) [] h' (colliding_button_defaults ! (1::nat)) (button_table c' ! n) \<and>
            button_trigger (button_table c' ! m) = button_trigger (button_table c' ! n))"
    by blast
  from 5 claim [where h = "[]" and c = shift_configuration]
  have 8: "(\<exists>h' c' m n. merge_with_default_key_bindings blank_key ([], shift_configuration) = Some (h', c') \<and>
            length (key_table shift_configuration) \<le> m \<and> m < n \<and> n < length (key_table c') \<and>
            key_copied (keyboard_modifiers shift_configuration) [] h' (default_key_bindings ! 0) (key_table c' ! m) \<and>
            key_copied (keyboard_modifiers shift_configuration) [] h' (default_key_bindings ! 8) (key_table c' ! n) \<and>
            key_trigger (key_table c' ! m) = key_trigger (key_table c' ! n))"
    by blast
  show ?thesis
    by (rule conjI [OF 1 conjI [OF 2 conjI [OF 3 conjI [OF 6 conjI [OF 4 conjI [OF 7
          conjI [OF 5 8]]]]]]])
qed

section \<open>Properties of the event handlers\<close>

subsection \<open>Casts, value lists and the grab\<close>

lemma sint_scast_16_32: "sint (scast (w :: 16 word) :: 32 word) = sint w"
  by (rule sint_up_scast) (simp add: is_up)

lemma unat_ucast_16_32: "unat (ucast (w :: 16 word) :: 32 word) = unat w"
proof -
  have "uint (ucast w :: 32 word) = uint w"
    by (rule uint_up_ucast) (simp add: is_up)
  then show ?thesis
    by (metis unat_eq_nat_uint)
qed

lemma sint16_range: "- 32768 \<le> sint (w :: 16 word) \<and> sint w < 32768"
  using sint_ge [of w] sint_lt [of w] by simp

text \<open>With an \<^verbatim>\<open>int16_t\<close> value as the old position the sum does not wrap.\<close>

lemma sint_reposition:
  fixes gx rx :: "16 word" and ox :: "32 word"
  assumes "- 32768 \<le> sint ox" "sint ox < 32768"
  shows "sint (scast gx + (scast rx - ox) :: 32 word) = sint gx + (sint rx - sint ox)"
proof -
  have d: "sint (scast rx - ox :: 32 word) = sint rx - sint ox"
    using assms sint16_range [of rx]
    by (simp add: sint_word_diff sint_scast_16_32 signed_take_bit_int_eq_self)
  show ?thesis
    using assms sint16_range [of rx] sint16_range [of gx]
    by (simp add: sint_word_add d sint_scast_16_32 signed_take_bit_int_eq_self)
qed

lemma int16_position_scast:
  "int16_position \<lparr>position_x = scast (a :: 16 word), position_y = scast (b :: 16 word)\<rparr>"
  using sint16_range [of a] sint16_range [of b]
  by (simp add: int16_position_def sint_scast_16_32)

text \<open>
  The mask of the reposition request is \<open>X OR Y = 3\<close>, that of the configure request
  \<open>XCB_CONFIG_SIZE OR BORDER_WIDTH = 31\<close>.
\<close>

lemma config_masks:
  "XCB_CONFIG_WINDOW_X OR XCB_CONFIG_WINDOW_Y = 3"
  "XCB_CONFIG_SIZE OR XCB_CONFIG_WINDOW_BORDER_WIDTH = 31"
  by (simp_all add: XCB_CONFIG_SIZE_def)

lemma mask_xy_bits: "length (filter (bit (3 :: 16 word)) [0..<16]) = 2"
  by code_simp

lemma mask_all_bits: "length (filter (bit (31 :: 16 word)) [0..<16]) = 5"
  by code_simp

lemma upt_5: "[0..<5] = [0, 1, 2, 3, 4]"
  by code_simp

lemma value_list_xy: "value_list 3 g = [g 0, g 1]"
  unfolding value_list_def mask_xy_bits by (simp add: upt_rec)

lemma value_list_all: "value_list 31 g = [g 0, g 1, g 2, g 3, g 4]"
  unfolding value_list_def mask_all_bits upt_5 by simp

lemma configured_xy:
  "configured 3 [a, b] 0 = Some a"
  "configured 3 [a, b] 1 = Some b"
  "configured 3 [a, b] 2 = None"
  "configured 3 [a, b] 3 = None"
  "configured 3 [a, b] 4 = None"
  by (simp_all add: configured_def upt_rec bit_numeral_simps Let_def)

lemma configured_all:
  "configured 31 [a, b, c, d, e] 0 = Some a"
  "configured 31 [a, b, c, d, e] 1 = Some b"
  "configured 31 [a, b, c, d, e] 2 = Some c"
  "configured 31 [a, b, c, d, e] 3 = Some d"
  "configured 31 [a, b, c, d, e] 4 = Some e"
  by (simp_all add: configured_def upt_rec bit_numeral_simps Let_def)

lemma grab_active_snoc: "grab_active (cs @ [r]) = grab_step (grab_active cs) r"
  by (simp add: grab_active_def)

lemma grab_active_snoc2:
  "grab_active (cs @ [q, r]) = grab_step (grab_step (grab_active cs) q) r"
  by (simp add: grab_active_def)

subsection \<open>What each handler of the grab does\<close>

lemma handle_button_release_eq:
  "handle_button_release ev s = s\<lparr>calls := calls s @ [Ungrab_pointer]\<rparr>"
  by (simp add: handle_button_release_def issue_def)

lemma handle_motion_notify_gone:
  assumes "server_geometry s (xcb_window (selected_window s)) = None"
  shows "handle_motion_notify ev s =
           s\<lparr>calls := calls s @ [Get_geometry (xcb_window (selected_window s)), Ungrab_pointer]\<rparr>"
  using assms by (simp add: handle_motion_notify_def xcb_get_geometry_reply_def issue_def)

lemma handle_motion_notify_moves:
  assumes "server_geometry s (xcb_window (selected_window s)) = Some g"
  shows "handle_motion_notify ev s =
           s\<lparr>g_values := (g_values s)
                 (0 := scast (geometry_x g) +
                         (scast (event_root_x ev) - position_x (old_mouse (selected_window s))),
                  1 := scast (geometry_y g) +
                         (scast (event_root_y ev) - position_y (old_mouse (selected_window s)))),
              selected_window := (selected_window s)
                 \<lparr>old_mouse := \<lparr>position_x = scast (event_root_x ev),
                                  position_y = scast (event_root_y ev)\<rparr>\<rparr>,
              calls := calls s @
                 [Get_geometry (xcb_window (selected_window s)),
                  Configure_window (xcb_window (selected_window s))
                    (XCB_CONFIG_WINDOW_X OR XCB_CONFIG_WINDOW_Y)
                    [scast (geometry_x g) +
                       (scast (event_root_x ev) - position_x (old_mouse (selected_window s))),
                     scast (geometry_y g) +
                       (scast (event_root_y ev) - position_y (old_mouse (selected_window s)))]]\<rparr>"
  using assms
  by (simp add: handle_motion_notify_def xcb_get_geometry_reply_def issue_def Let_def
      xcb_configure_window_def value_list_xy)

lemma handle_button_press_grabs:
  assumes "registry s (event_child ev) = Some w"
    and "window_state_current w = WINDOW_STATE_POPUP"
    and "server_geometry s (event_child ev) = Some g"
  shows "handle_button_press ev s =
           s\<lparr>selected_window :=
                 \<lparr>start = \<lparr>position_x = scast (event_root_y ev),
                            position_y = scast (event_root_y ev)\<rparr>,
                  old_mouse = \<lparr>position_x = scast (event_root_x ev),
                                position_y = scast (event_root_y ev)\<rparr>,
                  xcb_window = event_child ev\<rparr>,
              calls := calls s @
                 [Get_geometry (event_child ev),
                  Grab_pointer (event_root ev)
                    (XCB_EVENT_MASK_BUTTON_RELEASE OR XCB_EVENT_MASK_BUTTON_MOTION)
                    XCB_GRAB_MODE_ASYNC XCB_GRAB_MODE_ASYNC (event_root ev)]\<rparr>"
  using assms
  by (simp add: handle_button_press_def get_window_of_xcb_window_def xcb_get_geometry_reply_def
      issue_def)

lemma handle_button_press_ignores:
  assumes "registry s (event_child ev) = None \<or>
           (\<exists>w. registry s (event_child ev) = Some w \<and>
                window_state_current w \<noteq> WINDOW_STATE_POPUP)"
  shows "handle_button_press ev s = s"
  using assms by (auto simp: handle_button_press_def get_window_of_xcb_window_def)

lemma handle_button_press_no_geometry:
  assumes "registry s (event_child ev) = Some w"
    and "window_state_current w = WINDOW_STATE_POPUP"
    and "server_geometry s (event_child ev) = None"
  shows "handle_button_press ev s = s\<lparr>calls := calls s @ [Get_geometry (event_child ev)]\<rparr>"
  using assms
  by (simp add: handle_button_press_def get_window_of_xcb_window_def xcb_get_geometry_reply_def
      issue_def)

section \<open>The event claims\<close>

text \<open>
  C5, extension precedence. Whatever the event, when its response type without the top
  bit is at or above \<^verbatim>\<open>randr_event_base\<close> the dispatcher does what the screen change
  handler does, which is to query and merge the monitors, and nothing else: no line is
  logged and no other handler runs, also when the type is the code of a core event. A
  type below the base that the \<^verbatim>\<open>switch\<close> does not name is dropped: the event is logged
  and the state is otherwise unchanged.
\<close>

theorem extension_precedence:
  "(randr_event_base s \<le> event_response_type ev AND NOT 0x80 \<longrightarrow>
      handle_event ev s = handle_screen_change ev s \<and>
      handle_event ev s = s\<lparr>calls := calls s @ [Query_monitors, Merge_monitors]\<rparr>) \<and>
   (event_response_type ev AND NOT 0x80 < randr_event_base s \<and>
    event_response_type ev AND NOT 0x80 \<notin>
      {XCB_MAP_REQUEST, XCB_BUTTON_PRESS, XCB_MOTION_NOTIFY, XCB_BUTTON_RELEASE,
       XCB_PROPERTY_NOTIFY, XCB_UNMAP_NOTIFY, XCB_DESTROY_NOTIFY, XCB_CONFIGURE_REQUEST,
       XCB_KEY_PRESS} \<longrightarrow>
      handle_event ev s = s\<lparr>logged := logged s @ [Log_event ev]\<rparr>)"
proof (intro conjI impI)
  assume "randr_event_base s \<le> event_response_type ev AND NOT 0x80"
  then show "handle_event ev s = handle_screen_change ev s"
    by (simp add: handle_event_def Let_def)
  then show "handle_event ev s = s\<lparr>calls := calls s @ [Query_monitors, Merge_monitors]\<rparr>"
    by (simp add: handle_screen_change_def issue_def)
next
  assume "event_response_type ev AND NOT 0x80 < randr_event_base s \<and>
    event_response_type ev AND NOT 0x80 \<notin>
      {XCB_MAP_REQUEST, XCB_BUTTON_PRESS, XCB_MOTION_NOTIFY, XCB_BUTTON_RELEASE,
       XCB_PROPERTY_NOTIFY, XCB_UNMAP_NOTIFY, XCB_DESTROY_NOTIFY, XCB_CONFIGURE_REQUEST,
       XCB_KEY_PRESS}"
  then show "handle_event ev s = s\<lparr>logged := logged s @ [Log_event ev]\<rparr>"
    by (simp add: handle_event_def Let_def log_event_def LOG_def not_le [symmetric])
qed

theorem extension_precedence_witness:
  "randr_event_base (idle_wm\<lparr>randr_event_base := XCB_BUTTON_PRESS\<rparr>) \<le>
     event_response_type (press_event\<lparr>event_response_type := 0x84\<rparr>) AND NOT 0x80 \<and>
   event_response_type (press_event\<lparr>event_response_type := 0x84\<rparr>) AND NOT 0x80 =
     XCB_BUTTON_PRESS \<and>
   handle_event (press_event\<lparr>event_response_type := 0x84\<rparr>)
       (idle_wm\<lparr>randr_event_base := XCB_BUTTON_PRESS\<rparr>) =
     handle_screen_change (press_event\<lparr>event_response_type := 0x84\<rparr>)
       (idle_wm\<lparr>randr_event_base := XCB_BUTTON_PRESS\<rparr>) \<and>
   calls (handle_event (press_event\<lparr>event_response_type := 0x84\<rparr>)
            (idle_wm\<lparr>randr_event_base := XCB_BUTTON_PRESS\<rparr>)) =
     [Query_monitors, Merge_monitors] \<and>
   event_response_type (blank_event\<lparr>event_response_type := 3\<rparr>) AND NOT 0x80 <
     randr_event_base idle_wm \<and>
   event_response_type (blank_event\<lparr>event_response_type := 3\<rparr>) AND NOT 0x80 \<notin>
      {XCB_MAP_REQUEST, XCB_BUTTON_PRESS, XCB_MOTION_NOTIFY, XCB_BUTTON_RELEASE,
       XCB_PROPERTY_NOTIFY, XCB_UNMAP_NOTIFY, XCB_DESTROY_NOTIFY, XCB_CONFIGURE_REQUEST,
       XCB_KEY_PRESS} \<and>
   handle_event (blank_event\<lparr>event_response_type := 3\<rparr>) idle_wm =
     idle_wm\<lparr>logged := logged idle_wm @ [Log_event (blank_event\<lparr>event_response_type := 3\<rparr>)]\<rparr>"
proof -
  let ?s = "idle_wm\<lparr>randr_event_base := XCB_BUTTON_PRESS\<rparr>"
  let ?ev = "press_event\<lparr>event_response_type := 0x84\<rparr>"
  let ?ev3 = "blank_event\<lparr>event_response_type := 3\<rparr>"
  have h1: "randr_event_base ?s \<le> event_response_type ?ev AND NOT 0x80"
    by (simp add: idle_wm_def press_event_def blank_event_def)
  have t: "event_response_type ?ev AND NOT 0x80 = XCB_BUTTON_PRESS"
    by (simp add: press_event_def blank_event_def)
  have h2: "event_response_type ?ev3 AND NOT 0x80 < randr_event_base idle_wm \<and>
    event_response_type ?ev3 AND NOT 0x80 \<notin>
      {XCB_MAP_REQUEST, XCB_BUTTON_PRESS, XCB_MOTION_NOTIFY, XCB_BUTTON_RELEASE,
       XCB_PROPERTY_NOTIFY, XCB_UNMAP_NOTIFY, XCB_DESTROY_NOTIFY, XCB_CONFIGURE_REQUEST,
       XCB_KEY_PRESS}"
    by (simp add: idle_wm_def blank_event_def)
  from extension_precedence [of ?s ?ev] h1
  have c1: "handle_event ?ev ?s = handle_screen_change ?ev ?s"
    and c2: "handle_event ?ev ?s = ?s\<lparr>calls := calls ?s @ [Query_monitors, Merge_monitors]\<rparr>"
    by blast+
  have c3: "calls (handle_event ?ev ?s) = [Query_monitors, Merge_monitors]"
    unfolding c2 by (simp add: idle_wm_def)
  from extension_precedence [of idle_wm ?ev3] h2
  have c4: "handle_event ?ev3 idle_wm = idle_wm\<lparr>logged := logged idle_wm @ [Log_event ?ev3]\<rparr>"
    by blast
  show ?thesis
    by (rule conjI [OF h1 conjI [OF t conjI [OF c1 conjI [OF c3
          conjI [OF conjunct1 [OF h2] conjI [OF conjunct2 [OF h2] c4]]]]]])
qed

text \<open>
  C7, configure requests. For a tracked window the handler returns without any call and
  leaves the state as it is. For an untracked window it issues one configure call for
  that window whose mask names x, y, width, height and border width and whose values are
  the requested ones: the position sign-extended, the sizes zero-extended, so each field
  is assigned the requested number.
\<close>

theorem configure_request_echo:
  "(registry s (event_window ev) \<noteq> None \<longrightarrow> handle_configure_request ev s = s) \<and>
   (registry s (event_window ev) = None \<longrightarrow>
      handle_configure_request ev s =
        s\<lparr>g_values := (g_values s)
              (0 := scast (event_x ev), 1 := scast (event_y ev), 2 := ucast (event_width ev),
               3 := ucast (event_height ev), 4 := ucast (event_border_width ev)),
           calls := calls s @
             [Configure_window (event_window ev)
                (XCB_CONFIG_SIZE OR XCB_CONFIG_WINDOW_BORDER_WIDTH)
                [scast (event_x ev), scast (event_y ev), ucast (event_width ev),
                 ucast (event_height ev), ucast (event_border_width ev)]]\<rparr>) \<and>
   XCB_CONFIG_SIZE OR XCB_CONFIG_WINDOW_BORDER_WIDTH =
     XCB_CONFIG_WINDOW_X OR XCB_CONFIG_WINDOW_Y OR XCB_CONFIG_WINDOW_WIDTH OR
     XCB_CONFIG_WINDOW_HEIGHT OR XCB_CONFIG_WINDOW_BORDER_WIDTH \<and>
   map (configured (XCB_CONFIG_SIZE OR XCB_CONFIG_WINDOW_BORDER_WIDTH)
          [scast (event_x ev), scast (event_y ev), ucast (event_width ev),
           ucast (event_height ev), ucast (event_border_width ev)]) [0, 1, 2, 3, 4] =
     [Some (scast (event_x ev)), Some (scast (event_y ev)), Some (ucast (event_width ev)),
      Some (ucast (event_height ev)), Some (ucast (event_border_width ev))] \<and>
   sint (scast (event_x ev) :: 32 word) = sint (event_x ev) \<and>
   sint (scast (event_y ev) :: 32 word) = sint (event_y ev) \<and>
   unat (ucast (event_width ev) :: 32 word) = unat (event_width ev) \<and>
   unat (ucast (event_height ev) :: 32 word) = unat (event_height ev) \<and>
   unat (ucast (event_border_width ev) :: 32 word) = unat (event_border_width ev)"
proof -
  have tracked: "registry s (event_window ev) \<noteq> None \<longrightarrow> handle_configure_request ev s = s"
    by (auto simp: handle_configure_request_def get_window_of_xcb_window_def)
  have untracked: "registry s (event_window ev) = None \<longrightarrow>
      handle_configure_request ev s =
        s\<lparr>g_values := (g_values s)
              (0 := scast (event_x ev), 1 := scast (event_y ev), 2 := ucast (event_width ev),
               3 := ucast (event_height ev), 4 := ucast (event_border_width ev)),
           calls := calls s @
             [Configure_window (event_window ev)
                (XCB_CONFIG_SIZE OR XCB_CONFIG_WINDOW_BORDER_WIDTH)
                [scast (event_x ev), scast (event_y ev), ucast (event_width ev),
                 ucast (event_height ev), ucast (event_border_width ev)]]\<rparr>"
    by (simp add: handle_configure_request_def get_window_of_xcb_window_def
        xcb_configure_window_def issue_def config_masks value_list_all)
  have mask: "XCB_CONFIG_SIZE OR XCB_CONFIG_WINDOW_BORDER_WIDTH =
     XCB_CONFIG_WINDOW_X OR XCB_CONFIG_WINDOW_Y OR XCB_CONFIG_WINDOW_WIDTH OR
     XCB_CONFIG_WINDOW_HEIGHT OR XCB_CONFIG_WINDOW_BORDER_WIDTH"
    by (simp add: XCB_CONFIG_SIZE_def)
  have fields: "map (configured (XCB_CONFIG_SIZE OR XCB_CONFIG_WINDOW_BORDER_WIDTH)
          [scast (event_x ev), scast (event_y ev), ucast (event_width ev),
           ucast (event_height ev), ucast (event_border_width ev)]) [0, 1, 2, 3, 4] =
     [Some (scast (event_x ev)), Some (scast (event_y ev)), Some (ucast (event_width ev)),
      Some (ucast (event_height ev)), Some (ucast (event_border_width ev))]"
    unfolding config_masks by (simp only: list.map configured_all)
  show ?thesis
    by (intro conjI tracked untracked mask fields sint_scast_16_32 unat_ucast_16_32)
qed

theorem configure_request_echo_witness:
  "registry idle_wm (event_window (blank_event\<lparr>event_window := 7\<rparr>)) \<noteq> None \<and>
   handle_configure_request (blank_event\<lparr>event_window := 7\<rparr>) idle_wm = idle_wm \<and>
   registry idle_wm
     (event_window (blank_event\<lparr>event_window := 9, event_x := - 5, event_y := 30,
        event_width := 500, event_height := 400, event_border_width := 2\<rparr>)) = None \<and>
   calls (handle_configure_request
            (blank_event\<lparr>event_window := 9, event_x := - 5, event_y := 30,
               event_width := 500, event_height := 400, event_border_width := 2\<rparr>) idle_wm) =
     [Configure_window 9 31 [- 5, 30, 500, 400, 2]]"
proof -
  let ?ev7 = "blank_event\<lparr>event_window := 7\<rparr>"
  let ?ev9 = "blank_event\<lparr>event_window := 9, event_x := - 5, event_y := 30,
        event_width := 500, event_height := 400, event_border_width := 2\<rparr>"
  have h1: "registry idle_wm (event_window ?ev7) \<noteq> None"
    by (simp add: idle_wm_def blank_event_def)
  have h2: "registry idle_wm (event_window ?ev9) = None"
    by (simp add: idle_wm_def blank_event_def)
  from configure_request_echo [of idle_wm ?ev7] h1
  have c1: "handle_configure_request ?ev7 idle_wm = idle_wm"
    by blast
  from configure_request_echo [of idle_wm ?ev9] h2
  have "handle_configure_request ?ev9 idle_wm =
        idle_wm\<lparr>g_values := (g_values idle_wm)
              (0 := scast (event_x ?ev9), 1 := scast (event_y ?ev9), 2 := ucast (event_width ?ev9),
               3 := ucast (event_height ?ev9), 4 := ucast (event_border_width ?ev9)),
           calls := calls idle_wm @
             [Configure_window (event_window ?ev9)
                (XCB_CONFIG_SIZE OR XCB_CONFIG_WINDOW_BORDER_WIDTH)
                [scast (event_x ?ev9), scast (event_y ?ev9), ucast (event_width ?ev9),
                 ucast (event_height ?ev9), ucast (event_border_width ?ev9)]]\<rparr>"
    by blast
  then have c2: "calls (handle_configure_request ?ev9 idle_wm) =
     [Configure_window 9 31 [- 5, 30, 500, 400, 2]]"
    by (simp add: idle_wm_def blank_event_def config_masks)
  show ?thesis
    by (rule conjI [OF h1 conjI [OF c1 conjI [OF h2 c2]]])
qed

text \<open>
  C8, the reposition formula. When the geometry query for the selected window succeeds,
  the motion handler issues, after the query, exactly one configure call: for that
  window, with the mask of x and y, to the position geometry + (pointer root position -
  old mouse position); it stores the pointer root position as the old mouse position and
  changes nothing else but the value array. With an \<^verbatim>\<open>int16_t\<close> old position, which is
  what a button press or an earlier motion stores, the sums are the integer sums.
\<close>

theorem motion_reposition:
  assumes "server_geometry s (xcb_window (selected_window s)) = Some g"
  shows "handle_motion_notify ev s =
           s\<lparr>g_values := (g_values s)
                 (0 := scast (geometry_x g) +
                         (scast (event_root_x ev) - position_x (old_mouse (selected_window s))),
                  1 := scast (geometry_y g) +
                         (scast (event_root_y ev) - position_y (old_mouse (selected_window s)))),
              selected_window := (selected_window s)
                 \<lparr>old_mouse := \<lparr>position_x = scast (event_root_x ev),
                                  position_y = scast (event_root_y ev)\<rparr>\<rparr>,
              calls := calls s @
                 [Get_geometry (xcb_window (selected_window s)),
                  Configure_window (xcb_window (selected_window s))
                    (XCB_CONFIG_WINDOW_X OR XCB_CONFIG_WINDOW_Y)
                    [scast (geometry_x g) +
                       (scast (event_root_x ev) - position_x (old_mouse (selected_window s))),
                     scast (geometry_y g) +
                       (scast (event_root_y ev) - position_y (old_mouse (selected_window s)))]]\<rparr> \<and>
         map (configured (XCB_CONFIG_WINDOW_X OR XCB_CONFIG_WINDOW_Y) [vx, vy]) [0, 1, 2, 3, 4] =
           [Some vx, Some vy, None, None, None] \<and>
         int16_position (old_mouse (selected_window (handle_motion_notify ev s))) \<and>
         (int16_position (old_mouse (selected_window s)) \<longrightarrow>
            sint (scast (geometry_x g) +
                    (scast (event_root_x ev) - position_x (old_mouse (selected_window s)))) =
              sint (geometry_x g) +
                (sint (event_root_x ev) - sint (position_x (old_mouse (selected_window s)))) \<and>
            sint (scast (geometry_y g) +
                    (scast (event_root_y ev) - position_y (old_mouse (selected_window s)))) =
              sint (geometry_y g) +
                (sint (event_root_y ev) - sint (position_y (old_mouse (selected_window s)))))"
proof (intro conjI impI)
  show "map (configured (XCB_CONFIG_WINDOW_X OR XCB_CONFIG_WINDOW_Y) [vx, vy]) [0, 1, 2, 3, 4] =
          [Some vx, Some vy, None, None, None]"
    unfolding config_masks by (simp only: list.map configured_xy)
  show "int16_position (old_mouse (selected_window (handle_motion_notify ev s)))"
    unfolding handle_motion_notify_moves [OF assms] by (simp add: int16_position_scast)
next
  assume "int16_position (old_mouse (selected_window s))"
  then show "sint (scast (geometry_x g) +
                    (scast (event_root_x ev) - position_x (old_mouse (selected_window s)))) =
              sint (geometry_x g) +
                (sint (event_root_x ev) - sint (position_x (old_mouse (selected_window s))))"
    by (intro sint_reposition) (simp_all add: int16_position_def)
next
  assume "int16_position (old_mouse (selected_window s))"
  then show "sint (scast (geometry_y g) +
                    (scast (event_root_y ev) - position_y (old_mouse (selected_window s)))) =
              sint (geometry_y g) +
                (sint (event_root_y ev) - sint (position_y (old_mouse (selected_window s))))"
    by (intro sint_reposition) (simp_all add: int16_position_def)
qed (rule handle_motion_notify_moves [OF assms])

text \<open>
  The example of the spec: a press at root position (100, 200) over the popup window 7 at
  (10, 20), then a motion to (110, 205), repositions the window to (20, 25) and stores
  (110, 205).
\<close>

theorem motion_reposition_witness:
  "server_geometry (handle_button_press press_event idle_wm)
     (xcb_window (selected_window (handle_button_press press_event idle_wm))) =
     Some \<lparr>geometry_x = 10, geometry_y = 20, geometry_width = 300, geometry_height = 200,
           geometry_border_width = 1\<rparr> \<and>
   old_mouse (selected_window (handle_button_press press_event idle_wm)) =
     \<lparr>position_x = 100, position_y = 200\<rparr> \<and>
   new_calls (handle_button_press press_event idle_wm)
     (handle_motion_notify motion_event (handle_button_press press_event idle_wm)) =
     [Get_geometry 7, Configure_window 7 (XCB_CONFIG_WINDOW_X OR XCB_CONFIG_WINDOW_Y) [20, 25]] \<and>
   old_mouse (selected_window
     (handle_motion_notify motion_event (handle_button_press press_event idle_wm))) =
     \<lparr>position_x = 110, position_y = 205\<rparr>"
proof -
  let ?s = "handle_button_press press_event idle_wm"
  let ?g = "\<lparr>geometry_x = 10, geometry_y = 20, geometry_width = 300, geometry_height = 200,
             geometry_border_width = 1\<rparr>"
  have press: "?s = idle_wm\<lparr>selected_window :=
                 \<lparr>start = \<lparr>position_x = 200, position_y = 200\<rparr>,
                  old_mouse = \<lparr>position_x = 100, position_y = 200\<rparr>,
                  xcb_window = 7\<rparr>,
              calls := [Get_geometry 7, Grab_pointer 1 8200 1 1 1]\<rparr>"
    by (simp add: handle_button_press_def get_window_of_xcb_window_def
        xcb_get_geometry_reply_def issue_def idle_wm_def press_event_def blank_event_def)
  have h: "server_geometry ?s (xcb_window (selected_window ?s)) = Some ?g"
    unfolding press by (simp add: idle_wm_def)
  have o: "old_mouse (selected_window ?s) = \<lparr>position_x = 100, position_y = 200\<rparr>"
    unfolding press by simp
  note eq = conjunct1 [OF motion_reposition [OF h, of motion_event]]
  have c: "new_calls ?s (handle_motion_notify motion_event ?s) =
             [Get_geometry 7, Configure_window 7 (XCB_CONFIG_WINDOW_X OR XCB_CONFIG_WINDOW_Y) [20, 25]]"
    unfolding eq new_calls_def unfolding press
    by (simp add: motion_event_def blank_event_def)
  have m: "old_mouse (selected_window (handle_motion_notify motion_event ?s)) =
             \<lparr>position_x = 110, position_y = 205\<rparr>"
    unfolding eq by (simp add: motion_event_def blank_event_def)
  show ?thesis
    by (rule conjI [OF h conjI [OF o conjI [OF c m]]])
qed

text \<open>
  C9, the start of a grab. A button press requests the pointer grab exactly when the
  window under the pointer is tracked, is a popup and answers the geometry query. Then
  both components of \<open>start\<close> hold the root y coordinate, \<open>old_mouse\<close> holds the root
  position, the selected window is that window, the grab is requested on the root window
  for button release and button motion, and the grab is active. Over an untracked or a
  non-popup window the state is unchanged; over a popup window without geometry only the
  query is issued and the grab is as active as before.
\<close>

theorem button_press_grab:
  "((\<exists>r \<in> set (new_calls s (handle_button_press ev s)). is_grab r) \<longleftrightarrow>
      (\<exists>w g. registry s (event_child ev) = Some w \<and>
             window_state_current w = WINDOW_STATE_POPUP \<and>
             server_geometry s (event_child ev) = Some g)) \<and>
   (registry s (event_child ev) = Some w \<and> window_state_current w = WINDOW_STATE_POPUP \<and>
    server_geometry s (event_child ev) = Some g \<longrightarrow>
      handle_button_press ev s =
        s\<lparr>selected_window :=
              \<lparr>start = \<lparr>position_x = scast (event_root_y ev),
                         position_y = scast (event_root_y ev)\<rparr>,
               old_mouse = \<lparr>position_x = scast (event_root_x ev),
                             position_y = scast (event_root_y ev)\<rparr>,
               xcb_window = event_child ev\<rparr>,
           calls := calls s @
              [Get_geometry (event_child ev),
               Grab_pointer (event_root ev)
                 (XCB_EVENT_MASK_BUTTON_RELEASE OR XCB_EVENT_MASK_BUTTON_MOTION)
                 XCB_GRAB_MODE_ASYNC XCB_GRAB_MODE_ASYNC (event_root ev)]\<rparr> \<and>
      grab_active (calls (handle_button_press ev s))) \<and>
   (registry s (event_child ev) = None \<longrightarrow> handle_button_press ev s = s) \<and>
   (registry s (event_child ev) = Some w \<and> window_state_current w \<noteq> WINDOW_STATE_POPUP \<longrightarrow>
      handle_button_press ev s = s) \<and>
   (registry s (event_child ev) = Some w \<and> window_state_current w = WINDOW_STATE_POPUP \<and>
    server_geometry s (event_child ev) = None \<longrightarrow>
      handle_button_press ev s = s\<lparr>calls := calls s @ [Get_geometry (event_child ev)]\<rparr> \<and>
      grab_active (calls (handle_button_press ev s)) = grab_active (calls s))"
proof -
  have iff: "(\<exists>r \<in> set (new_calls s (handle_button_press ev s)). is_grab r) \<longleftrightarrow>
      (\<exists>w g. registry s (event_child ev) = Some w \<and>
             window_state_current w = WINDOW_STATE_POPUP \<and>
             server_geometry s (event_child ev) = Some g)"
  proof (cases "registry s (event_child ev)")
    case None
    then show ?thesis
      by (simp add: handle_button_press_ignores new_calls_def)
  next
    case (Some w')
    show ?thesis
    proof (cases "window_state_current w' = WINDOW_STATE_POPUP")
      case False
      with Some have "handle_button_press ev s = s"
        by (intro handle_button_press_ignores) simp
      with Some False show ?thesis
        by (simp add: new_calls_def)
    next
      case True
      show ?thesis
      proof (cases "server_geometry s (event_child ev)")
        case None
        with Some True show ?thesis
          by (simp add: handle_button_press_no_geometry new_calls_def)
      next
        case (Some g')
        with \<open>registry s (event_child ev) = Some w'\<close> True show ?thesis
          by (simp add: handle_button_press_grabs new_calls_def)
      qed
    qed
  qed
  have grabs: "registry s (event_child ev) = Some w \<and>
      window_state_current w = WINDOW_STATE_POPUP \<and>
      server_geometry s (event_child ev) = Some g \<longrightarrow>
      handle_button_press ev s =
        s\<lparr>selected_window :=
              \<lparr>start = \<lparr>position_x = scast (event_root_y ev),
                         position_y = scast (event_root_y ev)\<rparr>,
               old_mouse = \<lparr>position_x = scast (event_root_x ev),
                             position_y = scast (event_root_y ev)\<rparr>,
               xcb_window = event_child ev\<rparr>,
           calls := calls s @
              [Get_geometry (event_child ev),
               Grab_pointer (event_root ev)
                 (XCB_EVENT_MASK_BUTTON_RELEASE OR XCB_EVENT_MASK_BUTTON_MOTION)
                 XCB_GRAB_MODE_ASYNC XCB_GRAB_MODE_ASYNC (event_root ev)]\<rparr> \<and>
      grab_active (calls (handle_button_press ev s))"
    by (simp add: handle_button_press_grabs grab_active_snoc2)
  have untracked: "registry s (event_child ev) = None \<longrightarrow> handle_button_press ev s = s"
    by (simp add: handle_button_press_ignores)
  have other: "registry s (event_child ev) = Some w \<and>
      window_state_current w \<noteq> WINDOW_STATE_POPUP \<longrightarrow> handle_button_press ev s = s"
    by (simp add: handle_button_press_ignores)
  have gone: "registry s (event_child ev) = Some w \<and>
      window_state_current w = WINDOW_STATE_POPUP \<and>
      server_geometry s (event_child ev) = None \<longrightarrow>
      handle_button_press ev s = s\<lparr>calls := calls s @ [Get_geometry (event_child ev)]\<rparr> \<and>
      grab_active (calls (handle_button_press ev s)) = grab_active (calls s)"
    by (simp add: handle_button_press_no_geometry grab_active_snoc)
  show ?thesis
    by (rule conjI [OF iff conjI [OF grabs conjI [OF untracked conjI [OF other gone]]]])
qed

theorem button_press_grab_witness:
  "registry idle_wm (event_child press_event) = Some \<lparr>window_state_current = WINDOW_STATE_POPUP\<rparr> \<and>
   server_geometry idle_wm (event_child press_event) =
     Some \<lparr>geometry_x = 10, geometry_y = 20, geometry_width = 300, geometry_height = 200,
           geometry_border_width = 1\<rparr> \<and>
   handle_button_press press_event idle_wm =
     idle_wm\<lparr>selected_window :=
               \<lparr>start = \<lparr>position_x = 200, position_y = 200\<rparr>,
                old_mouse = \<lparr>position_x = 100, position_y = 200\<rparr>,
                xcb_window = 7\<rparr>,
             calls := [Get_geometry 7, Grab_pointer 1 8200 1 1 1]\<rparr> \<and>
   grab_active (calls (handle_button_press press_event idle_wm)) \<and>
   (\<exists>r \<in> set (new_calls idle_wm (handle_button_press press_event idle_wm)). is_grab r) \<and>
   registry idle_wm (event_child (press_event\<lparr>event_child := 9\<rparr>)) = None \<and>
   handle_button_press (press_event\<lparr>event_child := 9\<rparr>) idle_wm = idle_wm \<and>
   registry idle_wm (event_child (press_event\<lparr>event_child := 8\<rparr>)) =
     Some \<lparr>window_state_current = WINDOW_STATE_OTHER 0\<rparr> \<and>
   handle_button_press (press_event\<lparr>event_child := 8\<rparr>) idle_wm = idle_wm \<and>
   server_geometry (idle_wm\<lparr>server_geometry := \<lambda>w. None\<rparr>) (event_child press_event) = None \<and>
   handle_button_press press_event (idle_wm\<lparr>server_geometry := \<lambda>w. None\<rparr>) =
     idle_wm\<lparr>server_geometry := \<lambda>w. None, calls := [Get_geometry 7]\<rparr>"
proof -
  let ?popup = "\<lparr>window_state_current = WINDOW_STATE_POPUP\<rparr>"
  let ?other = "\<lparr>window_state_current = WINDOW_STATE_OTHER 0\<rparr>"
  let ?g = "\<lparr>geometry_x = 10, geometry_y = 20, geometry_width = 300, geometry_height = 200,
             geometry_border_width = 1\<rparr>"
  let ?deaf = "idle_wm\<lparr>server_geometry := \<lambda>w. None\<rparr>"
  have r7: "registry idle_wm (event_child press_event) = Some ?popup"
    by (simp add: idle_wm_def press_event_def blank_event_def)
  have g7: "server_geometry idle_wm (event_child press_event) = Some ?g"
    by (simp add: idle_wm_def press_event_def blank_event_def)
  have r9: "registry idle_wm (event_child (press_event\<lparr>event_child := 9\<rparr>)) = None"
    by (simp add: idle_wm_def)
  have r8: "registry idle_wm (event_child (press_event\<lparr>event_child := 8\<rparr>)) = Some ?other"
    by (simp add: idle_wm_def)
  have rd: "registry ?deaf (event_child press_event) = Some ?popup"
    by (simp add: idle_wm_def press_event_def blank_event_def)
  have gd: "server_geometry ?deaf (event_child press_event) = None"
    by simp
  note claim = button_press_grab [of idle_wm press_event ?popup ?g]
  have hyp: "registry idle_wm (event_child press_event) = Some ?popup \<and>
      window_state_current ?popup = WINDOW_STATE_POPUP \<and>
      server_geometry idle_wm (event_child press_event) = Some ?g"
    using r7 g7 by simp
  note then_grab = mp [OF conjunct1 [OF conjunct2 [OF claim]] hyp]
  have active: "grab_active (calls (handle_button_press press_event idle_wm))"
    using then_grab by (rule conjunct2)
  have press: "handle_button_press press_event idle_wm =
     idle_wm\<lparr>selected_window :=
               \<lparr>start = \<lparr>position_x = 200, position_y = 200\<rparr>,
                old_mouse = \<lparr>position_x = 100, position_y = 200\<rparr>,
                xcb_window = 7\<rparr>,
             calls := [Get_geometry 7, Grab_pointer 1 8200 1 1 1]\<rparr>"
    unfolding conjunct1 [OF then_grab]
    by (simp add: press_event_def blank_event_def idle_wm_def)
  have grab: "\<exists>r \<in> set (new_calls idle_wm (handle_button_press press_event idle_wm)). is_grab r"
    using conjunct1 [OF claim] hyp by blast
  from button_press_grab [of idle_wm "press_event\<lparr>event_child := 9\<rparr>"] r9
  have c9: "handle_button_press (press_event\<lparr>event_child := 9\<rparr>) idle_wm = idle_wm"
    by blast
  from button_press_grab [of idle_wm "press_event\<lparr>event_child := 8\<rparr>" ?other] r8
  have c8: "handle_button_press (press_event\<lparr>event_child := 8\<rparr>) idle_wm = idle_wm"
    by simp
  from button_press_grab [of ?deaf press_event ?popup] rd gd
  have "handle_button_press press_event ?deaf =
          ?deaf\<lparr>calls := calls ?deaf @ [Get_geometry (event_child press_event)]\<rparr>"
    by simp
  then have cd: "handle_button_press press_event ?deaf =
     idle_wm\<lparr>server_geometry := \<lambda>w. None, calls := [Get_geometry 7]\<rparr>"
    by (simp add: idle_wm_def press_event_def blank_event_def)
  show ?thesis
    by (rule conjI [OF r7 conjI [OF g7 conjI [OF press conjI [OF active conjI [OF grab
          conjI [OF r9 conjI [OF c9 conjI [OF r8 conjI [OF c8 conjI [OF gd cd]]]]]]]]]])
qed

text \<open>
  C6, grab exclusivity, as the code has it. The claim's last part fails: the motion
  handler does not look at whether a grab is active. After a press over window 7 and a
  release, no grab is active, and a motion event still queries the geometry of window 7
  and repositions it.
\<close>

theorem motion_without_grab_counterexample:
  "\<not> grab_active
       (calls (handle_button_release release_event (handle_button_press press_event idle_wm))) \<and>
   new_calls (handle_button_release release_event (handle_button_press press_event idle_wm))
     (handle_motion_notify motion_event
        (handle_button_release release_event (handle_button_press press_event idle_wm))) =
     [Get_geometry 7, Configure_window 7 (XCB_CONFIG_WINDOW_X OR XCB_CONFIG_WINDOW_Y) [20, 25]] \<and>
   old_mouse (selected_window
     (handle_motion_notify motion_event
        (handle_button_release release_event (handle_button_press press_event idle_wm)))) \<noteq>
   old_mouse (selected_window
     (handle_button_release release_event (handle_button_press press_event idle_wm)))"
proof -
  let ?s = "handle_button_release release_event (handle_button_press press_event idle_wm)"
  have s: "?s = idle_wm\<lparr>selected_window :=
                 \<lparr>start = \<lparr>position_x = 200, position_y = 200\<rparr>,
                  old_mouse = \<lparr>position_x = 100, position_y = 200\<rparr>,
                  xcb_window = 7\<rparr>,
              calls := [Get_geometry 7, Grab_pointer 1 8200 1 1 1, Ungrab_pointer]\<rparr>"
    by (simp add: handle_button_release_eq handle_button_press_def get_window_of_xcb_window_def
        xcb_get_geometry_reply_def issue_def idle_wm_def press_event_def blank_event_def)
  have g: "server_geometry ?s (xcb_window (selected_window ?s)) =
             Some \<lparr>geometry_x = 10, geometry_y = 20, geometry_width = 300,
                   geometry_height = 200, geometry_border_width = 1\<rparr>"
    unfolding s by (simp add: idle_wm_def)
  have 1: "\<not> grab_active (calls ?s)"
    unfolding s by (simp add: grab_active_def)
  have 2: "new_calls ?s (handle_motion_notify motion_event ?s) =
     [Get_geometry 7, Configure_window 7 (XCB_CONFIG_WINDOW_X OR XCB_CONFIG_WINDOW_Y) [20, 25]]"
    unfolding handle_motion_notify_moves [OF g] new_calls_def unfolding s
    by (simp add: motion_event_def blank_event_def)
  have 3: "old_mouse (selected_window (handle_motion_notify motion_event ?s)) \<noteq>
           old_mouse (selected_window ?s)"
    unfolding handle_motion_notify_moves [OF g] unfolding s
    by (simp add: motion_event_def blank_event_def)
  show ?thesis
    by (rule conjI [OF 1 conjI [OF 2 3]])
qed

text \<open>
  C6, amended. A button release issues the ungrab and nothing else, so no grab is active
  afterwards, and leaves \<^verbatim>\<open>selected_window\<close> as it was. A motion event whose geometry
  query fails issues the query and the ungrab and nothing else, so no grab is active
  afterwards. A motion event while no grab is active is handled like any other: when the
  geometry query for the window last selected succeeds, that window is repositioned and
  the old mouse position updated; no grab becomes active by it.
\<close>

theorem grab_release:
  "handle_button_release ev s = s\<lparr>calls := calls s @ [Ungrab_pointer]\<rparr> \<and>
   \<not> grab_active (calls (handle_button_release ev s)) \<and>
   (server_geometry s (xcb_window (selected_window s)) = None \<longrightarrow>
      handle_motion_notify ev s =
        s\<lparr>calls := calls s @ [Get_geometry (xcb_window (selected_window s)), Ungrab_pointer]\<rparr> \<and>
      \<not> grab_active (calls (handle_motion_notify ev s))) \<and>
   (\<not> grab_active (calls s) \<and> server_geometry s (xcb_window (selected_window s)) = Some g \<longrightarrow>
      new_calls s (handle_motion_notify ev s) =
        [Get_geometry (xcb_window (selected_window s)),
         Configure_window (xcb_window (selected_window s))
           (XCB_CONFIG_WINDOW_X OR XCB_CONFIG_WINDOW_Y)
           [scast (geometry_x g) +
              (scast (event_root_x ev) - position_x (old_mouse (selected_window s))),
            scast (geometry_y g) +
              (scast (event_root_y ev) - position_y (old_mouse (selected_window s)))]] \<and>
      old_mouse (selected_window (handle_motion_notify ev s)) =
        \<lparr>position_x = scast (event_root_x ev), position_y = scast (event_root_y ev)\<rparr> \<and>
      \<not> grab_active (calls (handle_motion_notify ev s)))"
proof -
  have release: "handle_button_release ev s = s\<lparr>calls := calls s @ [Ungrab_pointer]\<rparr>"
    by (rule handle_button_release_eq)
  have released: "\<not> grab_active (calls (handle_button_release ev s))"
    by (simp add: handle_button_release_eq grab_active_snoc)
  have gone: "server_geometry s (xcb_window (selected_window s)) = None \<longrightarrow>
      handle_motion_notify ev s =
        s\<lparr>calls := calls s @ [Get_geometry (xcb_window (selected_window s)), Ungrab_pointer]\<rparr> \<and>
      \<not> grab_active (calls (handle_motion_notify ev s))"
    by (simp add: handle_motion_notify_gone grab_active_snoc2)
  have moves: "\<not> grab_active (calls s) \<and>
      server_geometry s (xcb_window (selected_window s)) = Some g \<longrightarrow>
      new_calls s (handle_motion_notify ev s) =
        [Get_geometry (xcb_window (selected_window s)),
         Configure_window (xcb_window (selected_window s))
           (XCB_CONFIG_WINDOW_X OR XCB_CONFIG_WINDOW_Y)
           [scast (geometry_x g) +
              (scast (event_root_x ev) - position_x (old_mouse (selected_window s))),
            scast (geometry_y g) +
              (scast (event_root_y ev) - position_y (old_mouse (selected_window s)))]] \<and>
      old_mouse (selected_window (handle_motion_notify ev s)) =
        \<lparr>position_x = scast (event_root_x ev), position_y = scast (event_root_y ev)\<rparr> \<and>
      \<not> grab_active (calls (handle_motion_notify ev s))"
    by (simp add: handle_motion_notify_moves new_calls_def grab_active_snoc2)
  show ?thesis
    by (rule conjI [OF release conjI [OF released conjI [OF gone moves]]])
qed

theorem grab_release_witness:
  "server_geometry idle_wm (xcb_window (selected_window idle_wm)) = None \<and>
   handle_motion_notify motion_event idle_wm =
     idle_wm\<lparr>calls := [Get_geometry 0, Ungrab_pointer]\<rparr> \<and>
   \<not> grab_active (calls (handle_motion_notify motion_event idle_wm)) \<and>
   \<not> grab_active
       (calls (handle_button_release release_event (handle_button_press press_event idle_wm))) \<and>
   server_geometry (handle_button_release release_event (handle_button_press press_event idle_wm))
     (xcb_window (selected_window
        (handle_button_release release_event (handle_button_press press_event idle_wm)))) =
     Some \<lparr>geometry_x = 10, geometry_y = 20, geometry_width = 300, geometry_height = 200,
           geometry_border_width = 1\<rparr> \<and>
   old_mouse (selected_window
     (handle_motion_notify motion_event
        (handle_button_release release_event (handle_button_press press_event idle_wm)))) =
     \<lparr>position_x = 110, position_y = 205\<rparr> \<and>
   \<not> grab_active (calls
     (handle_motion_notify motion_event
        (handle_button_release release_event (handle_button_press press_event idle_wm))))"
proof -
  let ?p = "handle_button_press press_event idle_wm"
  let ?s = "handle_button_release release_event ?p"
  let ?g = "\<lparr>geometry_x = 10, geometry_y = 20, geometry_width = 300, geometry_height = 200,
             geometry_border_width = 1\<rparr>"
  have h0: "server_geometry idle_wm (xcb_window (selected_window idle_wm)) = None"
    by (simp add: idle_wm_def)
  from grab_release [of motion_event idle_wm] h0
  have "handle_motion_notify motion_event idle_wm =
        idle_wm\<lparr>calls := calls idle_wm @
          [Get_geometry (xcb_window (selected_window idle_wm)), Ungrab_pointer]\<rparr>"
    and c2: "\<not> grab_active (calls (handle_motion_notify motion_event idle_wm))"
    by blast+
  then have c1: "handle_motion_notify motion_event idle_wm =
     idle_wm\<lparr>calls := [Get_geometry 0, Ungrab_pointer]\<rparr>"
    by (simp add: idle_wm_def)
  have c3: "\<not> grab_active (calls ?s)"
    using grab_release [of release_event ?p] by blast
  have s: "?s = idle_wm\<lparr>selected_window :=
                 \<lparr>start = \<lparr>position_x = 200, position_y = 200\<rparr>,
                  old_mouse = \<lparr>position_x = 100, position_y = 200\<rparr>,
                  xcb_window = 7\<rparr>,
              calls := [Get_geometry 7, Grab_pointer 1 8200 1 1 1, Ungrab_pointer]\<rparr>"
    by (simp add: handle_button_release_eq handle_button_press_def get_window_of_xcb_window_def
        xcb_get_geometry_reply_def issue_def idle_wm_def press_event_def blank_event_def)
  have h4: "server_geometry ?s (xcb_window (selected_window ?s)) = Some ?g"
    unfolding s by (simp add: idle_wm_def)
  from grab_release [of motion_event ?s ?g] c3 h4
  have "old_mouse (selected_window (handle_motion_notify motion_event ?s)) =
        \<lparr>position_x = scast (event_root_x motion_event),
          position_y = scast (event_root_y motion_event)\<rparr>"
    and c6: "\<not> grab_active (calls (handle_motion_notify motion_event ?s))"
    by blast+
  then have c5: "old_mouse (selected_window (handle_motion_notify motion_event ?s)) =
     \<lparr>position_x = 110, position_y = 205\<rparr>"
    by (simp add: motion_event_def blank_event_def)
  show ?thesis
    by (rule conjI [OF h0 conjI [OF c1 conjI [OF c2 conjI [OF c3 conjI [OF h4 conjI [OF c5 c6]]]]]])
qed

end
